theory Spec2Isabelle
  imports Main "HOL-Library.Sublist"
begin

section \<open>Strings as byte sequences\<close>

text \<open>
  A Go \<open>string\<close> is a sequence of bytes; it is modelled as a \<open>char list\<close> (a \<open>char\<close> is
  one byte). The regular expressions of \<open>main.go\<close> consist of ASCII literals and of
  negated classes of ASCII characters only, so matching byte by byte agrees with Go's
  matching rune by rune: no byte of a multi-byte UTF-8 sequence is an ASCII byte, and an
  invalid byte is consumed as one rune of width one.
\<close>

definition dquote :: char where
  "dquote = CHR 0x22"

definition squote :: char where
  "squote = CHR 0x27"

definition isUpperByte :: "char \<Rightarrow> bool" where
  "isUpperByte c = ((65::nat) \<le> of_char c \<and> of_char c \<le> (90::nat))"

definition lowerByte :: "char \<Rightarrow> char" where
  "lowerByte c = (if isUpperByte c then char_of (of_char c + (32::nat)) else c)"

definition isASCII :: "string \<Rightarrow> bool" where
  "isASCII s = list_all (\<lambda>c. (of_char c :: nat) < 128) s"

text \<open>
  \<open>strings.ToLower\<close>: a string of ASCII bytes only is lowered byte by byte (the fast path of
  the library function). Any other string is mapped rune by rune through the Unicode case
  tables; these tables are not part of the repository, and that path is the parameter
  \<open>mapRunes\<close>.
\<close>

definition ToLower :: "(string \<Rightarrow> string) \<Rightarrow> string \<Rightarrow> string" where
  "ToLower mapRunes s = (if isASCII s then map lowerByte s else mapRunes s)"

definition asciiSpace :: "char \<Rightarrow> bool" where
  "asciiSpace c = (c \<in> set [CHR 0x09, CHR 0x0A, CHR 0x0B, CHR 0x0C, CHR 0x0D, CHR 0x20])"

text \<open>The UTF-8 encodings of the runes beyond ASCII for which \<open>unicode.IsSpace\<close> holds:
  U+0085, U+00A0, U+1680, U+2000 to U+200A, U+2028, U+2029, U+202F, U+205F, U+3000.\<close>

definition unicodeSpaces :: "string list" where
  "unicodeSpaces =
    [[CHR 0xC2, CHR 0x85], [CHR 0xC2, CHR 0xA0], [CHR 0xE1, CHR 0x9A, CHR 0x80],
     [CHR 0xE2, CHR 0x80, CHR 0x80], [CHR 0xE2, CHR 0x80, CHR 0x81],
     [CHR 0xE2, CHR 0x80, CHR 0x82], [CHR 0xE2, CHR 0x80, CHR 0x83],
     [CHR 0xE2, CHR 0x80, CHR 0x84], [CHR 0xE2, CHR 0x80, CHR 0x85],
     [CHR 0xE2, CHR 0x80, CHR 0x86], [CHR 0xE2, CHR 0x80, CHR 0x87],
     [CHR 0xE2, CHR 0x80, CHR 0x88], [CHR 0xE2, CHR 0x80, CHR 0x89],
     [CHR 0xE2, CHR 0x80, CHR 0x8A], [CHR 0xE2, CHR 0x80, CHR 0xA8],
     [CHR 0xE2, CHR 0x80, CHR 0xA9], [CHR 0xE2, CHR 0x80, CHR 0xAF],
     [CHR 0xE2, CHR 0x81, CHR 0x9F], [CHR 0xE3, CHR 0x80, CHR 0x80]]"

text \<open>The number of bytes of the white-space rune a string starts with (0 when it starts
  with none), and the same for the rune it ends with.\<close>

definition leadingSpace :: "string \<Rightarrow> nat" where
  "leadingSpace s =
     (case s of [] \<Rightarrow> 0
      | c # _ \<Rightarrow> if asciiSpace c then 1
                 else (case List.find (\<lambda>e. prefix e s) unicodeSpaces of
                         None \<Rightarrow> 0 | Some e \<Rightarrow> length e))"

definition trailingSpace :: "string \<Rightarrow> nat" where
  "trailingSpace s =
     (if s = [] then 0
      else if asciiSpace (last s) then 1
      else (case List.find (\<lambda>e. suffix e s) unicodeSpaces of
              None \<Rightarrow> 0 | Some e \<Rightarrow> length e))"

function TrimLeft :: "string \<Rightarrow> string" where
  "TrimLeft s = (if leadingSpace s = 0 then s else TrimLeft (drop (leadingSpace s) s))"
  by pat_completeness auto
termination
  by (relation "measure length") (auto simp: leadingSpace_def split: list.splits)

function TrimRight :: "string \<Rightarrow> string" where
  "TrimRight s =
     (if trailingSpace s = 0 then s else TrimRight (take (length s - trailingSpace s) s))"
  by pat_completeness auto
termination
  by (relation "measure length") (auto simp: trailingSpace_def)

text \<open>\<open>strings.TrimSpace\<close>: all leading and all trailing white-space runes removed.\<close>

definition TrimSpace :: "string \<Rightarrow> string" where
  "TrimSpace s = TrimRight (TrimLeft s)"

section \<open>The regular expressions of the extractor\<close>

text \<open>
  The patterns of \<open>main.go\<close> are concatenations of four kinds of items: a literal, one
  character out of a class (\<open>["']\<close>), a greedy star of a negated class (\<open>[^>]*\<close>) and the
  one capturing group, a greedy star of a negated class (\<open>([^"']*)\<close>, \<open>([^<]*)\<close>).
\<close>

datatype atom =
    Lit string
  | OneOf "char list"
  | StarNot "char list"
  | CapStarNot "char list"

type_synonym regex = "atom list"

text \<open>
  Matching anchored at the start of the input, with Go's leftmost-first (backtracking)
  preference: a greedy star first tries to take one more character and falls back to
  stopping only when the rest of the pattern then fails. The third argument collects the
  text of the capturing group; the result is that text when the pattern matches.
\<close>

fun match_here :: "regex \<Rightarrow> string \<Rightarrow> string \<Rightarrow> string option" where
  "match_here [] s cap = Some cap"
| "match_here (Lit l # r) s cap =
     (if prefix l s then match_here r (drop (length l) s) cap else None)"
| "match_here (OneOf cs # r) s cap =
     (case s of [] \<Rightarrow> None
      | c # t \<Rightarrow> if c \<in> set cs then match_here r t cap else None)"
| "match_here (StarNot cs # r) s cap =
     (case s of [] \<Rightarrow> match_here r [] cap
      | c # t \<Rightarrow>
          if c \<in> set cs then match_here r s cap
          else (case match_here (StarNot cs # r) t cap of
                  Some m \<Rightarrow> Some m
                | None \<Rightarrow> match_here r s cap))"
| "match_here (CapStarNot cs # r) s cap =
     (case s of [] \<Rightarrow> match_here r [] cap
      | c # t \<Rightarrow>
          if c \<in> set cs then match_here r s cap
          else (case match_here (CapStarNot cs # r) t (cap @ [c]) of
                  Some m \<Rightarrow> Some m
                | None \<Rightarrow> match_here r s cap))"

text \<open>\<open>FindStringSubmatch\<close>: the match at the leftmost start position, group 1 of it.\<close>

fun FindStringSubmatch :: "regex \<Rightarrow> string \<Rightarrow> string option" where
  "FindStringSubmatch re s =
     (case match_here re s [] of
        Some cap \<Rightarrow> Some cap
      | None \<Rightarrow> (case s of [] \<Rightarrow> None | _ # t \<Rightarrow> FindStringSubmatch re t))"

definition extractTag :: "string \<Rightarrow> regex \<Rightarrow> string" where
  "extractTag html pattern =
     (case FindStringSubmatch pattern html of Some cap \<Rightarrow> cap | None \<Rightarrow> [])"

definition quotes :: "char list" where
  "quotes = [dquote, squote]"

text \<open>\<open><title[^>]*>([^<]*)</title>\<close>\<close>

definition titlePattern :: regex where
  "titlePattern =
     [Lit ''<title'', StarNot ''>'', Lit ''>'', CapStarNot ''<'', Lit ''</title>'']"

text \<open>
  The four patterns of \<open>extractMetaContent\<close>. \<open>regexp.QuoteMeta(metaName)\<close> matches
  exactly the text \<open>metaName\<close>, so the key is a literal.
\<close>

definition pattern1 :: "string \<Rightarrow> regex" where
  "pattern1 metaName =
     [Lit ''<meta'', StarNot ''>'', Lit ''name='', OneOf quotes, Lit metaName, OneOf quotes,
      StarNot ''>'', Lit ''content='', OneOf quotes, CapStarNot quotes, OneOf quotes]"

definition pattern2 :: "string \<Rightarrow> regex" where
  "pattern2 metaName =
     [Lit ''<meta'', StarNot ''>'', Lit ''property='', OneOf quotes, Lit metaName,
      OneOf quotes, StarNot ''>'', Lit ''content='', OneOf quotes, CapStarNot quotes,
      OneOf quotes]"

definition pattern3 :: "string \<Rightarrow> regex" where
  "pattern3 metaName =
     [Lit ''<meta'', StarNot ''>'', Lit ''content='', OneOf quotes, CapStarNot quotes,
      OneOf quotes, StarNot ''>'', Lit ''name='', OneOf quotes, Lit metaName, OneOf quotes]"

definition pattern4 :: "string \<Rightarrow> regex" where
  "pattern4 metaName =
     [Lit ''<meta'', StarNot ''>'', Lit ''content='', OneOf quotes, CapStarNot quotes,
      OneOf quotes, StarNot ''>'', Lit ''property='', OneOf quotes, Lit metaName,
      OneOf quotes]"

definition extractMetaContent :: "string \<Rightarrow> string \<Rightarrow> string" where
  "extractMetaContent html metaName =
     (let content1 = extractTag html (pattern1 metaName) in
      if content1 \<noteq> [] then content1
      else let content2 = extractTag html (pattern2 metaName) in
      if content2 \<noteq> [] then content2
      else let content3 = extractTag html (pattern3 metaName) in
      if content3 \<noteq> [] then content3
      else extractTag html (pattern4 metaName))"

section \<open>The result record and the extractor\<close>

record LinkPreviewResponse =
  URL :: string
  Title :: string
  Description :: string
  Image :: string
  SiteName :: string
  Error :: string

definition emptyResponse :: LinkPreviewResponse where
  "emptyResponse =
     \<lparr>URL = [], Title = [], Description = [], Image = [], SiteName = [], Error = []\<rparr>"

definition setTitle :: "string \<Rightarrow> LinkPreviewResponse \<Rightarrow> LinkPreviewResponse" where
  "setTitle v r = (if v \<noteq> [] then r\<lparr>Title := TrimSpace v\<rparr> else r)"

definition setDescription :: "string \<Rightarrow> LinkPreviewResponse \<Rightarrow> LinkPreviewResponse" where
  "setDescription v r = (if v \<noteq> [] then r\<lparr>Description := TrimSpace v\<rparr> else r)"

definition setImage :: "string \<Rightarrow> LinkPreviewResponse \<Rightarrow> LinkPreviewResponse" where
  "setImage v r = (if v \<noteq> [] then r\<lparr>Image := TrimSpace v\<rparr> else r)"

definition setSiteName :: "string \<Rightarrow> LinkPreviewResponse \<Rightarrow> LinkPreviewResponse" where
  "setSiteName v r = (if v \<noteq> [] then r\<lparr>SiteName := TrimSpace v\<rparr> else r)"

text \<open>\<open>extractMetadata\<close>: the six guarded assignments of the source, in its order.\<close>

definition extractMetadata ::
  "(string \<Rightarrow> string) \<Rightarrow> string \<Rightarrow> LinkPreviewResponse \<Rightarrow> LinkPreviewResponse" where
  "extractMetadata mapRunes htmlContent result =
     (let lowerHTML = ToLower mapRunes htmlContent;
          r1 = setTitle (extractTag htmlContent titlePattern) result;
          r2 = setTitle (extractMetaContent lowerHTML ''og:title'') r1;
          r3 = setDescription (extractMetaContent lowerHTML ''description'') r2;
          r4 = setDescription (extractMetaContent lowerHTML ''og:description'') r3;
          r5 = setImage (extractMetaContent lowerHTML ''og:image'') r4;
          r6 = setSiteName (extractMetaContent lowerHTML ''og:site_name'') r5
      in r6)"

section \<open>The library's URL parser and printer\<close>

text \<open>
  \<open>FetchLinkPreview\<close> validates its input with \<open>url.Parse\<close>, prints the defaulted URL
  with \<open>URL.String\<close> and parses it again inside \<open>http.NewRequestWithContext\<close>. These
  functions of Go's \<open>net/url\<close> (as of Go 1.22, the toolchain of the repository's
  Dockerfile) are embedded here function by function, under their own names.
\<close>

record Userinfo =
  username :: string
  password :: string
  passwordSet :: bool

record Url =
  Scheme :: string
  Opaque :: string
  User :: "Userinfo option"
  Host :: string
  Path :: string
  RawPath :: string
  OmitHost :: bool
  ForceQuery :: bool
  RawQuery :: string
  Fragment :: string
  RawFragment :: string

definition emptyUrl :: Url where
  "emptyUrl =
     \<lparr>Scheme = [], Opaque = [], User = None, Host = [], Path = [], RawPath = [],
      OmitHost = False, ForceQuery = False, RawQuery = [], Fragment = [], RawFragment = []\<rparr>"

datatype encoding =
    encodePath
  | encodePathSegment
  | encodeHost
  | encodeZone
  | encodeUserPassword
  | encodeQueryComponent
  | encodeFragment

text \<open>The errors of the parser, each with the text the library gives it.\<close>

datatype url_error =
    InvalidControlCharacter \<comment> \<open>net/url: invalid control character in URL\<close>
  | MissingProtocolScheme \<comment> \<open>missing protocol scheme\<close>
  | FirstSegmentColon \<comment> \<open>first path segment in URL cannot contain colon\<close>
  | MissingBracket \<comment> \<open>missing ']' in host\<close>
  | InvalidPort string \<comment> \<open>invalid port %q after host\<close>
  | InvalidUserinfo \<comment> \<open>net/url: invalid userinfo\<close>
  | EscapeError string \<comment> \<open>invalid URL escape %q\<close>
  | InvalidHostError string \<comment> \<open>invalid character %q in host name\<close>

text \<open>\<open>url.Error\<close>: the operation is always \<open>parse\<close>; the URL text and the cause remain.\<close>

type_synonym parse_error = "string \<times> url_error"

definition isLetter :: "char \<Rightarrow> bool" where
  "isLetter c =
     (((97::nat) \<le> of_char c \<and> of_char c \<le> (122::nat)) \<or>
      ((65::nat) \<le> of_char c \<and> of_char c \<le> (90::nat)))"

definition isDigit :: "char \<Rightarrow> bool" where
  "isDigit c = ((48::nat) \<le> of_char c \<and> of_char c \<le> (57::nat))"

definition ishex :: "char \<Rightarrow> bool" where
  "ishex c =
     (isDigit c \<or> ((97::nat) \<le> of_char c \<and> of_char c \<le> (102::nat)) \<or>
      ((65::nat) \<le> of_char c \<and> of_char c \<le> (70::nat)))"

definition unhex :: "char \<Rightarrow> nat" where
  "unhex c =
     (if isDigit c then of_char c - 48
      else if (97::nat) \<le> of_char c \<and> of_char c \<le> (102::nat) then of_char c - 97 + 10
      else if (65::nat) \<le> of_char c \<and> of_char c \<le> (70::nat) then of_char c - 65 + 10
      else 0)"

definition upperhex :: string where
  "upperhex = ''0123456789ABCDEF''"

text \<open>\<open>strings.Cut\<close> for a separator of one byte: the text before the first separator and
  the text after it (the whole string and the empty string when there is none).\<close>

definition Cut :: "string \<Rightarrow> char \<Rightarrow> string \<times> string" where
  "Cut s sep = (takeWhile (\<lambda>c. c \<noteq> sep) s, drop 1 (dropWhile (\<lambda>c. c \<noteq> sep) s))"

text \<open>\<open>strings.Index\<close> and \<open>strings.LastIndex\<close>; \<open>None\<close> stands for \<open>-1\<close>.\<close>

fun Index :: "string \<Rightarrow> string \<Rightarrow> nat option" where
  "Index s sub =
     (if prefix sub s then Some 0
      else (case s of [] \<Rightarrow> None | _ # t \<Rightarrow> map_option Suc (Index t sub)))"

definition LastIndex :: "string \<Rightarrow> char \<Rightarrow> nat option" where
  "LastIndex s sep =
     (case Index (rev s) [sep] of None \<Rightarrow> None | Some k \<Rightarrow> Some (length s - 1 - k))"

definition stringContainsCTLByte :: "string \<Rightarrow> bool" where
  "stringContainsCTLByte s =
     list_ex (\<lambda>b. (of_char b :: nat) < 32 \<or> (of_char b :: nat) = 127) s"

text \<open>\<open>getScheme\<close>: the loop over the bytes of \<open>rawURL\<close>; \<open>i\<close> is the index of the byte at
  the head of the third argument.\<close>

fun getSchemeAt :: "string \<Rightarrow> nat \<Rightarrow> string \<Rightarrow> url_error + (string \<times> string)" where
  "getSchemeAt rawURL i [] = Inr ([], rawURL)"
| "getSchemeAt rawURL i (c # cs) =
     (if isLetter c then getSchemeAt rawURL (Suc i) cs
      else if isDigit c \<or> c = CHR ''+'' \<or> c = CHR ''-'' \<or> c = CHR ''.'' then
        (if i = 0 then Inr ([], rawURL) else getSchemeAt rawURL (Suc i) cs)
      else if c = CHR '':'' then
        (if i = 0 then Inl MissingProtocolScheme else Inr (take i rawURL, cs))
      else Inr ([], rawURL))"

definition getScheme :: "string \<Rightarrow> url_error + (string \<times> string)" where
  "getScheme rawURL = getSchemeAt rawURL 0 rawURL"

definition shouldEscape :: "char \<Rightarrow> encoding \<Rightarrow> bool" where
  "shouldEscape c mode =
     (if isLetter c \<or> isDigit c then False
      else if (mode = encodeHost \<or> mode = encodeZone) \<and>
              c \<in> set (squote # dquote # ''!$&()*+,;=:[]<>'') then False
      else if c \<in> set ''-_.~'' then False
      else if c \<in> set ''$&+,/:;=?@'' \<and> mode = encodePath then c = CHR ''?''
      else if c \<in> set ''$&+,/:;=?@'' \<and> mode = encodePathSegment then
             c = CHR ''/'' \<or> c = CHR '';'' \<or> c = CHR '','' \<or> c = CHR ''?''
      else if c \<in> set ''$&+,/:;=?@'' \<and> mode = encodeUserPassword then
             c = CHR ''@'' \<or> c = CHR ''/'' \<or> c = CHR ''?'' \<or> c = CHR '':''
      else if c \<in> set ''$&+,/:;=?@'' \<and> mode = encodeQueryComponent then True
      else if c \<in> set ''$&+,/:;=?@'' \<and> mode = encodeFragment then False
      else if mode = encodeFragment \<and> c \<in> set ''!()*'' then False
      else True)"

text \<open>\<open>unescape\<close>, first loop: the check of the escapes and of the host bytes.\<close>

fun unescapeCheck :: "encoding \<Rightarrow> string \<Rightarrow> url_error option" where
  "unescapeCheck mode [] = None"
| "unescapeCheck mode (c # t) =
     (if c = CHR ''%'' then
        (case t of
           a # b # t' \<Rightarrow>
             if \<not> ishex a \<or> \<not> ishex b then Some (EscapeError (take 3 (c # t)))
             else if mode = encodeHost \<and> unhex a < 8 \<and> [c, a, b] \<noteq> ''%25'' then
               Some (EscapeError [c, a, b])
             else if mode = encodeZone \<and> [c, a, b] \<noteq> ''%25'' \<and>
                     unhex a * 16 + unhex b \<noteq> 32 \<and>
                     shouldEscape (char_of (unhex a * 16 + unhex b)) encodeHost then
               Some (EscapeError [c, a, b])
             else unescapeCheck mode t'
         | _ \<Rightarrow> Some (EscapeError (take 3 (c # t))))
      else if c = CHR ''+'' then unescapeCheck mode t
      else if (mode = encodeHost \<or> mode = encodeZone) \<and> (of_char c :: nat) < 128 \<and>
              shouldEscape c encodeHost then
        Some (InvalidHostError [c])
      else unescapeCheck mode t)"

text \<open>\<open>unescape\<close>, second loop: the decoded bytes (run only after the check passed, so
  that two bytes follow every percent sign).\<close>

fun unescapeBytes :: "encoding \<Rightarrow> string \<Rightarrow> string" where
  "unescapeBytes mode [] = []"
| "unescapeBytes mode (c # t) =
     (if c = CHR ''%'' then
        (case t of
           a # b # t' \<Rightarrow> char_of (unhex a * 16 + unhex b) # unescapeBytes mode t'
         | _ \<Rightarrow> [])
      else if c = CHR ''+'' then
        (if mode = encodeQueryComponent then CHR '' '' else CHR ''+'') # unescapeBytes mode t
      else c # unescapeBytes mode t)"

definition unescape :: "string \<Rightarrow> encoding \<Rightarrow> url_error + string" where
  "unescape s mode =
     (case unescapeCheck mode s of
        Some e \<Rightarrow> Inl e
      | None \<Rightarrow>
          if CHR ''%'' \<notin> set s \<and> \<not> (CHR ''+'' \<in> set s \<and> mode = encodeQueryComponent)
          then Inr s
          else Inr (unescapeBytes mode s))"

definition escapeByte :: "encoding \<Rightarrow> char \<Rightarrow> string" where
  "escapeByte mode c =
     (if c = CHR '' '' \<and> mode = encodeQueryComponent then ''+''
      else if shouldEscape c mode then
        [CHR ''%'', upperhex ! ((of_char c :: nat) div 16), upperhex ! ((of_char c :: nat) mod 16)]
      else [c])"

definition escape :: "string \<Rightarrow> encoding \<Rightarrow> string" where
  "escape s mode =
     (if \<not> list_ex (\<lambda>c. shouldEscape c mode) s then s
      else concat (map (escapeByte mode) s))"

definition validEncoded :: "string \<Rightarrow> encoding \<Rightarrow> bool" where
  "validEncoded s mode =
     list_all (\<lambda>c. if c \<in> set (squote # ''!$&()*+,;=:@[]%'') then True
                    else \<not> shouldEscape c mode) s"

definition validOptionalPort :: "string \<Rightarrow> bool" where
  "validOptionalPort port =
     (case port of
        [] \<Rightarrow> True
      | c # ds \<Rightarrow> c = CHR '':'' \<and> list_all isDigit ds)"

definition validUserinfo :: "string \<Rightarrow> bool" where
  "validUserinfo s =
     list_all (\<lambda>r. isLetter r \<or> isDigit r \<or> r \<in> set (squote # ''-._:~!$&()*+,;=%@'')) s"

definition parseHost :: "string \<Rightarrow> url_error + string" where
  "parseHost host =
     (if prefix ''['' host then
        (case LastIndex host CHR '']'' of
           None \<Rightarrow> Inl MissingBracket
         | Some i \<Rightarrow>
             if \<not> validOptionalPort (drop (i + 1) host) then
               Inl (InvalidPort (drop (i + 1) host))
             else
               (case Index (take i host) ''%25'' of
                  Some zone \<Rightarrow>
                    (case unescape (take zone host) encodeHost of
                       Inl e \<Rightarrow> Inl e
                     | Inr host1 \<Rightarrow>
                         (case unescape (drop zone (take i host)) encodeZone of
                            Inl e \<Rightarrow> Inl e
                          | Inr host2 \<Rightarrow>
                              (case unescape (drop i host) encodeHost of
                                 Inl e \<Rightarrow> Inl e
                               | Inr host3 \<Rightarrow> Inr (host1 @ host2 @ host3))))
                | None \<Rightarrow> unescape host encodeHost))
      else
        (case LastIndex host CHR '':'' of
           Some i \<Rightarrow>
             if \<not> validOptionalPort (drop i host) then Inl (InvalidPort (drop i host))
             else unescape host encodeHost
         | None \<Rightarrow> unescape host encodeHost))"

definition parseAuthority :: "string \<Rightarrow> url_error + (Userinfo option \<times> string)" where
  "parseAuthority authority =
     (case LastIndex authority CHR ''@'' of
        None \<Rightarrow>
          (case parseHost authority of Inl e \<Rightarrow> Inl e | Inr host \<Rightarrow> Inr (None, host))
      | Some i \<Rightarrow>
          (case parseHost (drop (i + 1) authority) of
             Inl e \<Rightarrow> Inl e
           | Inr host \<Rightarrow>
               let userinfo = take i authority in
               if \<not> validUserinfo userinfo then Inl InvalidUserinfo
               else if CHR '':'' \<notin> set userinfo then
                 (case unescape userinfo encodeUserPassword of
                    Inl e \<Rightarrow> Inl e
                  | Inr u \<Rightarrow>
                      Inr (Some \<lparr>username = u, password = [], passwordSet = False\<rparr>, host))
               else
                 (case unescape (fst (Cut userinfo CHR '':'')) encodeUserPassword of
                    Inl e \<Rightarrow> Inl e
                  | Inr u \<Rightarrow>
                      (case unescape (snd (Cut userinfo CHR '':'')) encodeUserPassword of
                         Inl e \<Rightarrow> Inl e
                       | Inr p \<Rightarrow>
                           Inr (Some \<lparr>username = u, password = p, passwordSet = True\<rparr>,
                                host)))))"

definition setPath :: "string \<Rightarrow> Url \<Rightarrow> url_error + Url" where
  "setPath p u =
     (case unescape p encodePath of
        Inl e \<Rightarrow> Inl e
      | Inr path \<Rightarrow>
          Inr (u\<lparr>Path := path,
                 RawPath := (if p = escape path encodePath then [] else p)\<rparr>))"

definition setFragment :: "string \<Rightarrow> Url \<Rightarrow> url_error + Url" where
  "setFragment f u =
     (case unescape f encodeFragment of
        Inl e \<Rightarrow> Inl e
      | Inr frag \<Rightarrow>
          Inr (u\<lparr>Fragment := frag,
                 RawFragment := (if f = escape frag encodeFragment then [] else f)\<rparr>))"

text \<open>\<open>parse(rawURL, viaRequest)\<close> with \<open>viaRequest = false\<close>, the only way \<open>url.Parse\<close>
  calls it. The scheme found by \<open>getScheme\<close> consists of ASCII letters, digits and
  \<open>+-.\<close>, so \<open>strings.ToLower\<close> lowers it byte by byte.\<close>

definition parse :: "string \<Rightarrow> url_error + Url" where
  "parse rawURL =
     (if stringContainsCTLByte rawURL then Inl InvalidControlCharacter
      else if rawURL = ''*'' then Inr (emptyUrl\<lparr>Path := ''*''\<rparr>)
      else
        (case getScheme rawURL of
           Inl e \<Rightarrow> Inl e
         | Inr (scheme0, rest0) \<Rightarrow>
             let scheme = map lowerByte scheme0;
                 force = (suffix ''?'' rest0 \<and> count_list rest0 CHR ''?'' = 1);
                 rest = (if force then butlast rest0 else fst (Cut rest0 CHR ''?''));
                 query = (if force then [] else snd (Cut rest0 CHR ''?''));
                 url = emptyUrl\<lparr>Scheme := scheme, ForceQuery := force, RawQuery := query\<rparr>
             in
               if \<not> prefix ''/'' rest \<and> scheme \<noteq> [] then Inr (url\<lparr>Opaque := rest\<rparr>)
               else if \<not> prefix ''/'' rest \<and> CHR '':'' \<in> set (fst (Cut rest CHR ''/'')) then
                 Inl FirstSegmentColon
               else if (scheme \<noteq> [] \<or> \<not> prefix ''///'' rest) \<and> prefix ''//'' rest then
                 (let authority0 = drop 2 rest;
                      authority = (case Index authority0 ''/'' of
                                     Some i \<Rightarrow> take i authority0 | None \<Rightarrow> authority0);
                      rest' = (case Index authority0 ''/'' of
                                 Some i \<Rightarrow> drop i authority0 | None \<Rightarrow> [])
                  in case parseAuthority authority of
                       Inl e \<Rightarrow> Inl e
                     | Inr (user, host) \<Rightarrow> setPath rest' (url\<lparr>User := user, Host := host\<rparr>))
               else if scheme \<noteq> [] \<and> prefix ''/'' rest then
                 setPath rest (url\<lparr>OmitHost := True\<rparr>)
               else setPath rest url))"

text \<open>\<open>url.Parse\<close>: the fragment is cut off first and set last.\<close>

definition Parse :: "string \<Rightarrow> parse_error + Url" where
  "Parse rawURL =
     (let u = fst (Cut rawURL CHR ''#''); frag = snd (Cut rawURL CHR ''#'') in
      case parse u of
        Inl e \<Rightarrow> Inl (u, e)
      | Inr url \<Rightarrow>
          if frag = [] then Inr url
          else (case setFragment frag url of
                  Inl e \<Rightarrow> Inl (rawURL, e)
                | Inr url' \<Rightarrow> Inr url'))"

definition EscapedPath :: "Url \<Rightarrow> string" where
  "EscapedPath u =
     (if RawPath u \<noteq> [] \<and> validEncoded (RawPath u) encodePath \<and>
         unescape (RawPath u) encodePath = Inr (Path u) then RawPath u
      else if Path u = ''*'' then ''*''
      else escape (Path u) encodePath)"

definition EscapedFragment :: "Url \<Rightarrow> string" where
  "EscapedFragment u =
     (if RawFragment u \<noteq> [] \<and> validEncoded (RawFragment u) encodeFragment \<and>
         unescape (RawFragment u) encodeFragment = Inr (Fragment u) then RawFragment u
      else escape (Fragment u) encodeFragment)"

definition UserinfoString :: "Userinfo \<Rightarrow> string" where
  "UserinfoString ui =
     escape (username ui) encodeUserPassword @
     (if passwordSet ui then '':'' @ escape (password ui) encodeUserPassword else [])"

text \<open>\<open>URL.String\<close>: the pieces are appended to the buffer in the order of the source.\<close>

definition String :: "Url \<Rightarrow> string" where
  "String u =
     (let buf1 = (if Scheme u \<noteq> [] then Scheme u @ '':'' else []);
          buf2 =
            (if Opaque u \<noteq> [] then buf1 @ Opaque u
             else
               (let buf3 =
                      (if Scheme u \<noteq> [] \<or> Host u \<noteq> [] \<or> User u \<noteq> None then
                         (if OmitHost u \<and> Host u = [] \<and> User u = None then buf1
                          else
                            buf1 @
                            (if Host u \<noteq> [] \<or> Path u \<noteq> [] \<or> User u \<noteq> None then ''//''
                             else []) @
                            (case User u of None \<Rightarrow> [] | Some ui \<Rightarrow> UserinfoString ui @ ''@'') @
                            (if Host u \<noteq> [] then escape (Host u) encodeHost else []))
                       else buf1);
                    path = EscapedPath u;
                    buf4 = (if path \<noteq> [] \<and> \<not> prefix ''/'' path \<and> Host u \<noteq> []
                            then buf3 @ ''/'' else buf3);
                    buf5 = (if buf4 = [] \<and> CHR '':'' \<in> set (fst (Cut path CHR ''/''))
                            then buf4 @ ''./'' else buf4)
                in buf5 @ path));
          buf6 = (if ForceQuery u \<or> RawQuery u \<noteq> [] then buf2 @ ''?'' @ RawQuery u else buf2)
      in if Fragment u \<noteq> [] then buf6 @ ''#'' @ EscapedFragment u else buf6)"

section \<open>The fetch\<close>

text \<open>
  What \<open>FetchLinkPreview\<close> receives from outside the repository is gathered in one record:
  the Unicode path of \<open>strings.ToLower\<close>, the text \<open>%v\<close> prints for a parse error, and
  the network, that is the outcome of \<open>client.Do\<close> for the URL of the request: the text
  of the transport error (also when the context is cancelled or the client times out), or
  the response.
\<close>

record Response =
  StatusCode :: int
  Status :: string
  bodyData :: string
  bodyError :: "string option"

record environment =
  mapRunes :: "string \<Rightarrow> string"
  errorText :: "parse_error \<Rightarrow> string"
  clientDo :: "string \<Rightarrow> string + Response"

text \<open>\<open>%d\<close> of \<open>fmt.Sprintf\<close>.\<close>

function natDigits :: "nat \<Rightarrow> string" where
  "natDigits n =
     (if n < 10 then [char_of (48 + n)]
      else natDigits (n div 10) @ [char_of (48 + n mod 10)])"
  by pat_completeness auto
termination
  by (relation "measure id") auto

definition formatInt :: "int \<Rightarrow> string" where
  "formatInt i = (if i < 0 then ''-'' @ natDigits (nat (- i)) else natDigits (nat i))"

text \<open>
  \<open>io.ReadAll(io.LimitReader(resp.Body, n))\<close>. The body is a stream that delivers
  \<open>bodyData\<close> and then ends, with end of file or with the error \<open>bodyError\<close>, reported by
  the read after the last byte. The limited reader reports end of file itself once
  \<open>n\<close> bytes have been read and does not read the stream again.
\<close>

definition ReadAllLimit :: "Response \<Rightarrow> nat \<Rightarrow> string + string" where
  "ReadAllLimit resp n =
     (if n \<le> length (bodyData resp) then Inr (take n (bodyData resp))
      else (case bodyError resp of None \<Rightarrow> Inr (bodyData resp) | Some e \<Rightarrow> Inl e))"

text \<open>\<open>http.NewRequestWithContext(ctx, "GET", targetURL, nil)\<close>: the method is valid and
  the context is not nil, so it fails exactly when \<open>url.Parse\<close> fails on the target.\<close>

definition NewRequestWithContext :: "string \<Rightarrow> parse_error + Url" where
  "NewRequestWithContext targetURL = Parse targetURL"

text \<open>
  \<open>FetchLinkPreview\<close>: the value of \<open>result\<close> when the function returns, which the deferred
  send puts on the channel, and the URLs requested from the network on the way.
\<close>

definition FetchLinkPreview :: "environment \<Rightarrow> string \<Rightarrow> LinkPreviewResponse \<times> string list" where
  "FetchLinkPreview env targetURL0 =
     (let result0 = emptyResponse\<lparr>URL := targetURL0\<rparr> in
      case Parse targetURL0 of
        Inl err \<Rightarrow> (result0\<lparr>Error := ''Invalid URL format: '' @ errorText env err\<rparr>, [])
      | Inr parsedURL \<Rightarrow>
          let targetURL = (if Scheme parsedURL = []
                           then String (parsedURL\<lparr>Scheme := ''https''\<rparr>) else targetURL0);
              result = (if Scheme parsedURL = [] then result0\<lparr>URL := targetURL\<rparr> else result0)
          in
            (case NewRequestWithContext targetURL of
               Inl err \<Rightarrow>
                 (result\<lparr>Error := ''Failed to create request: '' @ errorText env err\<rparr>, [])
             | Inr req \<Rightarrow>
                (case clientDo env targetURL of
                   Inl err \<Rightarrow>
                     (result\<lparr>Error := ''Failed to fetch URL: '' @ err\<rparr>, [targetURL])
                 | Inr resp \<Rightarrow>
                     if StatusCode resp \<noteq> 200 then
                       (result\<lparr>Error := ''HTTP error: '' @ formatInt (StatusCode resp) @
                                         '' '' @ Status resp\<rparr>,
                        [targetURL])
                     else
                       (case ReadAllLimit resp (1024 * 1024) of
                          Inl err \<Rightarrow>
                            (result\<lparr>Error := ''Failed to read response body: '' @ err\<rparr>,
                             [targetURL])
                        | Inr body \<Rightarrow>
                            (extractMetadata (mapRunes env) body result, [targetURL])))))"

text \<open>
  A sample environment, for evaluating the functions on concrete inputs: a network that
  knows three URLs, the error text of the library for URL texts of printable ASCII
  without quote or backslash, which \<open>%q\<close> prints unchanged between double quotes, and
  for the lowering of a text that is not ASCII the map that lowers the letters \<open>A\<close> to
  \<open>Z\<close> and keeps every other byte, which is what \<open>strings.Map(unicode.ToLower, s)\<close>
  gives on valid UTF-8 whose characters beyond ASCII have no lower-case form of their own
  (lower-case accented letters, digits, punctuation, ideographs).
\<close>

definition quoted :: "string \<Rightarrow> string" where
  "quoted s = [dquote] @ s @ [dquote]"

fun causeText :: "url_error \<Rightarrow> string" where
  "causeText InvalidControlCharacter = ''net/url: invalid control character in URL''"
| "causeText MissingProtocolScheme = ''missing protocol scheme''"
| "causeText FirstSegmentColon = ''first path segment in URL cannot contain colon''"
| "causeText MissingBracket = ''missing '' @ [squote] @ '']'' @ [squote] @ '' in host''"
| "causeText (InvalidPort p) = ''invalid port '' @ quoted p @ '' after host''"
| "causeText InvalidUserinfo = ''net/url: invalid userinfo''"
| "causeText (EscapeError e) = ''invalid URL escape '' @ quoted e"
| "causeText (InvalidHostError e) = ''invalid character '' @ quoted e @ '' in host name''"

definition sampleErrorText :: "parse_error \<Rightarrow> string" where
  "sampleErrorText err = ''parse '' @ quoted (fst err) @ '': '' @ causeText (snd err)"

definition sampleNetwork :: "string \<Rightarrow> string + Response" where
  "sampleNetwork target =
     (if target = ''https://example.com'' then
        Inr \<lparr>StatusCode = 200, Status = ''200 OK'',
             bodyData = ''<title>Example Domain</title>'', bodyError = None\<rparr>
      else if target = ''https://example.com/missing'' then
        Inr \<lparr>StatusCode = 404, Status = ''404 Not Found'',
             bodyData = ''<title>Not Found</title>'', bodyError = None\<rparr>
      else if target = ''https://example.com/big'' then
        Inr \<lparr>StatusCode = 200, Status = ''200 OK'',
             bodyData = replicate (1024 * 1024) (CHR '' '') @ ''<title>Late</title>'',
             bodyError = Some ''unexpected EOF''\<rparr>
      else Inl ''dial tcp: lookup failed: no such host'')"

definition sampleEnv :: environment where
  "sampleEnv =
     \<lparr>mapRunes = map lowerByte, errorText = sampleErrorText, clientDo = sampleNetwork\<rparr>"

text \<open>The URL the fetch uses and echoes once the input has parsed: the printed form of
  the parsed URL under the scheme \<open>https\<close> when the input has no scheme, the input itself
  otherwise.\<close>

definition echoURL :: "string \<Rightarrow> Url \<Rightarrow> string" where
  "echoURL u p = (if Scheme p = [] then String (p\<lparr>Scheme := ''https''\<rparr>) else u)"

section \<open>Notions used in the statements\<close>

text \<open>The number of capturing items of a pattern.\<close>

fun isCap :: "atom \<Rightarrow> bool" where
  "isCap (CapStarNot cs) = True"
| "isCap a = False"

definition caps :: "regex \<Rightarrow> nat" where
  "caps r = length (filter isCap r)"


text \<open>The text of an attribute value: no quote character and no angle bracket. The text
  of a key: not empty, and in addition no space and no equals sign.\<close>

definition attrText :: "string \<Rightarrow> bool" where
  "attrText w = list_all (\<lambda>c. c \<notin> set (CHR ''<'' # CHR ''>'' # quotes)) w"

definition keyText :: "string \<Rightarrow> bool" where
  "keyText s =
     (s \<noteq> [] \<and> list_all (\<lambda>c. c \<notin> set (CHR '' '' # CHR ''='' # CHR ''<'' # CHR ''>'' # quotes)) s)"

text \<open>A piece of a tag: a text, the quote character after it, and the rest.\<close>

definition seg :: "string \<Rightarrow> char \<Rightarrow> string \<Rightarrow> string" where
  "seg w q t = w @ q # t"

text \<open>A text without the upper-case letters \<open>A\<close> to \<open>Z\<close>.\<close>

definition noUpper :: "string \<Rightarrow> bool" where
  "noUpper s = list_all (\<lambda>c. \<not> isUpperByte c) s"

text \<open>
  What the patterns of \<open>extractMetaContent\<close> describe. \<open>markerFirst marker key v s\<close>: the
  text \<open>s\<close> begins with \<open><meta\<close>, then, before any \<open>>\<close>, has the marker (\<open>name=\<close> or
  \<open>property=\<close>) with the key between quote characters, then, again before any \<open>>\<close>,
  \<open>content=\<close>, a quote character, the text \<open>v\<close> without quote characters, and a quote
  character. \<open>contentFirst\<close>: the same with the content before the marker. \<open>metaTagFor doc
  key v\<close>: such a text starts somewhere in the document, so \<open>v\<close> is the content of a meta
  tag marked with the key, up to the first quote character of either kind.
\<close>

definition markerFirst :: "string \<Rightarrow> string \<Rightarrow> string \<Rightarrow> string \<Rightarrow> bool" where
  "markerFirst marker key v s =
     (\<exists>a q1 q2 b q3 q4 rest.
        s = ''<meta'' @ a @ marker @ q1 # key @ q2 # b @ ''content='' @ q3 # v @ q4 # rest \<and>
        CHR ''>'' \<notin> set a \<and> CHR ''>'' \<notin> set b \<and> set v \<inter> set quotes = {} \<and>
        q1 \<in> set quotes \<and> q2 \<in> set quotes \<and> q3 \<in> set quotes \<and> q4 \<in> set quotes)"

definition contentFirst :: "string \<Rightarrow> string \<Rightarrow> string \<Rightarrow> string \<Rightarrow> bool" where
  "contentFirst marker key v s =
     (\<exists>a q1 q2 b q3 q4 rest.
        s = ''<meta'' @ a @ ''content='' @ q3 # v @ q4 # b @ marker @ q1 # key @ q2 # rest \<and>
        CHR ''>'' \<notin> set a \<and> CHR ''>'' \<notin> set b \<and> set v \<inter> set quotes = {} \<and>
        q1 \<in> set quotes \<and> q2 \<in> set quotes \<and> q3 \<in> set quotes \<and> q4 \<in> set quotes)"

definition metaTagFor :: "string \<Rightarrow> string \<Rightarrow> string \<Rightarrow> bool" where
  "metaTagFor doc key v =
     (\<exists>pre s. doc = pre @ s \<and>
        (markerFirst ''name='' key v s \<or> markerFirst ''property='' key v s \<or>
         contentFirst ''name='' key v s \<or> contentFirst ''property='' key v s))"

text \<open>\<open>titleElementOf doc v\<close>: the document has \<open><title\<close>, then text without \<open>>\<close>, then
  \<open>>\<close>, the text \<open>v\<close> without \<open><\<close>, and \<open></title>\<close>.\<close>

definition titleElementOf :: "string \<Rightarrow> string \<Rightarrow> bool" where
  "titleElementOf doc v =
     (\<exists>pre a rest. doc = pre @ ''<title'' @ a @ ''>'' @ v @ ''</title>'' @ rest \<and>
        CHR ''>'' \<notin> set a \<and> CHR ''<'' \<notin> set v)"

text \<open>\<open>marked marker key doc\<close>: somewhere in the text the key stands after the marker
  (\<open>name=\<close> or \<open>property=\<close>) and a quote character. \<open>tagsClosed doc\<close>: every \<open><\<close> of the text
  has a \<open>>\<close> after it, so no tag is left open at its end.\<close>

definition marked :: "string \<Rightarrow> string \<Rightarrow> string \<Rightarrow> bool" where
  "marked marker key doc =
     (sublist (marker @ dquote # key) doc \<or> sublist (marker @ squote # key) doc)"

fun tagsClosed :: "string \<Rightarrow> bool" where
  "tagsClosed [] = True"
| "tagsClosed (c # t) = (if c = CHR ''<'' then CHR ''>'' \<in> set t \<and> tagsClosed t else tagsClosed t)"

section \<open>Properties of the extractor and of the fetch\<close>

subsection \<open>The paths of the fetch\<close>

lemma Error_extractMetadata: "Error (extractMetadata U h r) = Error r"
  by (simp add: extractMetadata_def Let_def setTitle_def setDescription_def setImage_def
      setSiteName_def)


lemma FetchLinkPreview_Inl:
  "Parse u = Inl e \<Longrightarrow>
   FetchLinkPreview env u =
     (emptyResponse\<lparr>URL := u, Error := ''Invalid URL format: '' @ errorText env e\<rparr>, [])"
  by (simp add: FetchLinkPreview_def Let_def)

lemma FetchLinkPreview_Inr:
  "Parse u = Inr p \<Longrightarrow>
   FetchLinkPreview env u =
     (case NewRequestWithContext (echoURL u p) of
        Inl err \<Rightarrow>
          (emptyResponse\<lparr>URL := echoURL u p,
             Error := ''Failed to create request: '' @ errorText env err\<rparr>, [])
      | Inr req \<Rightarrow>
          (case clientDo env (echoURL u p) of
             Inl err \<Rightarrow>
               (emptyResponse\<lparr>URL := echoURL u p, Error := ''Failed to fetch URL: '' @ err\<rparr>,
                [echoURL u p])
           | Inr resp \<Rightarrow>
               if StatusCode resp \<noteq> 200 then
                 (emptyResponse\<lparr>URL := echoURL u p,
                    Error := ''HTTP error: '' @ formatInt (StatusCode resp) @ '' '' @
                             Status resp\<rparr>,
                  [echoURL u p])
               else
                 (case ReadAllLimit resp (1024 * 1024) of
                    Inl err \<Rightarrow>
                      (emptyResponse\<lparr>URL := echoURL u p,
                         Error := ''Failed to read response body: '' @ err\<rparr>,
                       [echoURL u p])
                  | Inr body \<Rightarrow>
                      (extractMetadata (mapRunes env) body
                         (emptyResponse\<lparr>URL := echoURL u p\<rparr>),
                       [echoURL u p]))))"
  by (simp add: FetchLinkPreview_def echoURL_def Let_def emptyResponse_def split: sum.split)

lemma FetchLinkPreview_shape:
  "(\<exists>url msg. fst (FetchLinkPreview env u) = emptyResponse\<lparr>URL := url, Error := msg\<rparr>) \<or>
   (\<exists>url body. fst (FetchLinkPreview env u) =
        extractMetadata (mapRunes env) body (emptyResponse\<lparr>URL := url\<rparr>))"
proof (cases "Parse u")
  case (Inl e)
  then show ?thesis by (simp add: FetchLinkPreview_Inl) blast
next
  case (Inr p)
  show ?thesis
    unfolding FetchLinkPreview_Inr[OF Inr]
    by (simp split: sum.split) blast
qed

subsection \<open>Errors\<close>

text \<open>
  C6. For a response with a status other than 200 the error is \<open>HTTP error: \<close> followed
  by the status code and by the status text of the response. The status text of the
  library begins with the code itself (\<open>404 Not Found\<close>), so for a remote 404 the message
  is \<open>HTTP error: 404 404 Not Found\<close>, not \<open>HTTP error: 404 Not Found\<close>; the metadata
  fields are empty.
\<close>

theorem http_error_message_repeats_code:
  "fst (FetchLinkPreview sampleEnv ''https://example.com/missing'') =
     \<lparr>URL = ''https://example.com/missing'', Title = [], Description = [], Image = [],
      SiteName = [], Error = ''HTTP error: 404 404 Not Found''\<rparr>"
  by code_simp

text \<open>
  C10. A result with a non-empty error has empty title, description, image and site
  name: every path that sets the error returns before the extraction.
\<close>

theorem error_excludes_metadata:
  "Error (fst (FetchLinkPreview env u)) \<noteq> [] \<Longrightarrow>
   Title (fst (FetchLinkPreview env u)) = [] \<and>
   Description (fst (FetchLinkPreview env u)) = [] \<and>
   Image (fst (FetchLinkPreview env u)) = [] \<and>
   SiteName (fst (FetchLinkPreview env u)) = []"
  using FetchLinkPreview_shape[of env u]
  by (elim disjE exE) (simp_all add: emptyResponse_def Error_extractMetadata)

theorem error_excludes_metadata_witness:
  "Error (fst (FetchLinkPreview sampleEnv ''example.com/x'')) \<noteq> [] \<and>
   Title (fst (FetchLinkPreview sampleEnv ''example.com/x'')) = [] \<and>
   Description (fst (FetchLinkPreview sampleEnv ''example.com/x'')) = [] \<and>
   Image (fst (FetchLinkPreview sampleEnv ''example.com/x'')) = [] \<and>
   SiteName (fst (FetchLinkPreview sampleEnv ''example.com/x'')) = []"
proof -
  have e: "Error (fst (FetchLinkPreview sampleEnv ''example.com/x'')) =
      ''Failed to fetch URL: dial tcp: lookup failed: no such host''"
    by code_simp
  have n: "Error (fst (FetchLinkPreview sampleEnv ''example.com/x'')) \<noteq> []"
    unfolding e by simp
  show ?thesis using n error_excludes_metadata[OF n] by simp
qed

subsection \<open>The read ceiling\<close>

text \<open>
  C8. Of the body of a 200 response at most 1,048,576 bytes are read. A body longer than
  that is cut to its first 1,048,576 bytes, which go to the extractor; the error stays
  empty, and the result has no field that records the cut. A body that ends within the
  ceiling goes to the extractor in full.
\<close>

theorem body_read_ceiling:
  assumes "Parse u = Inr p" and "Scheme p \<noteq> []" and "clientDo env u = Inr resp"
    and "StatusCode resp = 200"
  shows
    "(\<forall>body. ReadAllLimit resp (1024 * 1024) = Inr body \<longrightarrow> length body \<le> 1048576) \<and>
     (1048576 < length (bodyData resp) \<longrightarrow>
        ReadAllLimit resp (1024 * 1024) = Inr (take 1048576 (bodyData resp)) \<and>
        FetchLinkPreview env u =
          (extractMetadata (mapRunes env) (take 1048576 (bodyData resp))
             (emptyResponse\<lparr>URL := u\<rparr>), [u]) \<and>
        Error (fst (FetchLinkPreview env u)) = []) \<and>
     (length (bodyData resp) \<le> 1048576 \<and> bodyError resp = None \<longrightarrow>
        ReadAllLimit resp (1024 * 1024) = Inr (bodyData resp) \<and>
        FetchLinkPreview env u =
          (extractMetadata (mapRunes env) (bodyData resp) (emptyResponse\<lparr>URL := u\<rparr>), [u]))"
proof -
  have echo: "echoURL u p = u"
    using assms(2) by (simp add: echoURL_def)
  have req: "NewRequestWithContext u = Inr p"
    using assms(1) by (simp add: NewRequestWithContext_def)
  have fetch: "FetchLinkPreview env u =
      (case ReadAllLimit resp (1024 * 1024) of
         Inl err \<Rightarrow>
           (emptyResponse\<lparr>URL := u, Error := ''Failed to read response body: '' @ err\<rparr>, [u])
       | Inr body \<Rightarrow> (extractMetadata (mapRunes env) body (emptyResponse\<lparr>URL := u\<rparr>), [u]))"
    unfolding FetchLinkPreview_Inr[OF assms(1)] echo
    by (simp add: req assms(3) assms(4))
  have bound: "\<forall>body. ReadAllLimit resp (1024 * 1024) = Inr body \<longrightarrow> length body \<le> 1048576"
    by (auto simp: ReadAllLimit_def split: if_splits option.splits)
  have long: "1048576 < length (bodyData resp) \<longrightarrow>
      ReadAllLimit resp (1024 * 1024) = Inr (take 1048576 (bodyData resp))"
    by (simp add: ReadAllLimit_def)
  have short: "length (bodyData resp) \<le> 1048576 \<and> bodyError resp = None \<longrightarrow>
      ReadAllLimit resp (1024 * 1024) = Inr (bodyData resp)"
    by (simp add: ReadAllLimit_def)
  have long2: "1048576 < length (bodyData resp) \<Longrightarrow>
      FetchLinkPreview env u =
          (extractMetadata (mapRunes env) (take 1048576 (bodyData resp))
             (emptyResponse\<lparr>URL := u\<rparr>), [u])"
    using long by (simp add: fetch)
  have long3: "1048576 < length (bodyData resp) \<Longrightarrow> Error (fst (FetchLinkPreview env u)) = []"
    using long2 by (simp add: Error_extractMetadata emptyResponse_def)
  have short2: "length (bodyData resp) \<le> 1048576 \<and> bodyError resp = None \<Longrightarrow>
      FetchLinkPreview env u =
          (extractMetadata (mapRunes env) (bodyData resp) (emptyResponse\<lparr>URL := u\<rparr>), [u])"
    using short by (simp add: fetch)
  show ?thesis
    using bound long long2 long3 short short2 by blast
qed

theorem body_read_ceiling_witness:
  "Parse ''https://example.com/big'' =
     Inr (emptyUrl\<lparr>Scheme := ''https'', Host := ''example.com'', Path := ''/big''\<rparr>) \<and>
   Scheme (emptyUrl\<lparr>Scheme := ''https'', Host := ''example.com'', Path := ''/big''\<rparr>) \<noteq> [] \<and>
   clientDo sampleEnv ''https://example.com/big'' =
     Inr \<lparr>StatusCode = 200, Status = ''200 OK'',
          bodyData = replicate (1024 * 1024) (CHR '' '') @ ''<title>Late</title>'',
          bodyError = Some ''unexpected EOF''\<rparr> \<and>
   1048576 < length (replicate (1024 * 1024) (CHR '' '') @ ''<title>Late</title>'') \<and>
   ReadAllLimit
     \<lparr>StatusCode = 200, Status = ''200 OK'',
      bodyData = replicate (1024 * 1024) (CHR '' '') @ ''<title>Late</title>'',
      bodyError = Some ''unexpected EOF''\<rparr> (1024 * 1024) =
     Inr (replicate 1048576 (CHR '' '')) \<and>
   length (replicate 1048576 (CHR '' '')) \<le> 1048576 \<and>
   FetchLinkPreview sampleEnv ''https://example.com/big'' =
     (extractMetadata (map lowerByte) (replicate 1048576 (CHR '' ''))
        (emptyResponse\<lparr>URL := ''https://example.com/big''\<rparr>), [''https://example.com/big'']) \<and>
   Error (fst (FetchLinkPreview sampleEnv ''https://example.com/big'')) = [] \<and>
   Parse ''https://example.com'' = Inr (emptyUrl\<lparr>Scheme := ''https'', Host := ''example.com''\<rparr>) \<and>
   clientDo sampleEnv ''https://example.com'' =
     Inr \<lparr>StatusCode = 200, Status = ''200 OK'', bodyData = ''<title>Example Domain</title>'',
          bodyError = None\<rparr> \<and>
   length ''<title>Example Domain</title>'' \<le> 1048576 \<and>
   FetchLinkPreview sampleEnv ''https://example.com'' =
     (\<lparr>URL = ''https://example.com'', Title = ''Example Domain'', Description = [], Image = [],
       SiteName = [], Error = []\<rparr>, [''https://example.com''])"
proof -
  let ?p = "emptyUrl\<lparr>Scheme := ''https'', Host := ''example.com'', Path := ''/big''\<rparr>"
  let ?resp = "\<lparr>StatusCode = 200, Status = ''200 OK'',
          bodyData = replicate (1024 * 1024) (CHR '' '') @ ''<title>Late</title>'',
          bodyError = Some ''unexpected EOF''\<rparr>"
  let ?p2 = "emptyUrl\<lparr>Scheme := ''https'', Host := ''example.com''\<rparr>"
  let ?resp2 = "\<lparr>StatusCode = 200, Status = ''200 OK'',
          bodyData = ''<title>Example Domain</title>'', bodyError = None\<rparr>"
  have p: "Parse ''https://example.com/big'' = Inr ?p"
    by code_simp
  have s: "Scheme ?p \<noteq> []"
    by simp
  have d: "clientDo sampleEnv ''https://example.com/big'' = Inr ?resp"
    by (simp add: sampleEnv_def sampleNetwork_def)
  have c: "StatusCode ?resp = 200"
    by simp
  have l: "1048576 < length (bodyData ?resp)"
    by simp
  have m: "mapRunes sampleEnv = map lowerByte"
    by (simp add: sampleEnv_def)
  have t: "take 1048576 (bodyData ?resp) = replicate 1048576 (CHR '' '')"
    by simp
  note big = body_read_ceiling[OF p s d c]
  from big l have "ReadAllLimit ?resp (1024 * 1024) = Inr (take 1048576 (bodyData ?resp))"
    by blast
  then have r1: "ReadAllLimit ?resp (1024 * 1024) = Inr (replicate 1048576 (CHR '' ''))"
    unfolding t .
  with big have r2: "length (replicate 1048576 (CHR '' '')) \<le> 1048576"
    by blast
  from big l
  have "FetchLinkPreview sampleEnv ''https://example.com/big'' =
     (extractMetadata (mapRunes sampleEnv) (take 1048576 (bodyData ?resp))
        (emptyResponse\<lparr>URL := ''https://example.com/big''\<rparr>), [''https://example.com/big'']) \<and>
     Error (fst (FetchLinkPreview sampleEnv ''https://example.com/big'')) = []"
    by blast
  then have r3: "FetchLinkPreview sampleEnv ''https://example.com/big'' =
     (extractMetadata (map lowerByte) (replicate 1048576 (CHR '' ''))
        (emptyResponse\<lparr>URL := ''https://example.com/big''\<rparr>), [''https://example.com/big'']) \<and>
     Error (fst (FetchLinkPreview sampleEnv ''https://example.com/big'')) = []"
    unfolding t m .
  have l1: "1048576 < length (replicate (1024 * 1024) (CHR '' '') @ ''<title>Late</title>'')"
    by simp
  have p2: "Parse ''https://example.com'' = Inr ?p2"
    by code_simp
  have s2: "Scheme ?p2 \<noteq> []"
    by simp
  have d2: "clientDo sampleEnv ''https://example.com'' = Inr ?resp2"
    by (simp add: sampleEnv_def sampleNetwork_def)
  have c2: "StatusCode ?resp2 = 200"
    by simp
  have l2: "length (bodyData ?resp2) \<le> 1048576 \<and> bodyError ?resp2 = None"
    by simp
  have e2: "extractMetadata (map lowerByte) ''<title>Example Domain</title>''
      (emptyResponse\<lparr>URL := ''https://example.com''\<rparr>) =
      \<lparr>URL = ''https://example.com'', Title = ''Example Domain'', Description = [], Image = [],
       SiteName = [], Error = []\<rparr>"
    by code_simp
  from body_read_ceiling[OF p2 s2 d2 c2] l2
  have "FetchLinkPreview sampleEnv ''https://example.com'' =
      (extractMetadata (mapRunes sampleEnv) (bodyData ?resp2)
         (emptyResponse\<lparr>URL := ''https://example.com''\<rparr>), [''https://example.com''])"
    by blast
  then have r4: "FetchLinkPreview sampleEnv ''https://example.com'' =
     (\<lparr>URL = ''https://example.com'', Title = ''Example Domain'', Description = [], Image = [],
       SiteName = [], Error = []\<rparr>, [''https://example.com''])"
    unfolding m by (simp add: e2)
  have l3: "length ''<title>Example Domain</title>'' \<le> 1048576"
    by simp
  show ?thesis
    using p s d l1 r1 r2 r3 p2 d2 l3 r4 by blast
qed

subsection \<open>Captures are pieces of the document\<close>

lemma caps_simps [simp]:
  "caps [] = 0"
  "caps (Lit l # r) = caps r"
  "caps (OneOf cs # r) = caps r"
  "caps (StarNot cs # r) = caps r"
  "caps (CapStarNot cs # r) = Suc (caps r)"
  by (simp_all add: caps_def)

lemma sublist_trans: "sublist xs ys \<Longrightarrow> sublist ys zs \<Longrightarrow> sublist xs zs"
proof -
  assume "sublist xs ys" and "sublist ys zs"
  then obtain p1 s1 p2 s2 where "ys = p1 @ xs @ s1" and "zs = p2 @ ys @ s2"
    by (auto simp: sublist_def)
  then have "zs = (p2 @ p1) @ xs @ (s1 @ s2)" by simp
  then show ?thesis unfolding sublist_def by blast
qed

lemma sublist_ConsI: "sublist xs ys \<Longrightarrow> sublist xs (y # ys)"
  by (simp add: sublist_Cons_right)

lemma sublist_of_drop: "sublist xs (drop n ys) \<Longrightarrow> sublist xs ys"
  by (rule sublist_trans[OF _ sublist_drop])

lemma suffix_trans: "suffix xs ys \<Longrightarrow> suffix ys zs \<Longrightarrow> suffix xs zs"
  by (auto simp: suffix_def)

lemma prefix_trans: "prefix xs ys \<Longrightarrow> prefix ys zs \<Longrightarrow> prefix xs zs"
  by (auto simp: prefix_def)

lemma match_here_capture:
  "match_here r s cap = Some m \<Longrightarrow>
   (caps r = 0 \<longrightarrow> m = cap) \<and>
   (caps r = 1 \<longrightarrow> (\<exists>x. m = cap @ x \<and> sublist x s \<and> (r \<noteq> [] \<and> isCap (hd r) \<longrightarrow> prefix x s)))"
proof (induction r s cap arbitrary: m rule: match_here.induct)
  case (1 s cap)
  then show ?case by simp
next
  case (2 l r s cap)
  then have p: "prefix l s" and m: "match_here r (drop (length l) s) cap = Some m"
    by (auto split: if_splits)
  from "2.IH"[OF p m] show ?case
    by (auto intro: sublist_of_drop)
next
  case (3 cs r s cap)
  then obtain c t where s: "s = c # t" and c: "c \<in> set cs" and m: "match_here r t cap = Some m"
    by (auto split: list.splits if_splits)
  from "3.IH"[OF s c m] show ?case
    by (auto simp: s intro: sublist_ConsI)
next
  case (4 cs r s cap)
  show ?case
  proof (cases s)
    case Nil
    with "4.prems" have "match_here r [] cap = Some m" by simp
    from "4.IH"(1)[OF Nil this] show ?thesis by (auto simp: Nil)
  next
    case (Cons c t)
    show ?thesis
    proof (cases "c \<in> set cs")
      case True
      with "4.prems" Cons have "match_here r s cap = Some m" by simp
      from "4.IH"(2)[OF Cons True this] show ?thesis by auto
    next
      case False
      show ?thesis
      proof (cases "match_here (StarNot cs # r) t cap")
        case None
        with "4.prems" Cons False have "match_here r s cap = Some m" by simp
        from "4.IH"(4)[OF Cons False None this] show ?thesis by auto
      next
        case (Some m')
        with "4.prems" Cons False have "m' = m" by simp
        with "4.IH"(3)[OF Cons False] Some show ?thesis
          by (auto simp: Cons intro: sublist_ConsI)
      qed
    qed
  qed
next
  case (5 cs r s cap)
  show ?case
  proof (cases s)
    case Nil
    with "5.prems" have "match_here r [] cap = Some m" by simp
    from "5.IH"(1)[OF Nil this] show ?thesis by (auto simp: Nil)
  next
    case (Cons c t)
    show ?thesis
    proof (cases "c \<in> set cs")
      case True
      with "5.prems" Cons have "match_here r s cap = Some m" by simp
      from "5.IH"(2)[OF Cons True this] show ?thesis by auto
    next
      case False
      show ?thesis
      proof (cases "match_here (CapStarNot cs # r) t (cap @ [c])")
        case None
        with "5.prems" Cons False have "match_here r s cap = Some m" by simp
        from "5.IH"(4)[OF Cons False None this] show ?thesis by auto
      next
        case (Some m')
        with "5.prems" Cons False have mm: "m' = m" by simp
        show ?thesis
        proof (intro conjI impI)
          assume "caps (CapStarNot cs # r) = 0" then show "m = cap" by simp
        next
          assume one: "caps (CapStarNot cs # r) = 1"
          with "5.IH"(3)[OF Cons False] Some mm
          obtain x where "m = (cap @ [c]) @ x" "prefix x t" by auto
          then have "m = cap @ (c # x)" "prefix (c # x) s" by (auto simp: Cons)
          then show "\<exists>x. m = cap @ x \<and> sublist x s \<and>
              (CapStarNot cs # r \<noteq> [] \<and> isCap (hd (CapStarNot cs # r)) \<longrightarrow> prefix x s)"
            by (blast intro: prefix_imp_sublist)
        qed
      qed
    qed
  qed
qed

lemma FindStringSubmatch_sublist:
  "caps re \<le> 1 \<Longrightarrow> FindStringSubmatch re s = Some m \<Longrightarrow> sublist m s"
proof (induction s)
  case Nil
  then have "match_here re [] [] = Some m"
    by (simp split: option.splits)
  from match_here_capture[OF this] Nil(1) show ?case
    by (cases "caps re = 0") auto
next
  case (Cons c t)
  show ?case
  proof (cases "match_here re (c # t) []")
    case None
    with Cons.prems have "FindStringSubmatch re t = Some m" by simp
    with Cons.IH Cons.prems(1) show ?thesis by (simp add: sublist_Cons_right)
  next
    case (Some m')
    with Cons.prems have "m' = m" by simp
    with match_here_capture[OF Some] Cons.prems(1) show ?thesis
      by (cases "caps re = 0") auto
  qed
qed

lemma extractTag_sublist: "caps p \<le> 1 \<Longrightarrow> sublist (extractTag html p) html"
  by (auto simp: extractTag_def split: option.splits intro: FindStringSubmatch_sublist)

lemma caps_patterns:
  "caps titlePattern = 1" "caps (pattern1 k) = 1" "caps (pattern2 k) = 1"
  "caps (pattern3 k) = 1" "caps (pattern4 k) = 1"
  by (simp_all add: titlePattern_def pattern1_def pattern2_def pattern3_def pattern4_def)

lemma extractMetaContent_sublist: "sublist (extractMetaContent html k) html"
  by (simp add: extractMetaContent_def Let_def extractTag_sublist caps_patterns)

lemma TrimLeft_suffix: "suffix (TrimLeft s) s"
proof (induction s rule: TrimLeft.induct)
  case (1 s)
  show ?case
  proof (cases "leadingSpace s = 0")
    case True
    then show ?thesis by (subst TrimLeft.simps) simp
  next
    case False
    from 1[OF False] have "suffix (TrimLeft (drop (leadingSpace s) s)) s"
      by (rule suffix_trans) (rule suffix_drop)
    with False show ?thesis by (subst TrimLeft.simps) simp
  qed
qed

lemma TrimRight_prefix: "prefix (TrimRight s) s"
proof (induction s rule: TrimRight.induct)
  case (1 s)
  show ?case
  proof (cases "trailingSpace s = 0")
    case True
    then show ?thesis by (subst TrimRight.simps) simp
  next
    case False
    from 1[OF False] have "prefix (TrimRight (take (length s - trailingSpace s) s)) s"
      by (rule prefix_trans) (rule take_is_prefix)
    with False show ?thesis by (subst TrimRight.simps) simp
  qed
qed

lemma TrimSpace_sublist: "sublist (TrimSpace s) s"
  unfolding TrimSpace_def
  by (rule sublist_trans[OF prefix_imp_sublist[OF TrimRight_prefix]
        suffix_imp_sublist[OF TrimLeft_suffix]])

lemma TrimSpace_extract_sublist:
  "sublist (TrimSpace (extractMetaContent html k)) html"
  by (rule sublist_trans[OF TrimSpace_sublist extractMetaContent_sublist])

lemma lowerByte_not_upper: "(of_char c :: nat) < 128 \<Longrightarrow> \<not> isUpperByte (lowerByte c)"
  by (auto simp: lowerByte_def isUpperByte_def)

lemma ToLower_ascii_no_upper:
  "isASCII s \<Longrightarrow> list_all (\<lambda>c. \<not> isUpperByte c) (ToLower U s)"
  by (auto simp: ToLower_def isASCII_def list_all_iff lowerByte_not_upper)

lemma sublist_list_all: "sublist xs ys \<Longrightarrow> list_all P ys \<Longrightarrow> list_all P xs"
  using set_mono_sublist[of xs ys] by (auto simp: list_all_iff)

lemma Description_cases:
  "Description (extractMetadata U html (emptyResponse\<lparr>URL := u\<rparr>)) = [] \<or>
   (\<exists>k. Description (extractMetadata U html (emptyResponse\<lparr>URL := u\<rparr>)) =
      TrimSpace (extractMetaContent (ToLower U html) k))"
  by (simp add: extractMetadata_def Let_def setTitle_def setDescription_def setImage_def
      setSiteName_def emptyResponse_def) blast

lemma Image_cases:
  "Image (extractMetadata U html (emptyResponse\<lparr>URL := u\<rparr>)) = [] \<or>
   (\<exists>k. Image (extractMetadata U html (emptyResponse\<lparr>URL := u\<rparr>)) =
      TrimSpace (extractMetaContent (ToLower U html) k))"
  by (simp add: extractMetadata_def Let_def setTitle_def setDescription_def setImage_def
      setSiteName_def emptyResponse_def) blast

lemma SiteName_cases:
  "SiteName (extractMetadata U html (emptyResponse\<lparr>URL := u\<rparr>)) = [] \<or>
   (\<exists>k. SiteName (extractMetadata U html (emptyResponse\<lparr>URL := u\<rparr>)) =
      TrimSpace (extractMetaContent (ToLower U html) k))"
  by (simp add: extractMetadata_def Let_def setTitle_def setDescription_def setImage_def
      setSiteName_def emptyResponse_def) blast

lemma Title_cases:
  "Title (extractMetadata U html (emptyResponse\<lparr>URL := u\<rparr>)) =
     (if extractMetaContent (ToLower U html) ''og:title'' \<noteq> []
      then TrimSpace (extractMetaContent (ToLower U html) ''og:title'')
      else if extractTag html titlePattern \<noteq> []
      then TrimSpace (extractTag html titlePattern) else [])"
  by (simp add: extractMetadata_def Let_def setTitle_def setDescription_def setImage_def
      setSiteName_def emptyResponse_def)

subsection \<open>The echoed URL\<close>

















subsection \<open>Inputs the parser rejects\<close>

lemma Parse_not_a_url:
  "Parse ''not a url'' = Inr (emptyUrl\<lparr>Path := ''not a url'', RawPath := ''not a url''\<rparr>)"
  by code_simp

lemma echoURL_not_a_url:
  "echoURL ''not a url'' (emptyUrl\<lparr>Path := ''not a url'', RawPath := ''not a url''\<rparr>) =
     ''https://not%20a%20url''"
  by code_simp

lemma NewRequest_not_a_url:
  "NewRequestWithContext ''https://not%20a%20url'' =
     Inl (''https://not%20a%20url'', EscapeError ''%20'')"
  by code_simp

text \<open>
  C5. When \<open>url.Parse\<close> rejects the input, the result is the input as url, the error
  \<open>Invalid URL format: \<close> followed by the text of the parse error, empty title,
  description, image and site name, and no request goes to the network. The input
  \<open>not a url\<close> is not such an input: it parses, as a relative path; its echoed url is
  \<open>https://not%20a%20url\<close>, and the error comes from building the request, again with
  empty metadata and without a request to the network.
\<close>

theorem invalid_url_result:
  "(Parse u = Inl e \<longrightarrow>
      FetchLinkPreview env u =
        (\<lparr>URL = u, Title = [], Description = [], Image = [], SiteName = [],
          Error = ''Invalid URL format: '' @ errorText env e\<rparr>, [])) \<and>
   FetchLinkPreview env ''not a url'' =
     (\<lparr>URL = ''https://not%20a%20url'', Title = [], Description = [], Image = [],
       SiteName = [],
       Error = ''Failed to create request: '' @
               errorText env (''https://not%20a%20url'', EscapeError ''%20'')\<rparr>, [])"
proof
  show "Parse u = Inl e \<longrightarrow>
      FetchLinkPreview env u =
        (\<lparr>URL = u, Title = [], Description = [], Image = [], SiteName = [],
          Error = ''Invalid URL format: '' @ errorText env e\<rparr>, [])"
    by (simp add: FetchLinkPreview_Inl emptyResponse_def)
  show "FetchLinkPreview env ''not a url'' =
     (\<lparr>URL = ''https://not%20a%20url'', Title = [], Description = [], Image = [],
       SiteName = [],
       Error = ''Failed to create request: '' @
               errorText env (''https://not%20a%20url'', EscapeError ''%20'')\<rparr>, [])"
    unfolding FetchLinkPreview_Inr[OF Parse_not_a_url] echoURL_not_a_url NewRequest_not_a_url
    by (simp add: emptyResponse_def)
qed

theorem invalid_url_result_witness:
  "Parse ''http://exa mple.com'' = Inl (''http://exa mple.com'', InvalidHostError '' '') \<and>
   FetchLinkPreview sampleEnv ''http://exa mple.com'' =
     (\<lparr>URL = ''http://exa mple.com'', Title = [], Description = [], Image = [],
       SiteName = [],
       Error = ''Invalid URL format: '' @
               sampleErrorText (''http://exa mple.com'', InvalidHostError '' '')\<rparr>, [])"
proof -
  have p: "Parse ''http://exa mple.com'' = Inl (''http://exa mple.com'', InvalidHostError '' '')"
    by code_simp
  have e: "errorText sampleEnv = sampleErrorText"
    by (simp add: sampleEnv_def)
  from invalid_url_result[of "''http://exa mple.com''"
      "(''http://exa mple.com'', InvalidHostError '' '')" sampleEnv] p
  show ?thesis unfolding e by blast
qed

text \<open>
  The parser accepts \<open>not a url\<close>; the error of the result is the one of the request
  constructor, and the echoed url is the escaped one.
\<close>

theorem not_a_url_is_not_rejected:
  \<open>Parse ''not a url'' = Inr (emptyUrl\<lparr>Path := ''not a url'', RawPath := ''not a url''\<rparr>) \<and>
   FetchLinkPreview sampleEnv ''not a url'' =
     (\<lparr>URL = ''https://not%20a%20url'', Title = [], Description = [], Image = [],
       SiteName = [],
       Error = ''Failed to create request: parse "https://not%20a%20url": invalid URL escape "%20"''\<rparr>,
      []) \<and>
   URL (fst (FetchLinkPreview sampleEnv ''not a url'')) \<noteq> ''not a url'' \<and>
   \<not> prefix ''Invalid URL format: '' (Error (fst (FetchLinkPreview sampleEnv ''not a url'')))\<close>
  by code_simp

subsection \<open>Which match is used\<close>

lemma FindStringSubmatch_leftmost:
  "FindStringSubmatch re s = Some c \<Longrightarrow>
   \<exists>i\<le>length s. match_here re (drop i s) [] = Some c \<and>
     (\<forall>j<i. match_here re (drop j s) [] = None)"
proof (induction s)
  case Nil
  then have "match_here re [] [] = Some c"
    by (simp split: option.splits)
  then show ?case by simp
next
  case (Cons a t)
  show ?case
  proof (cases "match_here re (a # t) []")
    case (Some c')
    with Cons.prems have "c' = c" by simp
    with Some have "match_here re (drop 0 (a # t)) [] = Some c" by simp
    then show ?thesis by blast
  next
    case None
    with Cons.prems have "FindStringSubmatch re t = Some c" by simp
    from Cons.IH[OF this] obtain i where i: "i \<le> length t"
      "match_here re (drop i t) [] = Some c" "\<forall>j<i. match_here re (drop j t) [] = None"
      by blast
    have "\<forall>j<Suc i. match_here re (drop j (a # t)) [] = None"
    proof (intro allI impI)
      fix j assume "j < Suc i"
      then show "match_here re (drop j (a # t)) [] = None"
        using None i(3) by (cases j) auto
    qed
    with i(1,2) show ?thesis
      by (intro exI[of _ "Suc i"]) simp
  qed
qed

subsection \<open>What a match looks like\<close>

lemma match_Lit_D:
  "match_here (Lit l # r) s cap = Some m \<Longrightarrow> \<exists>x. s = l @ x \<and> match_here r x cap = Some m"
  by (auto simp: prefix_def split: if_splits)

lemma match_OneOf_D:
  "match_here (OneOf cs # r) s cap = Some m \<Longrightarrow>
   \<exists>q x. s = q # x \<and> q \<in> set cs \<and> match_here r x cap = Some m"
  by (cases s) (auto split: if_splits)

lemma match_StarNot_D:
  "match_here (StarNot cs # r) s cap = Some m \<Longrightarrow>
   \<exists>a x. s = a @ x \<and> set a \<inter> set cs = {} \<and> match_here r x cap = Some m"
proof (induction s)
  case Nil
  then have "match_here r [] cap = Some m" by simp
  then show ?case by (intro exI[of _ "[]"] exI[of _ "[]"]) simp
next
  case (Cons c t)
  show ?case
  proof (cases "c \<in> set cs")
    case True
    with Cons.prems have "match_here r (c # t) cap = Some m" by simp
    then show ?thesis by (intro exI[of _ "[]"] exI[of _ "c # t"]) simp
  next
    case False
    show ?thesis
    proof (cases "match_here (StarNot cs # r) t cap")
      case None
      with Cons.prems False have "match_here r (c # t) cap = Some m" by simp
      then show ?thesis by (intro exI[of _ "[]"] exI[of _ "c # t"]) simp
    next
      case (Some m')
      with Cons.prems False have "m' = m" by simp
      with Some Cons.IH obtain a x where
        "t = a @ x" "set a \<inter> set cs = {}" "match_here r x cap = Some m"
        by blast
      with False show ?thesis
        by (intro exI[of _ "c # a"] exI[of _ x]) simp
    qed
  qed
qed

lemma match_CapStarNot_D:
  "match_here (CapStarNot cs # r) s cap = Some m \<Longrightarrow>
   \<exists>a x. s = a @ x \<and> set a \<inter> set cs = {} \<and> match_here r x (cap @ a) = Some m"
proof (induction s arbitrary: cap)
  case Nil
  then have "match_here r [] cap = Some m" by simp
  then show ?case by (intro exI[of _ "[]"] exI[of _ "[]"]) simp
next
  case (Cons c t)
  show ?case
  proof (cases "c \<in> set cs")
    case True
    with Cons.prems have "match_here r (c # t) cap = Some m" by simp
    then show ?thesis by (intro exI[of _ "[]"] exI[of _ "c # t"]) simp
  next
    case False
    show ?thesis
    proof (cases "match_here (CapStarNot cs # r) t (cap @ [c])")
      case None
      with Cons.prems False have "match_here r (c # t) cap = Some m" by simp
      then show ?thesis by (intro exI[of _ "[]"] exI[of _ "c # t"]) simp
    next
      case (Some m')
      with Cons.prems False have "m' = m" by simp
      with Some Cons.IH[of "cap @ [c]"] obtain a x where
        "t = a @ x" "set a \<inter> set cs = {}" "match_here r x ((cap @ [c]) @ a) = Some m"
        by blast
      with False show ?thesis
        by (intro exI[of _ "c # a"] exI[of _ x]) simp
    qed
  qed
qed

lemma marker_first_shape:
  assumes "match_here
      [Lit ''<meta'', StarNot ''>'', Lit marker, OneOf quotes, Lit key, OneOf quotes,
       StarNot ''>'', Lit ''content='', OneOf quotes, CapStarNot quotes, OneOf quotes] s [] =
      Some m"
  shows "markerFirst marker key m s"
proof -
  from match_Lit_D[OF assms] obtain x1 where
    s: "s = ''<meta'' @ x1" and
    m1: "match_here [StarNot ''>'', Lit marker, OneOf quotes, Lit key, OneOf quotes,
       StarNot ''>'', Lit ''content='', OneOf quotes, CapStarNot quotes, OneOf quotes] x1 [] =
       Some m"
    by blast
  from match_StarNot_D[OF m1] obtain a x2 where
    x1: "x1 = a @ x2" and a: "set a \<inter> set ''>'' = {}" and
    m2: "match_here [Lit marker, OneOf quotes, Lit key, OneOf quotes,
       StarNot ''>'', Lit ''content='', OneOf quotes, CapStarNot quotes, OneOf quotes] x2 [] =
       Some m"
    by blast
  from match_Lit_D[OF m2] obtain x3 where
    x2: "x2 = marker @ x3" and
    m3: "match_here [OneOf quotes, Lit key, OneOf quotes,
       StarNot ''>'', Lit ''content='', OneOf quotes, CapStarNot quotes, OneOf quotes] x3 [] =
       Some m"
    by blast
  from match_OneOf_D[OF m3] obtain q1 x4 where
    x3: "x3 = q1 # x4" and q1: "q1 \<in> set quotes" and
    m4: "match_here [Lit key, OneOf quotes,
       StarNot ''>'', Lit ''content='', OneOf quotes, CapStarNot quotes, OneOf quotes] x4 [] =
       Some m"
    by blast
  from match_Lit_D[OF m4] obtain x5 where
    x4: "x4 = key @ x5" and
    m5: "match_here [OneOf quotes,
       StarNot ''>'', Lit ''content='', OneOf quotes, CapStarNot quotes, OneOf quotes] x5 [] =
       Some m"
    by blast
  from match_OneOf_D[OF m5] obtain q2 x6 where
    x5: "x5 = q2 # x6" and q2: "q2 \<in> set quotes" and
    m6: "match_here [StarNot ''>'', Lit ''content='', OneOf quotes, CapStarNot quotes,
       OneOf quotes] x6 [] = Some m"
    by blast
  from match_StarNot_D[OF m6] obtain b x7 where
    x6: "x6 = b @ x7" and b: "set b \<inter> set ''>'' = {}" and
    m7: "match_here [Lit ''content='', OneOf quotes, CapStarNot quotes, OneOf quotes] x7 [] =
       Some m"
    by blast
  from match_Lit_D[OF m7] obtain x8 where
    x7: "x7 = ''content='' @ x8" and
    m8: "match_here [OneOf quotes, CapStarNot quotes, OneOf quotes] x8 [] = Some m"
    by blast
  from match_OneOf_D[OF m8] obtain q3 x9 where
    x8: "x8 = q3 # x9" and q3: "q3 \<in> set quotes" and
    m9: "match_here [CapStarNot quotes, OneOf quotes] x9 [] = Some m"
    by blast
  from match_CapStarNot_D[OF m9] obtain v x10 where
    x9: "x9 = v @ x10" and v: "set v \<inter> set quotes = {}" and
    m10: "match_here [OneOf quotes] x10 ([] @ v) = Some m"
    by blast
  from match_OneOf_D[OF m10] obtain q4 rest where
    x10: "x10 = q4 # rest" and q4: "q4 \<in> set quotes" and
    m11: "match_here [] rest ([] @ v) = Some m"
    by blast
  from m11 have mv: "m = v" by simp
  have "s = ''<meta'' @ a @ marker @ q1 # key @ q2 # b @ ''content='' @ q3 # m @ q4 # rest"
    unfolding s x1 x2 x3 x4 x5 x6 x7 x8 x9 x10 mv by simp
  moreover have "CHR ''>'' \<notin> set a" "CHR ''>'' \<notin> set b"
    using a b by auto
  ultimately show ?thesis
    unfolding markerFirst_def using v q1 q2 q3 q4 mv by blast
qed

lemma content_first_shape:
  assumes "match_here
      [Lit ''<meta'', StarNot ''>'', Lit ''content='', OneOf quotes, CapStarNot quotes,
       OneOf quotes, StarNot ''>'', Lit marker, OneOf quotes, Lit key, OneOf quotes] s [] =
      Some m"
  shows "contentFirst marker key m s"
proof -
  from match_Lit_D[OF assms] obtain x1 where
    s: "s = ''<meta'' @ x1" and
    m1: "match_here [StarNot ''>'', Lit ''content='', OneOf quotes, CapStarNot quotes,
       OneOf quotes, StarNot ''>'', Lit marker, OneOf quotes, Lit key, OneOf quotes] x1 [] =
       Some m"
    by blast
  from match_StarNot_D[OF m1] obtain a x2 where
    x1: "x1 = a @ x2" and a: "set a \<inter> set ''>'' = {}" and
    m2: "match_here [Lit ''content='', OneOf quotes, CapStarNot quotes,
       OneOf quotes, StarNot ''>'', Lit marker, OneOf quotes, Lit key, OneOf quotes] x2 [] =
       Some m"
    by blast
  from match_Lit_D[OF m2] obtain x3 where
    x2: "x2 = ''content='' @ x3" and
    m3: "match_here [OneOf quotes, CapStarNot quotes,
       OneOf quotes, StarNot ''>'', Lit marker, OneOf quotes, Lit key, OneOf quotes] x3 [] =
       Some m"
    by blast
  from match_OneOf_D[OF m3] obtain q3 x4 where
    x3: "x3 = q3 # x4" and q3: "q3 \<in> set quotes" and
    m4: "match_here [CapStarNot quotes,
       OneOf quotes, StarNot ''>'', Lit marker, OneOf quotes, Lit key, OneOf quotes] x4 [] =
       Some m"
    by blast
  from match_CapStarNot_D[OF m4] obtain v x5 where
    x4: "x4 = v @ x5" and v: "set v \<inter> set quotes = {}" and
    m5: "match_here [OneOf quotes, StarNot ''>'', Lit marker, OneOf quotes, Lit key,
       OneOf quotes] x5 ([] @ v) = Some m"
    by blast
  from match_OneOf_D[OF m5] obtain q4 x6 where
    x5: "x5 = q4 # x6" and q4: "q4 \<in> set quotes" and
    m6: "match_here [StarNot ''>'', Lit marker, OneOf quotes, Lit key, OneOf quotes] x6
       ([] @ v) = Some m"
    by blast
  from match_StarNot_D[OF m6] obtain b x7 where
    x6: "x6 = b @ x7" and b: "set b \<inter> set ''>'' = {}" and
    m7: "match_here [Lit marker, OneOf quotes, Lit key, OneOf quotes] x7 ([] @ v) = Some m"
    by blast
  from match_Lit_D[OF m7] obtain x8 where
    x7: "x7 = marker @ x8" and
    m8: "match_here [OneOf quotes, Lit key, OneOf quotes] x8 ([] @ v) = Some m"
    by blast
  from match_OneOf_D[OF m8] obtain q1 x9 where
    x8: "x8 = q1 # x9" and q1: "q1 \<in> set quotes" and
    m9: "match_here [Lit key, OneOf quotes] x9 ([] @ v) = Some m"
    by blast
  from match_Lit_D[OF m9] obtain x10 where
    x9: "x9 = key @ x10" and
    m10: "match_here [OneOf quotes] x10 ([] @ v) = Some m"
    by blast
  from match_OneOf_D[OF m10] obtain q2 rest where
    x10: "x10 = q2 # rest" and q2: "q2 \<in> set quotes" and
    m11: "match_here [] rest ([] @ v) = Some m"
    by blast
  from m11 have mv: "m = v" by simp
  have "s = ''<meta'' @ a @ ''content='' @ q3 # m @ q4 # b @ marker @ q1 # key @ q2 # rest"
    unfolding s x1 x2 x3 x4 x5 x6 x7 x8 x9 x10 mv by simp
  moreover have "CHR ''>'' \<notin> set a" "CHR ''>'' \<notin> set b"
    using a b by auto
  ultimately show ?thesis
    unfolding contentFirst_def using v q1 q2 q3 q4 mv by blast
qed

lemma title_shape:
  assumes "match_here titlePattern s [] = Some m"
  shows "\<exists>a rest. s = ''<title'' @ a @ ''>'' @ m @ ''</title>'' @ rest \<and>
           CHR ''>'' \<notin> set a \<and> CHR ''<'' \<notin> set m"
proof -
  from assms have m0: "match_here
      [Lit ''<title'', StarNot ''>'', Lit ''>'', CapStarNot ''<'', Lit ''</title>''] s [] = Some m"
    by (simp only: titlePattern_def)
  from match_Lit_D[OF m0] obtain x1 where
    s: "s = ''<title'' @ x1" and
    m1: "match_here [StarNot ''>'', Lit ''>'', CapStarNot ''<'', Lit ''</title>''] x1 [] = Some m"
    by blast
  from match_StarNot_D[OF m1] obtain a x2 where
    x1: "x1 = a @ x2" and a: "set a \<inter> set ''>'' = {}" and
    m2: "match_here [Lit ''>'', CapStarNot ''<'', Lit ''</title>''] x2 [] = Some m"
    by blast
  from match_Lit_D[OF m2] obtain x3 where
    x2: "x2 = ''>'' @ x3" and
    m3: "match_here [CapStarNot ''<'', Lit ''</title>''] x3 [] = Some m"
    by blast
  from match_CapStarNot_D[OF m3] obtain v x4 where
    x3: "x3 = v @ x4" and v: "set v \<inter> set ''<'' = {}" and
    m4: "match_here [Lit ''</title>''] x4 ([] @ v) = Some m"
    by blast
  from match_Lit_D[OF m4] obtain rest where
    x4: "x4 = ''</title>'' @ rest" and
    m5: "match_here [] rest ([] @ v) = Some m"
    by blast
  from m5 have mv: "m = v" by simp
  have "s = ''<title'' @ a @ ''>'' @ m @ ''</title>'' @ rest"
    unfolding s x1 x2 x3 x4 mv by simp
  moreover have "CHR ''>'' \<notin> set a" "CHR ''<'' \<notin> set m"
    using a v mv by auto
  ultimately show ?thesis by blast
qed

lemma FindStringSubmatch_at:
  "FindStringSubmatch re s = Some m \<Longrightarrow> \<exists>pre t. s = pre @ t \<and> match_here re t [] = Some m"
proof -
  assume "FindStringSubmatch re s = Some m"
  from FindStringSubmatch_leftmost[OF this] obtain i where
    "match_here re (drop i s) [] = Some m" by blast
  moreover have "s = take i s @ drop i s" by simp
  ultimately show ?thesis by blast
qed

lemma extractTag_at:
  "extractTag s re \<noteq> [] \<Longrightarrow>
   \<exists>pre t. s = pre @ t \<and> match_here re t [] = Some (extractTag s re)"
proof -
  assume "extractTag s re \<noteq> []"
  then have "FindStringSubmatch re s = Some (extractTag s re)"
    by (auto simp: extractTag_def split: option.splits)
  then show ?thesis by (rule FindStringSubmatch_at)
qed

lemma extractTag_title_shape:
  "extractTag html titlePattern \<noteq> [] \<Longrightarrow> titleElementOf html (extractTag html titlePattern)"
proof -
  assume "extractTag html titlePattern \<noteq> []"
  from extractTag_at[OF this] obtain pre t where
    h: "html = pre @ t" and m: "match_here titlePattern t [] = Some (extractTag html titlePattern)"
    by blast
  from title_shape[OF m] h show ?thesis
    unfolding titleElementOf_def by blast
qed

lemma extractTag_pattern_shapes:
  "extractTag doc (pattern1 key) \<noteq> [] \<Longrightarrow>
     \<exists>pre s. doc = pre @ s \<and> markerFirst ''name='' key (extractTag doc (pattern1 key)) s"
  "extractTag doc (pattern2 key) \<noteq> [] \<Longrightarrow>
     \<exists>pre s. doc = pre @ s \<and> markerFirst ''property='' key (extractTag doc (pattern2 key)) s"
  "extractTag doc (pattern3 key) \<noteq> [] \<Longrightarrow>
     \<exists>pre s. doc = pre @ s \<and> contentFirst ''name='' key (extractTag doc (pattern3 key)) s"
  "extractTag doc (pattern4 key) \<noteq> [] \<Longrightarrow>
     \<exists>pre s. doc = pre @ s \<and> contentFirst ''property='' key (extractTag doc (pattern4 key)) s"
proof -
  show "\<exists>pre s. doc = pre @ s \<and> markerFirst ''name='' key (extractTag doc (pattern1 key)) s"
    if "extractTag doc (pattern1 key) \<noteq> []"
    using extractTag_at[OF that] marker_first_shape[of "''name=''" key]
    unfolding pattern1_def by blast
  show "\<exists>pre s. doc = pre @ s \<and> markerFirst ''property='' key (extractTag doc (pattern2 key)) s"
    if "extractTag doc (pattern2 key) \<noteq> []"
    using extractTag_at[OF that] marker_first_shape[of "''property=''" key]
    unfolding pattern2_def by blast
  show "\<exists>pre s. doc = pre @ s \<and> contentFirst ''name='' key (extractTag doc (pattern3 key)) s"
    if "extractTag doc (pattern3 key) \<noteq> []"
    using extractTag_at[OF that] content_first_shape[of "''name=''" key]
    unfolding pattern3_def by blast
  show "\<exists>pre s. doc = pre @ s \<and> contentFirst ''property='' key (extractTag doc (pattern4 key)) s"
    if "extractTag doc (pattern4 key) \<noteq> []"
    using extractTag_at[OF that] content_first_shape[of "''property=''" key]
    unfolding pattern4_def by blast
qed

lemma extractMetaContent_shape:
  assumes "extractMetaContent doc key \<noteq> []"
  shows "metaTagFor doc key (extractMetaContent doc key)"
proof -
  let ?e1 = "extractTag doc (pattern1 key)" and ?e2 = "extractTag doc (pattern2 key)"
  let ?e3 = "extractTag doc (pattern3 key)" and ?e4 = "extractTag doc (pattern4 key)"
  have e: "extractMetaContent doc key =
      (if ?e1 \<noteq> [] then ?e1 else if ?e2 \<noteq> [] then ?e2 else if ?e3 \<noteq> [] then ?e3 else ?e4)"
    by (simp add: extractMetaContent_def Let_def)
  consider "?e1 \<noteq> []" "extractMetaContent doc key = ?e1"
    | "?e2 \<noteq> []" "extractMetaContent doc key = ?e2"
    | "?e3 \<noteq> []" "extractMetaContent doc key = ?e3"
    | "?e4 \<noteq> []" "extractMetaContent doc key = ?e4"
    using assms e by (auto split: if_splits)
  then show ?thesis
  proof cases
    case 1
    with extractTag_pattern_shapes(1)[OF 1(1)] show ?thesis
      unfolding metaTagFor_def by auto
  next
    case 2
    with extractTag_pattern_shapes(2)[OF 2(1)] show ?thesis
      unfolding metaTagFor_def by auto
  next
    case 3
    with extractTag_pattern_shapes(3)[OF 3(1)] show ?thesis
      unfolding metaTagFor_def by auto
  next
    case 4
    with extractTag_pattern_shapes(4)[OF 4(1)] show ?thesis
      unfolding metaTagFor_def by auto
  qed
qed

lemma sublist_mid: "sublist k (a @ k @ b)"
  unfolding sublist_def by blast

lemma markerFirst_key: "markerFirst marker key v s \<Longrightarrow> \<exists>q\<in>set quotes. sublist (marker @ q # key) s"
proof -
  assume "markerFirst marker key v s"
  then obtain a q1 q2 b q3 q4 rest where
    s: "s = ''<meta'' @ a @ marker @ q1 # key @ q2 # b @ ''content='' @ q3 # v @ q4 # rest"
    and q: "q1 \<in> set quotes"
    unfolding markerFirst_def by blast
  have "s = (''<meta'' @ a) @ (marker @ q1 # key) @ (q2 # b @ ''content='' @ q3 # v @ q4 # rest)"
    unfolding s by simp
  then have "sublist (marker @ q1 # key) s"
    using sublist_mid by metis
  with q show ?thesis by blast
qed

lemma contentFirst_key: "contentFirst marker key v s \<Longrightarrow> \<exists>q\<in>set quotes. sublist (marker @ q # key) s"
proof -
  assume "contentFirst marker key v s"
  then obtain a q1 q2 b q3 q4 rest where
    s: "s = ''<meta'' @ a @ ''content='' @ q3 # v @ q4 # b @ marker @ q1 # key @ q2 # rest"
    and q: "q1 \<in> set quotes"
    unfolding contentFirst_def by blast
  have "s = (''<meta'' @ a @ ''content='' @ q3 # v @ q4 # b) @ (marker @ q1 # key) @ (q2 # rest)"
    unfolding s by simp
  then have "sublist (marker @ q1 # key) s"
    using sublist_mid by metis
  with q show ?thesis by blast
qed

lemma sublist_app_left: "sublist x s \<Longrightarrow> sublist x (pre @ s)"
  by (erule sublist_trans) (rule sublist_append_leftI)

lemma sublist_tail_part: "sublist (m @ k) s \<Longrightarrow> sublist k s"
  by (rule sublist_trans[OF sublist_append_leftI])

lemma metaTagFor_key: "metaTagFor doc key v \<Longrightarrow> sublist key doc"
proof -
  assume "metaTagFor doc key v"
  then obtain pre s where d: "doc = pre @ s" and
    c: "markerFirst ''name='' key v s \<or> markerFirst ''property='' key v s \<or>
        contentFirst ''name='' key v s \<or> contentFirst ''property='' key v s"
    unfolding metaTagFor_def by blast
  from c obtain marker q where "sublist (marker @ q # key) s"
    using markerFirst_key contentFirst_key by blast
  then have "sublist ((marker @ [q]) @ key) s" by simp
  then have "sublist key s" by (rule sublist_tail_part)
  then show ?thesis unfolding d by (rule sublist_app_left)
qed

lemma key_absent:
  "\<not> sublist key doc \<Longrightarrow> extractMetaContent doc key = []"
  using extractMetaContent_shape[of doc key] metaTagFor_key[of doc key] by blast

lemma marked_iff: "marked marker key doc \<longleftrightarrow> (\<exists>q\<in>set quotes. sublist (marker @ q # key) doc)"
  by (auto simp: marked_def quotes_def)

lemma name_marker_absent:
  assumes "\<not> marked ''name='' key doc"
  shows "extractTag doc (pattern1 key) = []"
proof (rule ccontr)
  assume "extractTag doc (pattern1 key) \<noteq> []"
  from extractTag_pattern_shapes(1)[OF this] obtain pre s where
    d: "doc = pre @ s" and m: "markerFirst ''name='' key (extractTag doc (pattern1 key)) s"
    by blast
  from markerFirst_key[OF m] obtain q where q: "q \<in> set quotes"
    and s: "sublist (''name='' @ q # key) s" by blast
  from s have "sublist (''name='' @ q # key) doc"
    unfolding d by (rule sublist_app_left)
  with q assms show False
    unfolding marked_iff by blast
qed

lemma tagsClosed_has_gt: "tagsClosed (CHR ''<'' # t) \<Longrightarrow> CHR ''>'' \<in> set t"
  by simp

lemma tagsClosed_tl: "tagsClosed (c # t) \<Longrightarrow> tagsClosed t"
  by (simp split: if_splits)

lemma match_in_closed:
  assumes m: "match_here (Lit ''<meta'' # StarNot ''>'' # Lit marker # OneOf quotes # Lit key # r)
      (d @ x) [] = Some v"
    and d: "d \<noteq> []" "tagsClosed d"
    and n: "CHR ''>'' \<notin> set marker" "CHR ''>'' \<notin> set key"
  shows "marked marker key d"
proof -
  from match_Lit_D[OF m] obtain x1 where
    s: "d @ x = ''<meta'' @ x1" and
    m1: "match_here (StarNot ''>'' # Lit marker # OneOf quotes # Lit key # r) x1 [] = Some v"
    by blast
  from match_StarNot_D[OF m1] obtain a x2 where
    x1: "x1 = a @ x2" and a: "set a \<inter> set ''>'' = {}" and
    m2: "match_here (Lit marker # OneOf quotes # Lit key # r) x2 [] = Some v"
    by blast
  from match_Lit_D[OF m2] obtain x3 where
    x2: "x2 = marker @ x3" and
    m3: "match_here (OneOf quotes # Lit key # r) x3 [] = Some v"
    by blast
  from match_OneOf_D[OF m3] obtain q x4 where
    x3: "x3 = q # x4" and q: "q \<in> set quotes" and
    m4: "match_here (Lit key # r) x4 [] = Some v"
    by blast
  from match_Lit_D[OF m4] obtain x5 where
    x4: "x4 = key @ x5"
    by blast
  define W where "W = ''<meta'' @ a @ marker @ q # key"
  have dx: "d @ x = W @ x5"
    unfolding s x1 x2 x3 x4 W_def by simp
  have q': "q \<noteq> CHR ''>''"
    using q by (auto simp: quotes_def dquote_def squote_def)
  have w: "CHR ''>'' \<notin> set W"
    using a n q' unfolding W_def by auto
  have "hd (d @ x) = CHR ''<''"
    unfolding s by simp
  with d(1) obtain t where dt: "d = CHR ''<'' # t"
    by (cases d) auto
  with d(2) have g: "CHR ''>'' \<in> set d"
    by simp
  from dx consider u where "d = W @ u" | u where "d @ u = W"
    by (auto simp: append_eq_append_conv2)
  then have "\<exists>u. d = W @ u"
  proof cases
    case 1
    then show ?thesis by blast
  next
    case 2
    then have "set d \<subseteq> set W"
      by (metis set_append Un_upper1)
    with g w show ?thesis by blast
  qed
  then obtain u where "d = (''<meta'' @ a) @ (marker @ q # key) @ u"
    unfolding W_def by auto
  then have "sublist (marker @ q # key) d"
    unfolding sublist_def by blast
  with q show ?thesis
    unfolding marked_iff by blast
qed

lemma marked_tl: "marked marker key t \<Longrightarrow> marked marker key (c # t)"
  by (auto simp: marked_def sublist_Cons_right)

lemma FSS_skip_closed:
  assumes "CHR ''>'' \<notin> set marker" "CHR ''>'' \<notin> set key"
  shows "tagsClosed pre \<Longrightarrow> \<not> marked marker key pre \<Longrightarrow>
    FindStringSubmatch (Lit ''<meta'' # StarNot ''>'' # Lit marker # OneOf quotes # Lit key # r)
      (pre @ x) =
    FindStringSubmatch (Lit ''<meta'' # StarNot ''>'' # Lit marker # OneOf quotes # Lit key # r) x"
proof (induction pre)
  case Nil
  then show ?case by simp
next
  case (Cons c t)
  let ?re = "Lit ''<meta'' # StarNot ''>'' # Lit marker # OneOf quotes # Lit key # r"
  have "match_here ?re ((c # t) @ x) [] = None"
  proof (cases "match_here ?re ((c # t) @ x) []")
    case None
    then show ?thesis .
  next
    case (Some v)
    from match_in_closed[OF Some _ Cons.prems(1) assms] Cons.prems(2) show ?thesis
      by simp
  qed
  moreover have "tagsClosed t" "\<not> marked marker key t"
    using Cons.prems tagsClosed_tl marked_tl by blast+
  ultimately show ?case
    using Cons.IH by simp
qed

lemma title_needs_lower_case: "\<not> sublist ''<title'' html \<Longrightarrow> extractTag html titlePattern = []"
proof (rule ccontr)
  assume n: "\<not> sublist ''<title'' html" and "extractTag html titlePattern \<noteq> []"
  from extractTag_title_shape[OF this(2)] obtain pre a rest where
    "html = pre @ ''<title'' @ a @ ''>'' @ extractTag html titlePattern @ ''</title>'' @ rest"
    unfolding titleElementOf_def by blast
  then have "sublist ''<title'' html"
    unfolding sublist_def by blast
  with n show False by simp
qed

subsection \<open>Matching a tag piece by piece\<close>

declare FindStringSubmatch.simps [simp del]

lemma match_StarNot_Nil: "match_here (StarNot cs # r) [] cap = match_here r [] cap"
  by simp

lemma match_StarNot_Cons:
  "match_here (StarNot cs # r) (c # t) cap =
     (if c \<in> set cs then match_here r (c # t) cap
      else (case match_here (StarNot cs # r) t cap of
              Some m \<Rightarrow> Some m
            | None \<Rightarrow> match_here r (c # t) cap))"
  by simp

lemma match_CapStarNot_Nil: "match_here (CapStarNot cs # r) [] cap = match_here r [] cap"
  by simp

lemma match_CapStarNot_Cons:
  "match_here (CapStarNot cs # r) (c # t) cap =
     (if c \<in> set cs then match_here r (c # t) cap
      else (case match_here (CapStarNot cs # r) t (cap @ [c]) of
              Some m \<Rightarrow> Some m
            | None \<Rightarrow> match_here r (c # t) cap))"
  by simp

lemma match_OneOf_Nil: "match_here (OneOf cs # r) [] cap = None"
  by simp

lemma match_OneOf_Cons:
  "match_here (OneOf cs # r) (c # t) cap = (if c \<in> set cs then match_here r t cap else None)"
  by simp

lemma match_Lit_Nil: "match_here (Lit [] # r) s cap = match_here r s cap"
  by simp

lemma match_Lit_Cons_Nil: "match_here (Lit (a # l) # r) [] cap = None"
  by simp

lemma match_Lit_Cons_Cons:
  "match_here (Lit (a # l) # r) (c # t) cap =
     (if a = c then match_here (Lit l # r) t cap else None)"
  by simp

lemma match_Lit_append: "match_here (Lit l # r) (l @ s) cap = match_here r s cap"
  by simp

lemmas match_simps =
  match_here.simps(1) match_Lit_Nil match_Lit_Cons_Nil match_Lit_Cons_Cons match_Lit_append
  match_StarNot_Nil match_StarNot_Cons match_CapStarNot_Nil
  match_CapStarNot_Cons match_OneOf_Nil match_OneOf_Cons

declare match_here.simps [simp del]
declare match_simps [simp]

lemma FSS_Nil: "FindStringSubmatch re [] = match_here re [] []"
  by (simp add: FindStringSubmatch.simps split: option.split)

lemma FSS_Cons:
  "FindStringSubmatch re (c # t) =
     (case match_here re (c # t) [] of Some cap \<Rightarrow> Some cap | None \<Rightarrow> FindStringSubmatch re t)"
  by (subst FindStringSubmatch.simps) (simp split: option.split)

lemma FSS_skip_char:
  "a \<noteq> b \<Longrightarrow> FindStringSubmatch (Lit (a # l) # r) (b # s) = FindStringSubmatch (Lit (a # l) # r) s"
  by (simp add: FSS_Cons)

lemma FSS_skip:
  "a \<notin> set w \<Longrightarrow> FindStringSubmatch (Lit (a # l) # r) (w @ s) = FindStringSubmatch (Lit (a # l) # r) s"
  by (induction w) (auto simp: FSS_skip_char)

lemma quote_facts:
  "q \<in> set quotes \<Longrightarrow> q \<noteq> CHR ''>'' \<and> q \<noteq> CHR ''<''"
  by (auto simp: quotes_def dquote_def squote_def)

lemma prefix_before_quote: "prefix l (w @ q # t) \<Longrightarrow> q \<notin> set l \<Longrightarrow> prefix l w"
proof (induction w arbitrary: l)
  case Nil
  then show ?case by (cases l) auto
next
  case (Cons a w)
  then show ?case by (cases l) auto
qed

lemma lit_quote:
  assumes "set w \<inter> set quotes = {}" and "set l \<inter> set quotes = {}" and "q \<in> set quotes"
  shows "match_here (Lit l # OneOf quotes # r) (w @ q # t) cap =
           (if w = l then match_here r t cap else None)"
proof (cases "prefix l (w @ q # t)")
  case False
  then have "w \<noteq> l" by auto
  with False show ?thesis by (simp add: match_here.simps(2))
next
  case True
  have "q \<notin> set l" using assms(2,3) by auto
  with True have p: "prefix l w" by (rule prefix_before_quote)
  then obtain w' where w: "w = l @ w'" by (auto simp: prefix_def)
  show ?thesis
  proof (cases w')
    case Nil
    with w assms(3) show ?thesis by (simp add: match_here.simps(2))
  next
    case (Cons a w'')
    with w assms(1) have "a \<notin> set quotes" by auto
    with w Cons show ?thesis by (simp add: match_here.simps(2))
  qed
qed

lemma attrText_iff:
  "attrText w \<longleftrightarrow> set w \<inter> set quotes = {} \<and> CHR ''>'' \<notin> set w \<and> CHR ''<'' \<notin> set w"
  by (auto simp: attrText_def list_all_iff)

lemma star_segment_raw:
  assumes "set w \<inter> set quotes = {}" and "CHR ''>'' \<notin> set w" and "set l \<inter> set quotes = {}"
    and "l \<noteq> []" and "q \<in> set quotes"
  shows "match_here (StarNot ''>'' # Lit l # OneOf quotes # r) (seg w q t) cap =
     (case match_here (StarNot ''>'' # Lit l # OneOf quotes # r) t cap of
        Some m \<Rightarrow> Some m
      | None \<Rightarrow> if suffix l w then match_here r t cap else None)"
  using assms(1,2)
proof (induction w)
  case Nil
  have "\<not> prefix l (q # t)"
    using assms(3,4,5) by (cases l) auto
  with assms(4,5) quote_facts[of q] show ?case
    by (simp add: seg_def match_here.simps(2) split: option.split)
next
  case (Cons a w)
  let ?R = "Lit l # OneOf quotes # r"
  have ih: "match_here (StarNot ''>'' # ?R) (seg w q t) cap =
     (case match_here (StarNot ''>'' # ?R) t cap of
        Some m \<Rightarrow> Some m
      | None \<Rightarrow> if suffix l w then match_here r t cap else None)"
    using Cons by simp
  have a: "a \<noteq> CHR ''>''" using Cons.prems by auto
  have lq: "match_here ?R ((a # w) @ q # t) cap = (if a # w = l then match_here r t cap else None)"
    by (rule lit_quote[OF Cons.prems(1) assms(3,5)])
  have step: "match_here (StarNot ''>'' # ?R) (seg (a # w) q t) cap =
      (case match_here (StarNot ''>'' # ?R) (seg w q t) cap of
         Some m \<Rightarrow> Some m
       | None \<Rightarrow> if a # w = l then match_here r t cap else None)"
    using a lq by (simp add: seg_def split: option.split)
  have len: "suffix l w \<Longrightarrow> a # w \<noteq> l"
    using suffix_length_le by fastforce
  show ?case
    unfolding step ih
    using len by (auto simp: suffix_Cons split: option.split)
qed

lemma star_segment:
  "attrText w \<Longrightarrow> attrText l \<Longrightarrow> l \<noteq> [] \<Longrightarrow> q \<in> set quotes \<Longrightarrow>
   match_here (StarNot ''>'' # Lit l # OneOf quotes # r) (seg w q t) cap =
     (case match_here (StarNot ''>'' # Lit l # OneOf quotes # r) t cap of
        Some m \<Rightarrow> Some m
      | None \<Rightarrow> if suffix l w then match_here r t cap else None)"
  by (rule star_segment_raw) (simp_all add: attrText_iff)

lemma cap_segment_raw:
  assumes "set v \<inter> set quotes = {}" and "q \<in> set quotes"
  shows "match_here (CapStarNot quotes # OneOf quotes # r) (seg v q t) cap =
           match_here r t (cap @ v)"
  using assms(1)
proof (induction v arbitrary: cap)
  case Nil
  with assms(2) show ?case by (simp add: seg_def)
next
  case (Cons a v)
  then have a: "a \<notin> set quotes" by auto
  have "match_here (CapStarNot quotes # OneOf quotes # r) (seg v q t) (cap @ [a]) =
      match_here r t ((cap @ [a]) @ v)"
    using Cons by simp
  with a show ?case
    by (simp add: seg_def split: option.split)
qed

lemma cap_segment:
  "attrText v \<Longrightarrow> q \<in> set quotes \<Longrightarrow>
   match_here (CapStarNot quotes # OneOf quotes # r) (seg v q t) cap = match_here r t (cap @ v)"
  by (rule cap_segment_raw) (simp_all add: attrText_iff)

lemma lit_segment:
  "match_here (Lit w # OneOf quotes # r) (seg w q t) cap =
     (if q \<in> set quotes then match_here r t cap else None)"
  by (simp add: seg_def)

lemma keyText_facts:
  "keyText k \<Longrightarrow> k \<noteq> [] \<and> attrText k \<and> CHR ''='' \<notin> set k \<and> CHR '' '' \<notin> set k"
  by (auto simp: keyText_def attrText_def list_all_iff)

lemma match_Lit_mismatch:
  "l \<noteq> [] \<Longrightarrow> c \<notin> set l \<Longrightarrow> match_here (Lit l # r) (c # t) cap = None"
  by (cases l) auto

lemma match_Lit_gt:
  "attrText l \<Longrightarrow> l \<noteq> [] \<Longrightarrow> match_here (Lit l # r) (CHR ''>'' # t) cap = None"
  by (rule match_Lit_mismatch) (simp_all add: attrText_iff)

lemma match_Lit_seg_space:
  "l \<noteq> [] \<Longrightarrow> CHR '' '' \<notin> set l \<Longrightarrow>
   match_here (Lit l # r) (seg (CHR '' '' # w) q t) cap = None"
  by (simp add: seg_def match_Lit_mismatch)

lemma no_eq_suffix: "CHR ''='' \<notin> set w \<Longrightarrow> CHR ''='' \<in> set l \<Longrightarrow> \<not> suffix l w"
  using set_mono_suffix by fastforce

lemma gt_not_quote: "CHR ''>'' \<notin> set quotes"
  by (simp add: quotes_def dquote_def squote_def)

lemma attrText_literals:
  "attrText '' name=''" "attrText '' property=''" "attrText '' content=''"
  "attrText ''name=''" "attrText ''property=''" "attrText ''content=''"
  by (simp_all add: attrText_def quotes_def dquote_def squote_def)

lemma FSS_seg:
  "attrText w \<Longrightarrow> q \<in> set quotes \<Longrightarrow>
   FindStringSubmatch (Lit (CHR ''<'' # l) # r) (seg w q t) =
   FindStringSubmatch (Lit (CHR ''<'' # l) # r) t"
proof -
  assume w: "attrText w" and q: "q \<in> set quotes"
  from q have "CHR ''<'' \<noteq> q" using quote_facts[of q] by auto
  with w show ?thesis
    by (simp add: seg_def FSS_skip FSS_skip_char attrText_iff)
qed

lemmas seg_eval =
  star_segment cap_segment lit_segment attrText_literals match_Lit_gt match_Lit_seg_space
  no_eq_suffix gt_not_quote suffix_Cons

text \<open>A single tag with the marker before the content, under each pattern.\<close>

lemma name_tag_pattern1:
  assumes "q1 \<in> set quotes" "q2 \<in> set quotes" "q3 \<in> set quotes" "q4 \<in> set quotes"
    and "key \<noteq> []" "attrText key" "CHR ''='' \<notin> set key" "CHR '' '' \<notin> set key"
    and "attrText v" "\<not> suffix ''content='' v"
  shows "match_here (pattern1 key)
      (''<meta'' @ seg '' name='' q1 (seg key q2 (seg '' content='' q3 (seg v q4 (''>'' @ rest))))) [] =
      Some v"
  using assms by (simp add: pattern1_def seg_eval split: if_split)

lemma name_tag_alone_pattern1:
  assumes "q1 \<in> set quotes" "q2 \<in> set quotes" "q3 \<in> set quotes" "q4 \<in> set quotes"
    and "key \<noteq> []" "attrText key" "CHR ''='' \<notin> set key" "CHR '' '' \<notin> set key"
    and "attrText v"
  shows "match_here (pattern1 key)
      (''<meta'' @ seg '' name='' q1 (seg key q2 (seg '' content='' q3 (seg v q4 ''>'')))) [] =
      Some v"
  using assms by (simp add: pattern1_def seg_eval split: if_split)

lemma property_tag_alone_pattern1:
  assumes "q1 \<in> set quotes" "q2 \<in> set quotes" "q3 \<in> set quotes" "q4 \<in> set quotes"
    and "key \<noteq> []" "attrText key" "CHR ''='' \<notin> set key" "CHR '' '' \<notin> set key"
    and "attrText v"
  shows "FindStringSubmatch (pattern1 key)
      (''<meta'' @ seg '' property='' q1 (seg key q2 (seg '' content='' q3 (seg v q4 ''>'')))) =
      None"
  using assms by (simp add: pattern1_def seg_eval FSS_Cons FSS_Nil FSS_seg split: if_split)

lemma property_tag_alone_pattern2:
  assumes "q1 \<in> set quotes" "q2 \<in> set quotes" "q3 \<in> set quotes" "q4 \<in> set quotes"
    and "key \<noteq> []" "attrText key" "CHR ''='' \<notin> set key" "CHR '' '' \<notin> set key"
    and "attrText v"
  shows "match_here (pattern2 key)
      (''<meta'' @ seg '' property='' q1 (seg key q2 (seg '' content='' q3 (seg v q4 ''>'')))) [] =
      Some v"
  using assms by (simp add: pattern2_def seg_eval split: if_split)

text \<open>A single tag with the content before the marker, under each pattern.\<close>

lemma content_name_alone_pattern1:
  assumes "q1 \<in> set quotes" "q2 \<in> set quotes" "q3 \<in> set quotes" "q4 \<in> set quotes"
    and "key \<noteq> []" "attrText key" "CHR ''='' \<notin> set key" "CHR '' '' \<notin> set key"
    and "attrText v"
  shows "FindStringSubmatch (pattern1 key)
      (''<meta'' @ seg '' content='' q3 (seg v q4 (seg '' name='' q1 (seg key q2 ''>'')))) =
      None"
  using assms by (simp add: pattern1_def seg_eval FSS_Cons FSS_Nil FSS_seg split: if_split)

lemma content_name_alone_pattern2:
  assumes "q1 \<in> set quotes" "q2 \<in> set quotes" "q3 \<in> set quotes" "q4 \<in> set quotes"
    and "key \<noteq> []" "attrText key" "CHR ''='' \<notin> set key" "CHR '' '' \<notin> set key"
    and "attrText v"
  shows "FindStringSubmatch (pattern2 key)
      (''<meta'' @ seg '' content='' q3 (seg v q4 (seg '' name='' q1 (seg key q2 ''>'')))) =
      None"
  using assms by (simp add: pattern2_def seg_eval FSS_Cons FSS_Nil FSS_seg split: if_split)

lemma content_name_alone_pattern3:
  assumes "q1 \<in> set quotes" "q2 \<in> set quotes" "q3 \<in> set quotes" "q4 \<in> set quotes"
    and "key \<noteq> []" "attrText key" "CHR ''='' \<notin> set key" "CHR '' '' \<notin> set key"
    and "attrText v"
  shows "match_here (pattern3 key)
      (''<meta'' @ seg '' content='' q3 (seg v q4 (seg '' name='' q1 (seg key q2 ''>'')))) [] =
      Some v"
  using assms by (simp add: pattern3_def seg_eval split: if_split)

lemma content_property_alone_pattern1:
  assumes "q1 \<in> set quotes" "q2 \<in> set quotes" "q3 \<in> set quotes" "q4 \<in> set quotes"
    and "key \<noteq> []" "attrText key" "CHR ''='' \<notin> set key" "CHR '' '' \<notin> set key"
    and "attrText v"
  shows "FindStringSubmatch (pattern1 key)
      (''<meta'' @ seg '' content='' q3 (seg v q4 (seg '' property='' q1 (seg key q2 ''>'')))) =
      None"
  using assms by (simp add: pattern1_def seg_eval FSS_Cons FSS_Nil FSS_seg split: if_split)

lemma content_property_alone_pattern2:
  assumes "q1 \<in> set quotes" "q2 \<in> set quotes" "q3 \<in> set quotes" "q4 \<in> set quotes"
    and "key \<noteq> []" "attrText key" "CHR ''='' \<notin> set key" "CHR '' '' \<notin> set key"
    and "attrText v"
  shows "FindStringSubmatch (pattern2 key)
      (''<meta'' @ seg '' content='' q3 (seg v q4 (seg '' property='' q1 (seg key q2 ''>'')))) =
      None"
  using assms by (simp add: pattern2_def seg_eval FSS_Cons FSS_Nil FSS_seg split: if_split)

lemma content_property_alone_pattern3:
  assumes "q1 \<in> set quotes" "q2 \<in> set quotes" "q3 \<in> set quotes" "q4 \<in> set quotes"
    and "key \<noteq> []" "attrText key" "CHR ''='' \<notin> set key" "CHR '' '' \<notin> set key"
    and "attrText v"
  shows "FindStringSubmatch (pattern3 key)
      (''<meta'' @ seg '' content='' q3 (seg v q4 (seg '' property='' q1 (seg key q2 ''>'')))) =
      None"
  using assms by (simp add: pattern3_def seg_eval FSS_Cons FSS_Nil FSS_seg split: if_split)

lemma content_property_alone_pattern4:
  assumes "q1 \<in> set quotes" "q2 \<in> set quotes" "q3 \<in> set quotes" "q4 \<in> set quotes"
    and "key \<noteq> []" "attrText key" "CHR ''='' \<notin> set key" "CHR '' '' \<notin> set key"
    and "attrText v"
  shows "match_here (pattern4 key)
      (''<meta'' @ seg '' content='' q3 (seg v q4 (seg '' property='' q1 (seg key q2 ''>'')))) [] =
      Some v"
  using assms by (simp add: pattern4_def seg_eval split: if_split)

lemma extractTag_hit:
  "match_here re s [] = Some c \<Longrightarrow> extractTag s re = c"
  by (cases s) (simp_all add: extractTag_def FSS_Nil FSS_Cons)

lemma extractTag_hit_after:
  "CHR ''<'' \<notin> set pre \<Longrightarrow> match_here (Lit (CHR ''<'' # l) # r) s [] = Some c \<Longrightarrow>
   extractTag (pre @ s) (Lit (CHR ''<'' # l) # r) = c"
  using extractTag_hit[of "Lit (CHR ''<'' # l) # r" s c]
  by (simp add: extractTag_def FSS_skip)

lemma extractTag_miss: "FindStringSubmatch re s = None \<Longrightarrow> extractTag s re = []"
  by (simp add: extractTag_def)

lemma first_name_tag_wins:
  assumes "CHR ''<'' \<notin> set pre" and "keyText key" and "attrText v" and "v \<noteq> []"
    and "\<not> suffix ''content='' v"
    and "q1 \<in> set quotes" "q2 \<in> set quotes" "q3 \<in> set quotes" "q4 \<in> set quotes"
  shows "extractMetaContent
      (pre @ ''<meta name='' @ q1 # key @ q2 # '' content='' @ q3 # v @ q4 # ''>'' @ rest) key = v"
proof -
  let ?tag = "''<meta'' @ seg '' name='' q1 (seg key q2 (seg '' content='' q3 (seg v q4 (''>'' @ rest))))"
  have doc: "pre @ ''<meta name='' @ q1 # key @ q2 # '' content='' @ q3 # v @ q4 # ''>'' @ rest =
      pre @ ?tag"
    by (simp add: seg_def)
  have m: "match_here (pattern1 key) ?tag [] = Some v"
    using assms keyText_facts[OF assms(2)] by (intro name_tag_pattern1) simp_all
  have "extractTag (pre @ ?tag) (pattern1 key) = v"
    using extractTag_hit_after[OF assms(1), of "''meta''" _ ?tag v] m
    by (simp add: pattern1_def)
  with assms(4) show ?thesis
    unfolding doc by (simp add: extractMetaContent_def)
qed

lemma single_tag_forms:
  assumes "keyText key" and "attrText v" and "v \<noteq> []"
    and "q1 \<in> set quotes" "q2 \<in> set quotes" "q3 \<in> set quotes" "q4 \<in> set quotes"
  shows
    "extractMetaContent
       (''<meta name='' @ q1 # key @ q2 # '' content='' @ q3 # v @ q4 # ''>'') key = v"
    "extractMetaContent
       (''<meta property='' @ q1 # key @ q2 # '' content='' @ q3 # v @ q4 # ''>'') key = v"
    "extractMetaContent
       (''<meta content='' @ q3 # v @ q4 # '' name='' @ q1 # key @ q2 # ''>'') key = v"
    "extractMetaContent
       (''<meta content='' @ q3 # v @ q4 # '' property='' @ q1 # key @ q2 # ''>'') key = v"
proof -
  note k = keyText_facts[OF assms(1)]
  let ?mn = "''<meta'' @ seg '' name='' q1 (seg key q2 (seg '' content='' q3 (seg v q4 ''>'')))"
  let ?mp = "''<meta'' @ seg '' property='' q1 (seg key q2 (seg '' content='' q3 (seg v q4 ''>'')))"
  let ?cn = "''<meta'' @ seg '' content='' q3 (seg v q4 (seg '' name='' q1 (seg key q2 ''>'')))"
  let ?cp = "''<meta'' @ seg '' content='' q3 (seg v q4 (seg '' property='' q1 (seg key q2 ''>'')))"
  have mn: "''<meta name='' @ q1 # key @ q2 # '' content='' @ q3 # v @ q4 # ''>'' = ?mn"
    and mp: "''<meta property='' @ q1 # key @ q2 # '' content='' @ q3 # v @ q4 # ''>'' = ?mp"
    and cn: "''<meta content='' @ q3 # v @ q4 # '' name='' @ q1 # key @ q2 # ''>'' = ?cn"
    and cp: "''<meta content='' @ q3 # v @ q4 # '' property='' @ q1 # key @ q2 # ''>'' = ?cp"
    by (simp_all add: seg_def)
  have "extractTag ?mn (pattern1 key) = v"
    using assms k by (intro extractTag_hit name_tag_alone_pattern1) simp_all
  with assms(3) show "extractMetaContent
      (''<meta name='' @ q1 # key @ q2 # '' content='' @ q3 # v @ q4 # ''>'') key = v"
    unfolding mn by (simp add: extractMetaContent_def)
  have "extractTag ?mp (pattern1 key) = []"
    using assms k by (intro extractTag_miss property_tag_alone_pattern1) simp_all
  moreover have "extractTag ?mp (pattern2 key) = v"
    using assms k by (intro extractTag_hit property_tag_alone_pattern2) simp_all
  ultimately show "extractMetaContent
      (''<meta property='' @ q1 # key @ q2 # '' content='' @ q3 # v @ q4 # ''>'') key = v"
    unfolding mp using assms(3) by (simp add: extractMetaContent_def)
  have "extractTag ?cn (pattern1 key) = []"
    using assms k by (intro extractTag_miss content_name_alone_pattern1) simp_all
  moreover have "extractTag ?cn (pattern2 key) = []"
    using assms k by (intro extractTag_miss content_name_alone_pattern2) simp_all
  moreover have "extractTag ?cn (pattern3 key) = v"
    using assms k by (intro extractTag_hit content_name_alone_pattern3) simp_all
  ultimately show "extractMetaContent
      (''<meta content='' @ q3 # v @ q4 # '' name='' @ q1 # key @ q2 # ''>'') key = v"
    unfolding cn using assms(3) by (simp add: extractMetaContent_def)
  have "extractTag ?cp (pattern1 key) = []"
    using assms k by (intro extractTag_miss content_property_alone_pattern1) simp_all
  moreover have "extractTag ?cp (pattern2 key) = []"
    using assms k by (intro extractTag_miss content_property_alone_pattern2) simp_all
  moreover have "extractTag ?cp (pattern3 key) = []"
    using assms k by (intro extractTag_miss content_property_alone_pattern3) simp_all
  moreover have "extractTag ?cp (pattern4 key) = v"
    using assms k by (intro extractTag_hit content_property_alone_pattern4) simp_all
  ultimately show "extractMetaContent
      (''<meta content='' @ q3 # v @ q4 # '' property='' @ q1 # key @ q2 # ''>'') key = v"
    unfolding cp using assms(3) by (simp add: extractMetaContent_def)
qed

subsection \<open>Documents of two tags\<close>

lemma lit_quote_seg:
  "attrText w \<Longrightarrow> attrText l \<Longrightarrow> q \<in> set quotes \<Longrightarrow>
   match_here (Lit l # OneOf quotes # r) (seg w q t) cap =
     (if w = l then match_here r t cap else None)"
  unfolding seg_def by (rule lit_quote) (simp_all add: attrText_iff)

lemma FSS_past_tag:
  assumes "match_here (Lit ''<meta'' # r)
      (''<meta'' @ seg w1 q1 (seg w2 q2 (seg w3 q3 (seg w4 q4 (''>'' @ rest))))) [] = None"
    and "attrText w1" "attrText w2" "attrText w3" "attrText w4"
    and "q1 \<in> set quotes" "q2 \<in> set quotes" "q3 \<in> set quotes" "q4 \<in> set quotes"
  shows "FindStringSubmatch (Lit ''<meta'' # r)
      (''<meta'' @ seg w1 q1 (seg w2 q2 (seg w3 q3 (seg w4 q4 (''>'' @ rest))))) =
      FindStringSubmatch (Lit ''<meta'' # r) rest"
proof -
  have "FindStringSubmatch (Lit ''<meta'' # r)
      (''<meta'' @ seg w1 q1 (seg w2 q2 (seg w3 q3 (seg w4 q4 (''>'' @ rest))))) =
      FindStringSubmatch (Lit ''<meta'' # r)
        (''meta'' @ seg w1 q1 (seg w2 q2 (seg w3 q3 (seg w4 q4 (''>'' @ rest)))))"
    using assms(1) by (subst append_Cons, subst FSS_Cons) simp
  also have "\<dots> = FindStringSubmatch (Lit ''<meta'' # r) rest"
    using assms(2-) by (simp add: FSS_skip_char FSS_seg)
  finally show ?thesis .
qed

text \<open>A tag for another key, or with the other marker, is not matched.\<close>

lemma other_key_pattern1:
  assumes "q1 \<in> set quotes" "q2 \<in> set quotes" "q3 \<in> set quotes" "q4 \<in> set quotes"
    and "keyText k" "keyText key" "k \<noteq> key" "attrText v"
  shows "match_here (pattern1 key)
      (''<meta'' @ seg '' name='' q1 (seg k q2 (seg '' content='' q3 (seg v q4 (''>'' @ rest))))) [] =
      None"
  using assms keyText_facts[of k] keyText_facts[of key]
  by (simp add: pattern1_def seg_eval lit_quote_seg split: if_split)

lemma other_marker_pattern1:
  assumes "q1 \<in> set quotes" "q2 \<in> set quotes" "q3 \<in> set quotes" "q4 \<in> set quotes"
    and "keyText k" "keyText key" "attrText v"
  shows "match_here (pattern1 key)
      (''<meta'' @ seg '' property='' q1 (seg k q2 (seg '' content='' q3 (seg v q4 (''>'' @ rest))))) [] =
      None"
  using assms keyText_facts[of k] keyText_facts[of key]
  by (simp add: pattern1_def seg_eval lit_quote_seg split: if_split)

lemma other_marker_pattern2:
  assumes "q1 \<in> set quotes" "q2 \<in> set quotes" "q3 \<in> set quotes" "q4 \<in> set quotes"
    and "keyText k" "keyText key" "attrText v"
  shows "match_here (pattern2 key)
      (''<meta'' @ seg '' name='' q1 (seg k q2 (seg '' content='' q3 (seg v q4 (''>'' @ rest))))) [] =
      None"
  using assms keyText_facts[of k] keyText_facts[of key]
  by (simp add: pattern2_def seg_eval lit_quote_seg split: if_split)

lemma property_tag_pattern2:
  assumes "q1 \<in> set quotes" "q2 \<in> set quotes" "q3 \<in> set quotes" "q4 \<in> set quotes"
    and "keyText key" "attrText v" "\<not> suffix ''content='' v"
  shows "match_here (pattern2 key)
      (''<meta'' @ seg '' property='' q1 (seg key q2 (seg '' content='' q3 (seg v q4 (''>'' @ rest))))) [] =
      Some v"
  using assms keyText_facts[of key]
  by (simp add: pattern2_def seg_eval split: if_split)

lemma name_tag_alone_pattern3:
  assumes "q1 \<in> set quotes" "q2 \<in> set quotes" "q3 \<in> set quotes" "q4 \<in> set quotes"
    and "keyText k" "keyText key" "attrText v"
  shows "match_here (pattern3 key)
      (''<meta'' @ seg '' name='' q1 (seg k q2 (seg '' content='' q3 (seg v q4 (''>'' @ []))))) [] =
      None"
  using assms keyText_facts[of k] keyText_facts[of key]
  by (simp add: pattern3_def seg_eval lit_quote_seg split: if_split)

lemma name_tag_alone_pattern4:
  assumes "q1 \<in> set quotes" "q2 \<in> set quotes" "q3 \<in> set quotes" "q4 \<in> set quotes"
    and "keyText k" "keyText key" "attrText v"
  shows "match_here (pattern4 key)
      (''<meta'' @ seg '' name='' q1 (seg k q2 (seg '' content='' q3 (seg v q4 (''>'' @ []))))) [] =
      None"
  using assms keyText_facts[of k] keyText_facts[of key]
  by (simp add: pattern4_def seg_eval lit_quote_seg split: if_split)

lemma pattern_heads:
  "pattern1 k = Lit ''<meta'' # tl (pattern1 k)" "pattern2 k = Lit ''<meta'' # tl (pattern2 k)"
  "pattern3 k = Lit ''<meta'' # tl (pattern3 k)" "pattern4 k = Lit ''<meta'' # tl (pattern4 k)"
  by (simp_all add: pattern1_def pattern2_def pattern3_def pattern4_def)

lemma FSS_past_tag_None:
  assumes "match_here (Lit ''<meta'' # r)
      (''<meta'' @ seg w1 q1 (seg w2 q2 (seg w3 q3 (seg w4 q4 (''>'' @ []))))) [] = None"
    and "attrText w1" "attrText w2" "attrText w3" "attrText w4"
    and "q1 \<in> set quotes" "q2 \<in> set quotes" "q3 \<in> set quotes" "q4 \<in> set quotes"
  shows "FindStringSubmatch (Lit ''<meta'' # r)
      (''<meta'' @ seg w1 q1 (seg w2 q2 (seg w3 q3 (seg w4 q4 (''>'' @ []))))) = None"
  unfolding FSS_past_tag[OF assms] by (simp add: FSS_Nil)

lemma generic_only:
  assumes k: "keyText k1" "keyText k2" "k1 \<noteq> k2" and g: "attrText g" "g \<noteq> []"
    and q: "q1 \<in> set quotes" "q2 \<in> set quotes" "q3 \<in> set quotes" "q4 \<in> set quotes"
  shows "extractMetaContent
           (''<meta name='' @ q1 # k1 @ q2 # '' content='' @ q3 # g @ q4 # ''>'') k2 = []"
    and "extractMetaContent
           (''<meta name='' @ q1 # k1 @ q2 # '' content='' @ q3 # g @ q4 # ''>'') k1 = g"
proof -
  let ?tag = "''<meta'' @ seg '' name='' q1 (seg k1 q2 (seg '' content='' q3 (seg g q4 (''>'' @ []))))"
  have doc: "''<meta name='' @ q1 # k1 @ q2 # '' content='' @ q3 # g @ q4 # ''>'' = ?tag"
    by (simp add: seg_def)
  note kf = keyText_facts[OF k(1)] attrText_literals
  have "FindStringSubmatch (pattern1 k2) ?tag = None"
    using other_key_pattern1[OF q k(1,2,3) g(1), of "[]"] q g(1) kf
    by (subst pattern_heads, intro FSS_past_tag_None) (simp_all add: pattern1_def)
  moreover have "FindStringSubmatch (pattern2 k2) ?tag = None"
    using other_marker_pattern2[OF q k(1,2) g(1), of "[]"] q g(1) kf
    by (subst pattern_heads, intro FSS_past_tag_None) (simp_all add: pattern2_def)
  moreover have "FindStringSubmatch (pattern3 k2) ?tag = None"
    using name_tag_alone_pattern3[OF q k(1,2) g(1)] q g(1) kf
    by (subst pattern_heads, intro FSS_past_tag_None) (simp_all add: pattern3_def)
  moreover have "FindStringSubmatch (pattern4 k2) ?tag = None"
    using name_tag_alone_pattern4[OF q k(1,2) g(1)] q g(1) kf
    by (subst pattern_heads, intro FSS_past_tag_None) (simp_all add: pattern4_def)
  ultimately show "extractMetaContent
      (''<meta name='' @ q1 # k1 @ q2 # '' content='' @ q3 # g @ q4 # ''>'') k2 = []"
    unfolding doc by (simp add: extractMetaContent_def extractTag_def)
  show "extractMetaContent
      (''<meta name='' @ q1 # k1 @ q2 # '' content='' @ q3 # g @ q4 # ''>'') k1 = g"
    by (rule single_tag_forms(1)[OF k(1) g q])
qed

lemma generic_then_social:
  assumes k: "keyText k1" "keyText k2" "k1 \<noteq> k2" and g: "attrText g"
    and s: "attrText s" "s \<noteq> []"
    and q: "q1 \<in> set quotes" "q2 \<in> set quotes" "q3 \<in> set quotes" "q4 \<in> set quotes"
    and p: "p1 \<in> set quotes" "p2 \<in> set quotes" "p3 \<in> set quotes" "p4 \<in> set quotes"
  shows "extractMetaContent
      (''<meta name='' @ q1 # k1 @ q2 # '' content='' @ q3 # g @ q4 # ''>'' @
       ''<meta property='' @ p1 # k2 @ p2 # '' content='' @ p3 # s @ p4 # ''>'') k2 = s"
proof -
  let ?social = "''<meta'' @ seg '' property='' p1 (seg k2 p2 (seg '' content='' p3 (seg s p4 ''>'')))"
  let ?doc = "''<meta'' @ seg '' name='' q1 (seg k1 q2 (seg '' content='' q3 (seg g q4 (''>'' @ ?social))))"
  have doc: "''<meta name='' @ q1 # k1 @ q2 # '' content='' @ q3 # g @ q4 # ''>'' @
       ''<meta property='' @ p1 # k2 @ p2 # '' content='' @ p3 # s @ p4 # ''>'' = ?doc"
    by (simp add: seg_def)
  note kf = keyText_facts[OF k(1)] keyText_facts[OF k(2)] attrText_literals
  have "FindStringSubmatch (pattern1 k2) ?doc = FindStringSubmatch (pattern1 k2) ?social"
    using other_key_pattern1[OF q k(1,2,3) g, of ?social] q g kf
    by (subst (1 2) pattern_heads, intro FSS_past_tag) (simp_all add: pattern1_def)
  also have "\<dots> = None"
    using p s kf by (intro property_tag_alone_pattern1) simp_all
  finally have one: "extractTag ?doc (pattern1 k2) = []"
    by (simp add: extractTag_def)
  have "FindStringSubmatch (pattern2 k2) ?doc = FindStringSubmatch (pattern2 k2) ?social"
    using other_marker_pattern2[OF q k(1,2) g, of ?social] q g kf
    by (subst (1 2) pattern_heads, intro FSS_past_tag) (simp_all add: pattern2_def)
  then have two: "extractTag ?doc (pattern2 k2) = extractTag ?social (pattern2 k2)"
    by (simp add: extractTag_def)
  have "extractTag ?social (pattern2 k2) = s"
    using p s kf by (intro extractTag_hit property_tag_alone_pattern2) simp_all
  with one two s(2) show ?thesis
    unfolding doc by (simp add: extractMetaContent_def)
qed

lemma social_then_generic:
  assumes k: "keyText k1" "keyText k2" "k1 \<noteq> k2" and g: "attrText g"
    and s: "attrText s" "s \<noteq> []" "\<not> suffix ''content='' s"
    and q: "q1 \<in> set quotes" "q2 \<in> set quotes" "q3 \<in> set quotes" "q4 \<in> set quotes"
    and p: "p1 \<in> set quotes" "p2 \<in> set quotes" "p3 \<in> set quotes" "p4 \<in> set quotes"
  shows "extractMetaContent
      (''<meta property='' @ p1 # k2 @ p2 # '' content='' @ p3 # s @ p4 # ''>'' @
       ''<meta name='' @ q1 # k1 @ q2 # '' content='' @ q3 # g @ q4 # ''>'') k2 = s"
proof -
  let ?generic = "''<meta'' @ seg '' name='' q1 (seg k1 q2 (seg '' content='' q3 (seg g q4 (''>'' @ []))))"
  let ?doc = "''<meta'' @ seg '' property='' p1 (seg k2 p2 (seg '' content='' p3 (seg s p4 (''>'' @ ?generic))))"
  have doc: "''<meta property='' @ p1 # k2 @ p2 # '' content='' @ p3 # s @ p4 # ''>'' @
       ''<meta name='' @ q1 # k1 @ q2 # '' content='' @ q3 # g @ q4 # ''>'' = ?doc"
    by (simp add: seg_def)
  note kf = keyText_facts[OF k(1)] keyText_facts[OF k(2)] attrText_literals
  have "FindStringSubmatch (pattern1 k2) ?doc = FindStringSubmatch (pattern1 k2) ?generic"
    using other_marker_pattern1[OF p k(2,2) s(1), of ?generic] p s kf
    by (subst (1 2) pattern_heads, intro FSS_past_tag) (simp_all add: pattern1_def)
  also have "\<dots> = None"
    using other_key_pattern1[OF q k(1,2,3) g, of "[]"] q g kf
    by (subst pattern_heads, intro FSS_past_tag_None) (simp_all add: pattern1_def)
  finally have one: "extractTag ?doc (pattern1 k2) = []"
    by (simp add: extractTag_def)
  have "extractTag ?doc (pattern2 k2) = s"
    using p s k(2) by (intro extractTag_hit property_tag_pattern2) simp_all
  with one s(2) show ?thesis
    unfolding doc by (simp add: extractMetaContent_def)
qed

subsection \<open>The match that is used\<close>

text \<open>
  C2. For one pattern, the match used is the one that starts leftmost in the document.
  Among the four patterns of a key the order is fixed: marker \<open>name=\<close> before the content,
  marker \<open>property=\<close> before the content, content before \<open>name=\<close>, content before
  \<open>property=\<close>; the first pattern in this order that captures a non-empty value gives the
  result, wherever its tag stands in the document. So a tag with \<open>name=\<close> before its
  content that is the first tag of the document gives the value, whatever follows it.
\<close>

theorem first_match_per_pattern:
  "extractMetaContent html key =
     (if extractTag html (pattern1 key) \<noteq> [] then extractTag html (pattern1 key)
      else if extractTag html (pattern2 key) \<noteq> [] then extractTag html (pattern2 key)
      else if extractTag html (pattern3 key) \<noteq> [] then extractTag html (pattern3 key)
      else extractTag html (pattern4 key)) \<and>
   (extractTag html re \<noteq> [] \<longrightarrow>
      (\<exists>i\<le>length html. match_here re (drop i html) [] = Some (extractTag html re) \<and>
         (\<forall>j<i. match_here re (drop j html) [] = None))) \<and>
   (CHR ''<'' \<notin> set pre \<and> keyText key \<and> attrText v \<and> v \<noteq> [] \<and> \<not> suffix ''content='' v \<and>
    q1 \<in> set quotes \<and> q2 \<in> set quotes \<and> q3 \<in> set quotes \<and> q4 \<in> set quotes \<longrightarrow>
      extractMetaContent
        (pre @ ''<meta name='' @ q1 # key @ q2 # '' content='' @ q3 # v @ q4 # ''>'' @ rest)
        key = v)"
proof (intro conjI impI)
  show "extractMetaContent html key =
     (if extractTag html (pattern1 key) \<noteq> [] then extractTag html (pattern1 key)
      else if extractTag html (pattern2 key) \<noteq> [] then extractTag html (pattern2 key)
      else if extractTag html (pattern3 key) \<noteq> [] then extractTag html (pattern3 key)
      else extractTag html (pattern4 key))"
    by (simp add: extractMetaContent_def Let_def)
next
  assume "extractTag html re \<noteq> []"
  then have "FindStringSubmatch re html = Some (extractTag html re)"
    by (auto simp: extractTag_def split: option.splits)
  then show "\<exists>i\<le>length html. match_here re (drop i html) [] = Some (extractTag html re) \<and>
      (\<forall>j<i. match_here re (drop j html) [] = None)"
    by (rule FindStringSubmatch_leftmost)
next
  assume "CHR ''<'' \<notin> set pre \<and> keyText key \<and> attrText v \<and> v \<noteq> [] \<and>
    \<not> suffix ''content='' v \<and>
    q1 \<in> set quotes \<and> q2 \<in> set quotes \<and> q3 \<in> set quotes \<and> q4 \<in> set quotes"
  then show "extractMetaContent
      (pre @ ''<meta name='' @ q1 # key @ q2 # '' content='' @ q3 # v @ q4 # ''>'' @ rest)
      key = v"
    by (intro first_name_tag_wins) simp_all
qed

theorem first_match_per_pattern_witness:
  \<open>extractTag ''  <meta name="description" content="one"><meta name="description" content="two">''
     (pattern1 ''description'') \<noteq> [] \<and>
   CHR ''<'' \<notin> set ''  '' \<and> keyText ''description'' \<and> attrText ''one'' \<and> ''one'' \<noteq> [] \<and>
   \<not> suffix ''content='' ''one'' \<and> dquote \<in> set quotes \<and>
   extractMetaContent
     ''  <meta name="description" content="one"><meta name="description" content="two">''
     ''description'' = ''one'' \<and>
   (\<exists>i\<le>length ''  <meta name="description" content="one"><meta name="description" content="two">''.
      match_here (pattern1 ''description'')
        (drop i ''  <meta name="description" content="one"><meta name="description" content="two">'') [] =
        Some ''one'' \<and>
      (\<forall>j<i. match_here (pattern1 ''description'')
        (drop j ''  <meta name="description" content="one"><meta name="description" content="two">'') [] =
        None))\<close>
proof -
  let ?doc = \<open>''  <meta name="description" content="one"><meta name="description" content="two">''\<close>
  let ?rest = \<open>''<meta name="description" content="two">''\<close>
  have e: "extractTag ?doc (pattern1 ''description'') = ''one''"
    by code_simp
  then have n: "extractTag ?doc (pattern1 ''description'') \<noteq> []"
    by simp
  have h: "CHR ''<'' \<notin> set ''  '' \<and> keyText ''description'' \<and> attrText ''one'' \<and> ''one'' \<noteq> [] \<and>
      \<not> suffix ''content='' ''one'' \<and> dquote \<in> set quotes"
    by code_simp
  have d: "''  '' @ ''<meta name='' @ dquote # ''description'' @ dquote # '' content='' @
      dquote # ''one'' @ dquote # ''>'' @ ?rest = ?doc"
    by (simp add: dquote_def)
  note t = first_match_per_pattern[of ?doc "''description''" "pattern1 ''description''"
      "''  ''" "''one''" dquote dquote dquote dquote ?rest]
  from t n have l: "\<exists>i\<le>length ?doc.
        match_here (pattern1 ''description'') (drop i ?doc) [] =
          Some (extractTag ?doc (pattern1 ''description'')) \<and>
        (\<forall>j<i. match_here (pattern1 ''description'') (drop j ?doc) [] = None)"
    by blast
  from t h have "extractMetaContent (''  '' @ ''<meta name='' @ dquote # ''description'' @
      dquote # '' content='' @ dquote # ''one'' @ dquote # ''>'' @ ?rest) ''description'' = ''one''"
    by blast
  then have m: "extractMetaContent ?doc ''description'' = ''one''"
    unfolding d .
  show ?thesis
    using n h m l unfolding e by blast
qed

text \<open>
  Document order does not decide between tags of different forms: a tag with the marker
  \<open>property=\<close> that comes first loses to a later tag with the marker \<open>name=\<close>.
\<close>

theorem later_name_tag_beats_earlier_property_tag:
  \<open>extractMetaContent
     ''<meta property="description" content="first"><meta name="description" content="second">''
     ''description'' = ''second'' \<and>
   Description (extractMetadata (map lowerByte)
     ''<meta property="description" content="first"><meta name="description" content="second">''
     emptyResponse) = ''second''\<close>
  by code_simp

subsection \<open>Letter case, attribute order, quote characters\<close>

lemma ToLower_ascii_cong:
  "isASCII h1 \<Longrightarrow> isASCII h2 \<Longrightarrow> map lowerByte h1 = map lowerByte h2 \<Longrightarrow>
   ToLower U h1 = ToLower U h2"
  by (simp add: ToLower_def)

lemma meta_fields_depend_on_lowered:
  "ToLower U h1 = ToLower U h2 \<Longrightarrow>
   Description (extractMetadata U h1 r) = Description (extractMetadata U h2 r) \<and>
   Image (extractMetadata U h1 r) = Image (extractMetadata U h2 r) \<and>
   SiteName (extractMetadata U h1 r) = SiteName (extractMetadata U h2 r)"
  by (simp add: extractMetadata_def Let_def setTitle_def setDescription_def setImage_def
      setSiteName_def)

text \<open>
  The matching of meta tags does not depend on letter case: two ASCII documents that
  differ only in the case of letters give the same description, image and site name. A
  meta tag is recognised with the marker before the content and with the content before
  the marker, with the marker \<open>name=\<close> and with \<open>property=\<close>, and with either quote
  character around each of the two attribute values.
\<close>

lemma meta_matching_case_order_quotes:
  "(isASCII h1 \<and> isASCII h2 \<and> map lowerByte h1 = map lowerByte h2 \<longrightarrow>
      Description (extractMetadata U h1 r) = Description (extractMetadata U h2 r) \<and>
      Image (extractMetadata U h1 r) = Image (extractMetadata U h2 r) \<and>
      SiteName (extractMetadata U h1 r) = SiteName (extractMetadata U h2 r)) \<and>
   (keyText key \<and> attrText v \<and> v \<noteq> [] \<and>
    q1 \<in> set quotes \<and> q2 \<in> set quotes \<and> q3 \<in> set quotes \<and> q4 \<in> set quotes \<longrightarrow>
      extractMetaContent
        (''<meta name='' @ q1 # key @ q2 # '' content='' @ q3 # v @ q4 # ''>'') key = v \<and>
      extractMetaContent
        (''<meta property='' @ q1 # key @ q2 # '' content='' @ q3 # v @ q4 # ''>'') key = v \<and>
      extractMetaContent
        (''<meta content='' @ q3 # v @ q4 # '' name='' @ q1 # key @ q2 # ''>'') key = v \<and>
      extractMetaContent
        (''<meta content='' @ q3 # v @ q4 # '' property='' @ q1 # key @ q2 # ''>'') key = v)"
proof (intro conjI impI)
  assume a: "isASCII h1 \<and> isASCII h2 \<and> map lowerByte h1 = map lowerByte h2"
  then have "ToLower U h1 = ToLower U h2"
    by (simp add: ToLower_ascii_cong)
  from meta_fields_depend_on_lowered[OF this]
  show "Description (extractMetadata U h1 r) = Description (extractMetadata U h2 r)"
    and "Image (extractMetadata U h1 r) = Image (extractMetadata U h2 r)"
    and "SiteName (extractMetadata U h1 r) = SiteName (extractMetadata U h2 r)"
    by blast+
next
  assume b: "keyText key \<and> attrText v \<and> v \<noteq> [] \<and>
    q1 \<in> set quotes \<and> q2 \<in> set quotes \<and> q3 \<in> set quotes \<and> q4 \<in> set quotes"
  then have k: "keyText key" and v: "attrText v" "v \<noteq> []"
    and q: "q1 \<in> set quotes" "q2 \<in> set quotes" "q3 \<in> set quotes" "q4 \<in> set quotes"
    by blast+
  show "extractMetaContent
      (''<meta name='' @ q1 # key @ q2 # '' content='' @ q3 # v @ q4 # ''>'') key = v"
    by (rule single_tag_forms(1)[OF k v q])
  show "extractMetaContent
      (''<meta property='' @ q1 # key @ q2 # '' content='' @ q3 # v @ q4 # ''>'') key = v"
    by (rule single_tag_forms(2)[OF k v q])
  show "extractMetaContent
      (''<meta content='' @ q3 # v @ q4 # '' name='' @ q1 # key @ q2 # ''>'') key = v"
    by (rule single_tag_forms(3)[OF k v q])
  show "extractMetaContent
      (''<meta content='' @ q3 # v @ q4 # '' property='' @ q1 # key @ q2 # ''>'') key = v"
    by (rule single_tag_forms(4)[OF k v q])
qed

lemma meta_matching_case_order_quotes_example:
  \<open>isASCII ''<META NAME="Description" CONTENT="Hi">'' \<and>
   isASCII ''<meta name="description" content="hi">'' \<and>
   map lowerByte ''<META NAME="Description" CONTENT="Hi">'' =
     map lowerByte ''<meta name="description" content="hi">'' \<and>
   Description (extractMetadata (map lowerByte) ''<META NAME="Description" CONTENT="Hi">'' emptyResponse) =
     ''hi'' \<and>
   keyText ''og:image'' \<and> attrText ''/pic.png'' \<and> ''/pic.png'' \<noteq> [] \<and>
   dquote \<in> set quotes \<and> squote \<in> set quotes \<and>
   extractMetaContent
     (''<meta name='' @ dquote # ''og:image'' @ squote # '' content='' @ squote # ''/pic.png'' @
      dquote # ''>'') ''og:image'' = ''/pic.png'' \<and>
   extractMetaContent
     (''<meta content='' @ squote # ''/pic.png'' @ dquote # '' property='' @ dquote #
      ''og:image'' @ squote # ''>'') ''og:image'' = ''/pic.png''\<close>
proof -
  let ?h1 = \<open>''<META NAME="Description" CONTENT="Hi">''\<close>
  let ?h2 = \<open>''<meta name="description" content="hi">''\<close>
  have a: "isASCII ?h1 \<and> isASCII ?h2 \<and> map lowerByte ?h1 = map lowerByte ?h2"
    by code_simp
  have d2: "Description (extractMetadata (map lowerByte) ?h2 emptyResponse) = ''hi''"
    by code_simp
  have b: "keyText ''og:image'' \<and> attrText ''/pic.png'' \<and> ''/pic.png'' \<noteq> [] \<and>
      dquote \<in> set quotes \<and> squote \<in> set quotes \<and> squote \<in> set quotes \<and> dquote \<in> set quotes"
    by code_simp
  note t = meta_matching_case_order_quotes[of ?h1 ?h2 "map lowerByte" emptyResponse "''og:image''"
      "''/pic.png''" dquote squote squote dquote]
  from t a have "Description (extractMetadata (map lowerByte) ?h1 emptyResponse) =
      Description (extractMetadata (map lowerByte) ?h2 emptyResponse)"
    by blast
  then have d1: "Description (extractMetadata (map lowerByte) ?h1 emptyResponse) = ''hi''"
    unfolding d2 .
  from t b have "extractMetaContent
     (''<meta name='' @ dquote # ''og:image'' @ squote # '' content='' @ squote # ''/pic.png'' @
      dquote # ''>'') ''og:image'' = ''/pic.png''"
    and "extractMetaContent
     (''<meta content='' @ squote # ''/pic.png'' @ dquote # '' property='' @ dquote #
      ''og:image'' @ squote # ''>'') ''og:image'' = ''/pic.png''"
    by blast+
  with a d1 b show ?thesis by blast
qed

text \<open>
  C3. The matching is not case-insensitive for the title element. The pattern of the
  title is applied to the document as it is, not to its lowered copy, and it is written
  in lower case: \<open><title>Hello</title>\<close> gives the title \<open>Hello\<close>, the same element written
  \<open><TITLE>Hello</TITLE>\<close> or \<open><Title>Hello</Title>\<close> gives no title, while a meta tag
  written in upper case is matched.
\<close>

theorem upper_case_title_element_not_matched:
  \<open>Title (extractMetadata (map lowerByte) ''<title>Hello</title>'' emptyResponse) = ''Hello'' \<and>
   Title (extractMetadata (map lowerByte) ''<TITLE>Hello</TITLE>'' emptyResponse) = [] \<and>
   Title (extractMetadata (map lowerByte) ''<Title>Hello</Title>'' emptyResponse) = [] \<and>
   Description (extractMetadata (map lowerByte)
     ''<META NAME="DESCRIPTION" CONTENT="Hi">'' emptyResponse) = ''hi''\<close>
  by code_simp

subsection \<open>Tags inside a larger document\<close>

lemma prefix_straddle:
  assumes "A \<noteq> []" and "CHR ''<'' \<notin> set l" and "prefix (CHR ''<'' # l) (A @ CHR ''<'' # x)"
  shows "sublist (CHR ''<'' # l) A"
proof -
  from assms(3) consider "prefix (CHR ''<'' # l) A"
    | us where "CHR ''<'' # l = A @ us" "prefix us (CHR ''<'' # x)"
    by (auto simp: prefix_append)
  then show ?thesis
  proof cases
    case 1
    then show ?thesis by (rule prefix_imp_sublist)
  next
    case 2
    show ?thesis
    proof (cases us)
      case Nil
      with 2(1) show ?thesis by simp
    next
      case (Cons u us')
      with 2(2) have u: "u = CHR ''<''" by simp
      from assms(1) obtain a A' where A: "A = a # A'" by (cases A) auto
      with 2(1) Cons u have "l = A' @ CHR ''<'' # us'" by simp
      with assms(2) show ?thesis by simp
    qed
  qed
qed

lemma FSS_skip_lit:
  "\<not> sublist (CHR ''<'' # l) A \<Longrightarrow> CHR ''<'' \<notin> set l \<Longrightarrow>
   FindStringSubmatch (Lit (CHR ''<'' # l) # r) (A @ CHR ''<'' # x) =
   FindStringSubmatch (Lit (CHR ''<'' # l) # r) (CHR ''<'' # x)"
proof (induction A)
  case Nil
  then show ?case by simp
next
  case (Cons a A)
  have "\<not> prefix (CHR ''<'' # l) ((a # A) @ CHR ''<'' # x)"
    using prefix_straddle[of "a # A" l x] Cons.prems by blast
  then have n: "match_here (Lit (CHR ''<'' # l) # r) ((a # A) @ CHR ''<'' # x) [] = None"
    by (subst match_here.simps(2)) (simp only: if_False)
  from Cons.prems(1) have "\<not> sublist (CHR ''<'' # l) A"
    by (auto simp: sublist_Cons_right)
  from Cons.IH[OF this Cons.prems(2)] n show ?case
    by (simp add: FSS_Cons)
qed

lemma extractTag_hit_past:
  assumes "\<not> sublist (CHR ''<'' # l) pre" and "CHR ''<'' \<notin> set l"
    and "match_here (Lit (CHR ''<'' # l) # r) (CHR ''<'' # x) [] = Some c"
  shows "extractTag (pre @ CHR ''<'' # x) (Lit (CHR ''<'' # l) # r) = c"
  using assms(3) by (simp add: extractTag_def FSS_skip_lit[OF assms(1,2)] FSS_Cons)

lemma cap_until_lt:
  "CHR ''<'' \<notin> set t \<Longrightarrow> match_here r (CHR ''<'' # x) (cap @ t) = Some m \<Longrightarrow>
   match_here (CapStarNot ''<'' # r) (t @ CHR ''<'' # x) cap = Some m"
proof (induction t arbitrary: cap)
  case Nil
  then show ?case by simp
next
  case (Cons a t)
  then have "match_here (CapStarNot ''<'' # r) (t @ CHR ''<'' # x) (cap @ [a]) = Some m"
    by simp
  moreover have "a \<noteq> CHR ''<''"
    using Cons.prems(1) by auto
  ultimately show ?case by simp
qed

lemma title_element_match:
  "CHR ''<'' \<notin> set t \<Longrightarrow>
   match_here titlePattern (''<title>'' @ t @ ''</title>'' @ rest) [] = Some t"
proof -
  assume t: "CHR ''<'' \<notin> set t"
  have "match_here [Lit ''</title>''] (CHR ''<'' # ''/title>'' @ rest) ([] @ t) = Some t"
    by simp
  from cap_until_lt[OF t this]
  have "match_here [CapStarNot ''<'', Lit ''</title>''] (t @ ''</title>'' @ rest) [] = Some t"
    by simp
  then show ?thesis
    by (simp add: titlePattern_def)
qed

lemma title_element_value:
  assumes "\<not> sublist ''<title'' pre" and "CHR ''<'' \<notin> set t"
  shows "extractTag (pre @ ''<title>'' @ t @ ''</title>'' @ rest) titlePattern = t"
proof -
  have m: "match_here (Lit (CHR ''<'' # ''title'') # tl titlePattern)
      (CHR ''<'' # ''title>'' @ t @ ''</title>'' @ rest) [] = Some t"
    using title_element_match[OF assms(2), of rest] by (simp add: titlePattern_def)
  have "extractTag (pre @ CHR ''<'' # ''title>'' @ t @ ''</title>'' @ rest)
      (Lit (CHR ''<'' # ''title'') # tl titlePattern) = t"
    using assms(1) by (intro extractTag_hit_past[OF _ _ m]) simp_all
  then show ?thesis
    by (simp add: titlePattern_def)
qed

lemma FSS_hit: "match_here re s [] = Some c \<Longrightarrow> FindStringSubmatch re s = Some c"
  by (cases s) (simp_all add: FSS_Nil FSS_Cons)

lemma keyText_no_gt: "keyText key \<Longrightarrow> CHR ''>'' \<notin> set key"
  using keyText_facts[of key] by (simp add: attrText_iff)

lemma property_tag_value:
  assumes pre: "tagsClosed pre" "\<not> marked ''property='' key pre"
    and k: "keyText key" and s: "attrText s" "s \<noteq> []" "\<not> suffix ''content='' s"
    and p: "p1 \<in> set quotes" "p2 \<in> set quotes" "p3 \<in> set quotes" "p4 \<in> set quotes"
    and n: "\<not> marked ''name='' key
        (pre @ ''<meta property='' @ p1 # key @ p2 # '' content='' @ p3 # s @ p4 # ''>'' @ rest)"
  shows "extractMetaContent
      (pre @ ''<meta property='' @ p1 # key @ p2 # '' content='' @ p3 # s @ p4 # ''>'' @ rest)
      key = s"
proof -
  let ?doc = "pre @ ''<meta property='' @ p1 # key @ p2 # '' content='' @ p3 # s @ p4 # ''>'' @ rest"
  let ?tag = "''<meta'' @ seg '' property='' p1 (seg key p2 (seg '' content='' p3 (seg s p4 (''>'' @ rest))))"
  have doc: "?doc = pre @ ?tag"
    by (simp add: seg_def)
  have one: "extractTag ?doc (pattern1 key) = []"
    by (rule name_marker_absent[OF n])
  have "FindStringSubmatch (pattern2 key) (pre @ ?tag) = FindStringSubmatch (pattern2 key) ?tag"
    unfolding pattern2_def
    by (rule FSS_skip_closed[OF _ keyText_no_gt[OF k] pre]) simp
  also have "\<dots> = Some s"
    by (rule FSS_hit[OF property_tag_pattern2[OF p k s(1,3)]])
  finally have two: "extractTag ?doc (pattern2 key) = s"
    unfolding doc by (simp add: extractTag_def)
  from one two s(2) show ?thesis
    by (simp add: extractMetaContent_def)
qed

lemma name_tag_value:
  assumes pre: "tagsClosed pre" "\<not> marked ''name='' key pre"
    and k: "keyText key" and g: "attrText g" "g \<noteq> []" "\<not> suffix ''content='' g"
    and q: "q1 \<in> set quotes" "q2 \<in> set quotes" "q3 \<in> set quotes" "q4 \<in> set quotes"
  shows "extractMetaContent
      (pre @ ''<meta name='' @ q1 # key @ q2 # '' content='' @ q3 # g @ q4 # ''>'' @ rest)
      key = g"
proof -
  let ?doc = "pre @ ''<meta name='' @ q1 # key @ q2 # '' content='' @ q3 # g @ q4 # ''>'' @ rest"
  let ?tag = "''<meta'' @ seg '' name='' q1 (seg key q2 (seg '' content='' q3 (seg g q4 (''>'' @ rest))))"
  have doc: "?doc = pre @ ?tag"
    by (simp add: seg_def)
  note kf = keyText_facts[OF k]
  have m: "match_here (pattern1 key) ?tag [] = Some g"
    using q kf g by (intro name_tag_pattern1) simp_all
  have "FindStringSubmatch (pattern1 key) (pre @ ?tag) = FindStringSubmatch (pattern1 key) ?tag"
    unfolding pattern1_def
    by (rule FSS_skip_closed[OF _ keyText_no_gt[OF k] pre]) simp
  also have "\<dots> = Some g"
    by (rule FSS_hit[OF m])
  finally have "extractTag ?doc (pattern1 key) = g"
    unfolding doc by (simp add: extractTag_def)
  with g(2) show ?thesis
    by (simp add: extractMetaContent_def)
qed

subsection \<open>Precedence of the sources of a field\<close>

lemma Description_sources:
  "Description (extractMetadata U html r) =
     (if extractMetaContent (ToLower U html) ''og:description'' \<noteq> []
      then TrimSpace (extractMetaContent (ToLower U html) ''og:description'')
      else if extractMetaContent (ToLower U html) ''description'' \<noteq> []
      then TrimSpace (extractMetaContent (ToLower U html) ''description'')
      else Description r)"
  by (simp add: extractMetadata_def Let_def setTitle_def setDescription_def setImage_def
      setSiteName_def)

lemma Title_sources:
  "Title (extractMetadata U html r) =
     (if extractMetaContent (ToLower U html) ''og:title'' \<noteq> []
      then TrimSpace (extractMetaContent (ToLower U html) ''og:title'')
      else if extractTag html titlePattern \<noteq> []
      then TrimSpace (extractTag html titlePattern)
      else Title r)"
  by (simp add: extractMetadata_def Let_def setTitle_def setDescription_def setImage_def
      setSiteName_def)

lemma description_keys:
  "keyText ''description''" "keyText ''og:description''" "''description'' \<noteq> ''og:description''"
  by (simp_all add: keyText_def quotes_def dquote_def squote_def)

lemma field_keys:
  "keyText ''og:title''" "keyText ''og:description''" "keyText ''og:image''"
  "keyText ''og:site_name''" "keyText ''description''"
  by (simp_all add: keyText_def quotes_def dquote_def squote_def)

lemma social_first:
  assumes "attrText s \<and> s \<noteq> [] \<and> \<not> suffix ''content='' s \<and>
    p1 \<in> set quotes \<and> p2 \<in> set quotes \<and> p3 \<in> set quotes \<and> p4 \<in> set quotes \<and>
    tagsClosed pre \<and> \<not> marked ''property='' key pre \<and> keyText key \<and>
    \<not> marked ''name='' key doc \<and>
    doc = pre @ ''<meta property='' @ p1 # key @ p2 # '' content='' @ p3 # s @ p4 # ''>'' @ rest"
  shows "extractMetaContent doc key = s"
proof -
  let ?doc = "pre @ ''<meta property='' @ p1 # key @ p2 # '' content='' @ p3 # s @ p4 # ''>'' @ rest"
  from assms have low: "doc = ?doc" by blast
  from assms have n: "\<not> marked ''name='' key ?doc"
    unfolding low by blast
  have "extractMetaContent ?doc key = s"
    using assms by (intro property_tag_value[OF _ _ _ _ _ _ _ _ _ _ n]) blast+
  then show ?thesis
    unfolding low .
qed



lemma generic_alone:
  assumes "attrText g \<and> g \<noteq> [] \<and> \<not> suffix ''content='' g \<and>
    q1 \<in> set quotes \<and> q2 \<in> set quotes \<and> q3 \<in> set quotes \<and> q4 \<in> set quotes \<and>
    tagsClosed pre \<and> \<not> marked ''name='' ''description'' pre \<and>
    \<not> sublist ''og:description'' (ToLower U html) \<and>
    ToLower U html =
      pre @ ''<meta name='' @ q1 # ''description'' @ q2 # '' content='' @ q3 # g @ q4 # ''>'' @
      rest"
  shows "Description (extractMetadata U html r) = TrimSpace g"
proof -
  let ?doc = "pre @ ''<meta name='' @ q1 # ''description'' @ q2 # '' content='' @ q3 # g @ q4 # ''>'' @
      rest"
  from assms have low: "ToLower U html = ?doc" by blast
  from assms have "extractMetaContent (ToLower U html) ''og:description'' = []"
    by (intro key_absent) blast
  moreover have "extractMetaContent ?doc ''description'' = g"
    using assms by (intro name_tag_value[OF _ _ field_keys(5)]) blast+
  ultimately show ?thesis
    using assms by (simp add: Description_sources low)
qed

lemma title_alone:
  assumes "\<not> sublist ''<title'' pre \<and> CHR ''<'' \<notin> set t \<and> t \<noteq> [] \<and>
    \<not> sublist ''og:title'' (ToLower U html) \<and>
    html = pre @ ''<title>'' @ t @ ''</title>'' @ rest"
  shows "Title (extractMetadata U html r) = TrimSpace t"
proof -
  from assms have h: "html = pre @ ''<title>'' @ t @ ''</title>'' @ rest" by blast
  from assms have "extractMetaContent (ToLower U html) ''og:title'' = []"
    by (intro key_absent) blast
  moreover have "extractTag html titlePattern = t"
    unfolding h using assms by (intro title_element_value) blast+
  ultimately show ?thesis
    using assms by (simp add: Title_sources)
qed




subsection \<open>Letter case of the values\<close>

lemma lowerByte_code:
  "(of_char (lowerByte c) :: nat) = (if isUpperByte c then of_char c + 32 else of_char c)"
  by (simp add: lowerByte_def isUpperByte_def)

lemma lowerByte_no_upper: "\<not> isUpperByte (lowerByte c)"
  unfolding isUpperByte_def[of "lowerByte c"] lowerByte_code
  by (auto simp: isUpperByte_def)

lemma noUpper_lowered: "noUpper (map lowerByte s)"
  by (simp add: noUpper_def list_all_iff lowerByte_no_upper)

lemma noUpper_ToLower: "isASCII html \<or> noUpper (U html) \<Longrightarrow> noUpper (ToLower U html)"
  by (auto simp: ToLower_def noUpper_lowered)

lemma noUpper_sublist: "sublist xs ys \<Longrightarrow> noUpper ys \<Longrightarrow> noUpper xs"
  unfolding noUpper_def by (rule sublist_list_all)

lemma lowerByte_plain:
  "c \<notin> set (CHR ''<'' # CHR ''>'' # quotes) \<Longrightarrow> lowerByte c \<notin> set (CHR ''<'' # CHR ''>'' # quotes)"
proof (cases "isUpperByte c")
  case False
  assume "c \<notin> set (CHR ''<'' # CHR ''>'' # quotes)"
  with False show ?thesis by (simp add: lowerByte_def)
next
  case True
  then have "(97::nat) \<le> of_char (lowerByte c)"
    unfolding lowerByte_code by (simp add: isUpperByte_def)
  moreover have "(of_char x :: nat) < 97" if "x \<in> set (CHR ''<'' # CHR ''>'' # quotes)" for x
    using that by (auto simp: quotes_def dquote_def squote_def)
  ultimately show ?thesis
    by fastforce
qed

lemma attrText_lower: "attrText v \<Longrightarrow> attrText (map lowerByte v)"
  using lowerByte_plain by (auto simp: attrText_def list_all_iff)

lemma Image_sources:
  "Image (extractMetadata U html r) =
     (if extractMetaContent (ToLower U html) ''og:image'' \<noteq> []
      then TrimSpace (extractMetaContent (ToLower U html) ''og:image'')
      else Image r)"
  by (simp add: extractMetadata_def Let_def setTitle_def setDescription_def setImage_def
      setSiteName_def)

lemma SiteName_sources:
  "SiteName (extractMetadata U html r) =
     (if extractMetaContent (ToLower U html) ''og:site_name'' \<noteq> []
      then TrimSpace (extractMetaContent (ToLower U html) ''og:site_name'')
      else SiteName r)"
  by (simp add: extractMetadata_def Let_def setTitle_def setDescription_def setImage_def
      setSiteName_def)

lemma empty_fields:
  "Title (emptyResponse\<lparr>URL := u\<rparr>) = []" "Description (emptyResponse\<lparr>URL := u\<rparr>) = []"
  "Image (emptyResponse\<lparr>URL := u\<rparr>) = []" "SiteName (emptyResponse\<lparr>URL := u\<rparr>) = []"
  by (simp_all add: emptyResponse_def)

lemma lowered_property_tag:
  assumes "html = pre @ T1 @ v @ T2 @ rest \<and> ToLower U html = map lowerByte html \<and>
    map lowerByte T1 = ''<meta property='' @ p1 # key @ p2 # '' content='' @ [p3] \<and>
    map lowerByte T2 = p4 # ''>'' \<and>
    p1 \<in> set quotes \<and> p2 \<in> set quotes \<and> p3 \<in> set quotes \<and> p4 \<in> set quotes \<and>
    keyText key \<and> attrText v \<and> v \<noteq> [] \<and> \<not> suffix ''content='' (map lowerByte v) \<and>
    tagsClosed (map lowerByte pre) \<and> \<not> marked ''property='' key (map lowerByte pre) \<and>
    \<not> marked ''name='' key (ToLower U html)"
  shows "extractMetaContent (ToLower U html) key = map lowerByte v"
proof -
  from assms have h: "html = pre @ T1 @ v @ T2 @ rest" and l: "ToLower U html = map lowerByte html"
    and t1: "map lowerByte T1 = ''<meta property='' @ p1 # key @ p2 # '' content='' @ [p3]"
    and t2: "map lowerByte T2 = p4 # ''>''"
    by blast+
  have low: "ToLower U html =
      map lowerByte pre @ ''<meta property='' @ p1 # key @ p2 # '' content='' @ p3 #
      map lowerByte v @ p4 # ''>'' @ map lowerByte rest"
  proof -
    have "map lowerByte html = map lowerByte pre @ map lowerByte T1 @ map lowerByte v @
        map lowerByte T2 @ map lowerByte rest"
      unfolding h by simp
    then show ?thesis
      unfolding l t1 t2 by simp
  qed
  from assms have "attrText (map lowerByte v)" "map lowerByte v \<noteq> []"
    by (simp_all add: attrText_lower)
  with assms low have "attrText (map lowerByte v) \<and> map lowerByte v \<noteq> [] \<and>
    \<not> suffix ''content='' (map lowerByte v) \<and>
    p1 \<in> set quotes \<and> p2 \<in> set quotes \<and> p3 \<in> set quotes \<and> p4 \<in> set quotes \<and>
    tagsClosed (map lowerByte pre) \<and> \<not> marked ''property='' key (map lowerByte pre) \<and>
    keyText key \<and> \<not> marked ''name='' key (ToLower U html) \<and>
    ToLower U html =
      map lowerByte pre @ ''<meta property='' @ p1 # key @ p2 # '' content='' @ p3 #
      map lowerByte v @ p4 # ''>'' @ map lowerByte rest"
    by blast
  then show ?thesis by (rule social_first)
qed

lemma lowered_fields:
  assumes "html = pre @ T1 @ v @ T2 @ rest \<and> ToLower U html = map lowerByte html \<and>
    map lowerByte T1 = ''<meta property='' @ p1 # key @ p2 # '' content='' @ [p3] \<and>
    map lowerByte T2 = p4 # ''>'' \<and>
    p1 \<in> set quotes \<and> p2 \<in> set quotes \<and> p3 \<in> set quotes \<and> p4 \<in> set quotes \<and>
    keyText key \<and> attrText v \<and> v \<noteq> [] \<and> \<not> suffix ''content='' (map lowerByte v) \<and>
    tagsClosed (map lowerByte pre) \<and> \<not> marked ''property='' key (map lowerByte pre) \<and>
    \<not> marked ''name='' key (ToLower U html)"
  shows "key = ''og:title'' \<Longrightarrow> Title (extractMetadata U html r) = TrimSpace (map lowerByte v)"
    and "key = ''og:description'' \<Longrightarrow>
      Description (extractMetadata U html r) = TrimSpace (map lowerByte v)"
    and "key = ''og:image'' \<Longrightarrow> Image (extractMetadata U html r) = TrimSpace (map lowerByte v)"
    and "key = ''og:site_name'' \<Longrightarrow>
      SiteName (extractMetadata U html r) = TrimSpace (map lowerByte v)"
proof -
  note c = lowered_property_tag[OF assms]
  from assms have v: "map lowerByte v \<noteq> []" by simp
  show "Title (extractMetadata U html r) = TrimSpace (map lowerByte v)" if "key = ''og:title''"
    using c v unfolding that by (simp only: Title_sources if_True simp_thms)
  show "Description (extractMetadata U html r) = TrimSpace (map lowerByte v)"
    if "key = ''og:description''"
    using c v unfolding that by (simp only: Description_sources if_True simp_thms)
  show "Image (extractMetadata U html r) = TrimSpace (map lowerByte v)" if "key = ''og:image''"
    using c v unfolding that by (simp only: Image_sources if_True simp_thms)
  show "SiteName (extractMetadata U html r) = TrimSpace (map lowerByte v)"
    if "key = ''og:site_name''"
    using c v unfolding that by (simp only: SiteName_sources if_True simp_thms)
qed

lemma lowered_description_tag:
  assumes "html = pre @ T1 @ v @ T2 @ rest \<and> ToLower U html = map lowerByte html \<and>
    map lowerByte T1 = ''<meta name='' @ q1 # ''description'' @ q2 # '' content='' @ [q3] \<and>
    map lowerByte T2 = q4 # ''>'' \<and>
    q1 \<in> set quotes \<and> q2 \<in> set quotes \<and> q3 \<in> set quotes \<and> q4 \<in> set quotes \<and>
    attrText v \<and> v \<noteq> [] \<and> \<not> suffix ''content='' (map lowerByte v) \<and>
    tagsClosed (map lowerByte pre) \<and> \<not> marked ''name='' ''description'' (map lowerByte pre) \<and>
    \<not> sublist ''og:description'' (ToLower U html)"
  shows "Description (extractMetadata U html r) = TrimSpace (map lowerByte v)"
proof -
  from assms have h: "html = pre @ T1 @ v @ T2 @ rest" and l: "ToLower U html = map lowerByte html"
    and t1: "map lowerByte T1 = ''<meta name='' @ q1 # ''description'' @ q2 # '' content='' @ [q3]"
    and t2: "map lowerByte T2 = q4 # ''>''"
    by blast+
  have low: "ToLower U html =
      map lowerByte pre @ ''<meta name='' @ q1 # ''description'' @ q2 # '' content='' @ q3 #
      map lowerByte v @ q4 # ''>'' @ map lowerByte rest"
  proof -
    have "map lowerByte html = map lowerByte pre @ map lowerByte T1 @ map lowerByte v @
        map lowerByte T2 @ map lowerByte rest"
      unfolding h by simp
    then show ?thesis
      unfolding l t1 t2 by simp
  qed
  from assms have "attrText (map lowerByte v)" "map lowerByte v \<noteq> []"
    by (simp_all add: attrText_lower)
  with assms low have "attrText (map lowerByte v) \<and> map lowerByte v \<noteq> [] \<and>
    \<not> suffix ''content='' (map lowerByte v) \<and>
    q1 \<in> set quotes \<and> q2 \<in> set quotes \<and> q3 \<in> set quotes \<and> q4 \<in> set quotes \<and>
    tagsClosed (map lowerByte pre) \<and> \<not> marked ''name='' ''description'' (map lowerByte pre) \<and>
    \<not> sublist ''og:description'' (ToLower U html) \<and>
    ToLower U html =
      map lowerByte pre @ ''<meta name='' @ q1 # ''description'' @ q2 # '' content='' @ q3 #
      map lowerByte v @ q4 # ''>'' @ map lowerByte rest"
    by blast
  then show ?thesis by (rule generic_alone)
qed

lemma fields_in_lowered:
  "sublist (Description (extractMetadata U html (emptyResponse\<lparr>URL := u\<rparr>))) (ToLower U html)"
  "sublist (Image (extractMetadata U html (emptyResponse\<lparr>URL := u\<rparr>))) (ToLower U html)"
  "sublist (SiteName (extractMetadata U html (emptyResponse\<lparr>URL := u\<rparr>))) (ToLower U html)"
  "extractMetaContent (ToLower U html) ''og:title'' \<noteq> [] \<Longrightarrow>
   sublist (Title (extractMetadata U html (emptyResponse\<lparr>URL := u\<rparr>))) (ToLower U html)"
  "extractMetaContent (ToLower U html) ''og:title'' = [] \<Longrightarrow>
   sublist (Title (extractMetadata U html (emptyResponse\<lparr>URL := u\<rparr>))) html"
proof -
  let ?r = "extractMetadata U html (emptyResponse\<lparr>URL := u\<rparr>)"
  let ?low = "ToLower U html"
  show "sublist (Description ?r) ?low"
    using Description_cases[of U html u] by (auto simp: TrimSpace_extract_sublist)
  show "sublist (Image ?r) ?low"
    using Image_cases[of U html u] by (auto simp: TrimSpace_extract_sublist)
  show "sublist (SiteName ?r) ?low"
    using SiteName_cases[of U html u] by (auto simp: TrimSpace_extract_sublist)
  show "extractMetaContent ?low ''og:title'' \<noteq> [] \<Longrightarrow> sublist (Title ?r) ?low"
    by (simp add: Title_cases TrimSpace_extract_sublist)
  have "sublist (TrimSpace (extractTag html titlePattern)) html"
    by (rule sublist_trans[OF TrimSpace_sublist extractTag_sublist]) (simp add: caps_patterns)
  then show "extractMetaContent ?low ''og:title'' = [] \<Longrightarrow> sublist (Title ?r) html"
    by (simp add: Title_cases)
qed

lemma fields_no_upper:
  assumes "isASCII html \<or> noUpper (U html)"
  shows "noUpper (ToLower U html) \<and>
    noUpper (Description (extractMetadata U html (emptyResponse\<lparr>URL := u\<rparr>))) \<and>
    noUpper (Image (extractMetadata U html (emptyResponse\<lparr>URL := u\<rparr>))) \<and>
    noUpper (SiteName (extractMetadata U html (emptyResponse\<lparr>URL := u\<rparr>))) \<and>
    (extractMetaContent (ToLower U html) ''og:title'' \<noteq> [] \<longrightarrow>
       noUpper (Title (extractMetadata U html (emptyResponse\<lparr>URL := u\<rparr>))))"
proof -
  note n = noUpper_ToLower[of html U, OF assms]
  show ?thesis
    using n noUpper_sublist[OF fields_in_lowered(1) n, of u]
      noUpper_sublist[OF fields_in_lowered(2) n, of u]
      noUpper_sublist[OF fields_in_lowered(3) n, of u]
      noUpper_sublist[OF fields_in_lowered(4) n, of u]
    by blast
qed

text \<open>
  C7. Every value taken from a meta tag is taken from the lowered copy of the document:
  the description, the image, the site name and the title are exactly the trimmed values
  that the patterns capture in \<open>ToLower(html)\<close> (the title only when \<open>og:title\<close> gives
  one), a captured value is the content of a meta tag of the lowered copy, and each of
  these fields is a piece of the lowered copy. So they have no upper-case letter \<open>A\<close> to
  \<open>Z\<close> whenever the lowered copy has none, which is the case for every ASCII document, and
  for any other document when the rune map of the library leaves none. On documents: for
  a tag written in any letter case whose value is \<open>v\<close>, the field is the lowered \<open>v\<close>,
  trimmed. The title taken from the title element is the content of that element in the
  document itself, in its original case.
\<close>

theorem meta_values_are_lowered:
  "Description (extractMetadata U html (emptyResponse\<lparr>URL := u\<rparr>)) =
     (if extractMetaContent (ToLower U html) ''og:description'' \<noteq> []
      then TrimSpace (extractMetaContent (ToLower U html) ''og:description'')
      else if extractMetaContent (ToLower U html) ''description'' \<noteq> []
      then TrimSpace (extractMetaContent (ToLower U html) ''description'')
      else []) \<and>
   Image (extractMetadata U html (emptyResponse\<lparr>URL := u\<rparr>)) =
     (if extractMetaContent (ToLower U html) ''og:image'' \<noteq> []
      then TrimSpace (extractMetaContent (ToLower U html) ''og:image'')
      else []) \<and>
   SiteName (extractMetadata U html (emptyResponse\<lparr>URL := u\<rparr>)) =
     (if extractMetaContent (ToLower U html) ''og:site_name'' \<noteq> []
      then TrimSpace (extractMetaContent (ToLower U html) ''og:site_name'')
      else []) \<and>
   Title (extractMetadata U html (emptyResponse\<lparr>URL := u\<rparr>)) =
     (if extractMetaContent (ToLower U html) ''og:title'' \<noteq> []
      then TrimSpace (extractMetaContent (ToLower U html) ''og:title'')
      else if extractTag html titlePattern \<noteq> []
      then TrimSpace (extractTag html titlePattern)
      else []) \<and>
   (extractMetaContent (ToLower U html) key \<noteq> [] \<longrightarrow>
      metaTagFor (ToLower U html) key (extractMetaContent (ToLower U html) key)) \<and>
   (extractTag html titlePattern \<noteq> [] \<longrightarrow>
      titleElementOf html (extractTag html titlePattern)) \<and>
   sublist (Description (extractMetadata U html (emptyResponse\<lparr>URL := u\<rparr>))) (ToLower U html) \<and>
   sublist (Image (extractMetadata U html (emptyResponse\<lparr>URL := u\<rparr>))) (ToLower U html) \<and>
   sublist (SiteName (extractMetadata U html (emptyResponse\<lparr>URL := u\<rparr>))) (ToLower U html) \<and>
   (if extractMetaContent (ToLower U html) ''og:title'' \<noteq> []
    then sublist (Title (extractMetadata U html (emptyResponse\<lparr>URL := u\<rparr>))) (ToLower U html)
    else sublist (Title (extractMetadata U html (emptyResponse\<lparr>URL := u\<rparr>))) html) \<and>
   (isASCII html \<longrightarrow> ToLower U html = map lowerByte html) \<and>
   (isASCII html \<or> noUpper (U html) \<longrightarrow>
      noUpper (ToLower U html) \<and>
      noUpper (Description (extractMetadata U html (emptyResponse\<lparr>URL := u\<rparr>))) \<and>
      noUpper (Image (extractMetadata U html (emptyResponse\<lparr>URL := u\<rparr>))) \<and>
      noUpper (SiteName (extractMetadata U html (emptyResponse\<lparr>URL := u\<rparr>))) \<and>
      (extractMetaContent (ToLower U html) ''og:title'' \<noteq> [] \<longrightarrow>
         noUpper (Title (extractMetadata U html (emptyResponse\<lparr>URL := u\<rparr>))))) \<and>
   (html = pre @ T1 @ v @ T2 @ rest \<and> ToLower U html = map lowerByte html \<and>
    map lowerByte T1 = ''<meta property='' @ p1 # key @ p2 # '' content='' @ [p3] \<and>
    map lowerByte T2 = p4 # ''>'' \<and>
    p1 \<in> set quotes \<and> p2 \<in> set quotes \<and> p3 \<in> set quotes \<and> p4 \<in> set quotes \<and>
    keyText key \<and> attrText v \<and> v \<noteq> [] \<and> \<not> suffix ''content='' (map lowerByte v) \<and>
    tagsClosed (map lowerByte pre) \<and> \<not> marked ''property='' key (map lowerByte pre) \<and>
    \<not> marked ''name='' key (ToLower U html) \<longrightarrow>
      extractMetaContent (ToLower U html) key = map lowerByte v \<and>
      (key = ''og:title'' \<longrightarrow>
         Title (extractMetadata U html (emptyResponse\<lparr>URL := u\<rparr>)) =
           TrimSpace (map lowerByte v)) \<and>
      (key = ''og:description'' \<longrightarrow>
         Description (extractMetadata U html (emptyResponse\<lparr>URL := u\<rparr>)) =
           TrimSpace (map lowerByte v)) \<and>
      (key = ''og:image'' \<longrightarrow>
         Image (extractMetadata U html (emptyResponse\<lparr>URL := u\<rparr>)) =
           TrimSpace (map lowerByte v)) \<and>
      (key = ''og:site_name'' \<longrightarrow>
         SiteName (extractMetadata U html (emptyResponse\<lparr>URL := u\<rparr>)) =
           TrimSpace (map lowerByte v))) \<and>
   (html = pre @ T1 @ v @ T2 @ rest \<and> ToLower U html = map lowerByte html \<and>
    map lowerByte T1 = ''<meta name='' @ q1 # ''description'' @ q2 # '' content='' @ [q3] \<and>
    map lowerByte T2 = q4 # ''>'' \<and>
    q1 \<in> set quotes \<and> q2 \<in> set quotes \<and> q3 \<in> set quotes \<and> q4 \<in> set quotes \<and>
    attrText v \<and> v \<noteq> [] \<and> \<not> suffix ''content='' (map lowerByte v) \<and>
    tagsClosed (map lowerByte pre) \<and> \<not> marked ''name='' ''description'' (map lowerByte pre) \<and>
    \<not> sublist ''og:description'' (ToLower U html) \<longrightarrow>
      Description (extractMetadata U html (emptyResponse\<lparr>URL := u\<rparr>)) =
        TrimSpace (map lowerByte v)) \<and>
   (\<not> sublist ''<title'' pre \<and> CHR ''<'' \<notin> set t \<and> t \<noteq> [] \<and>
    \<not> sublist ''og:title'' (ToLower U html) \<and>
    html = pre @ ''<title>'' @ t @ ''</title>'' @ rest \<longrightarrow>
      Title (extractMetadata U html (emptyResponse\<lparr>URL := u\<rparr>)) = TrimSpace t)"
  apply (intro conjI impI)
  subgoal by (simp only: Description_sources empty_fields)
  subgoal by (simp only: Image_sources empty_fields)
  subgoal by (simp only: SiteName_sources empty_fields)
  subgoal by (simp only: Title_sources empty_fields)
  subgoal by (rule extractMetaContent_shape)
  subgoal by (rule extractTag_title_shape)
  subgoal by (rule fields_in_lowered)
  subgoal by (rule fields_in_lowered)
  subgoal by (rule fields_in_lowered)
  subgoal
    by (cases "extractMetaContent (ToLower U html) ''og:title'' = []")
      (simp_all add: fields_in_lowered(4,5))
  subgoal by (simp add: ToLower_def)
  subgoal using fields_no_upper by blast
  subgoal using fields_no_upper by blast
  subgoal using fields_no_upper by blast
  subgoal using fields_no_upper by blast
  subgoal using fields_no_upper by blast
  subgoal by (rule lowered_property_tag)
  subgoal by (rule lowered_fields(1))
  subgoal by (rule lowered_fields(2))
  subgoal by (rule lowered_fields(3))
  subgoal by (rule lowered_fields(4))
  subgoal by (rule lowered_description_tag)
  subgoal by (rule title_alone)
  done

theorem meta_values_are_lowered_witness:
  \<open>isASCII ''<title>My Page</title><META Property="og:image" Content="https://CDN.example.com/Pic.PNG">'' \<and>
   Image (extractMetadata (map lowerByte)
     ''<title>My Page</title><META Property="og:image" Content="https://CDN.example.com/Pic.PNG">''
     (emptyResponse\<lparr>URL := ''https://example.com''\<rparr>)) = ''https://cdn.example.com/pic.png'' \<and>
   noUpper (Image (extractMetadata (map lowerByte)
     ''<title>My Page</title><META Property="og:image" Content="https://CDN.example.com/Pic.PNG">''
     (emptyResponse\<lparr>URL := ''https://example.com''\<rparr>))) \<and>
   metaTagFor
     (ToLower (map lowerByte)
        ''<title>My Page</title><META Property="og:image" Content="https://CDN.example.com/Pic.PNG">'')
     ''og:image'' ''https://cdn.example.com/pic.png'' \<and>
   Title (extractMetadata (map lowerByte)
     ''<title>My Page</title><META Property="og:image" Content="https://CDN.example.com/Pic.PNG">''
     (emptyResponse\<lparr>URL := ''https://example.com''\<rparr>)) = ''My Page'' \<and>
   titleElementOf
     ''<title>My Page</title><META Property="og:image" Content="https://CDN.example.com/Pic.PNG">''
     ''My Page'' \<and>
   sublist (Title (extractMetadata (map lowerByte)
     ''<title>My Page</title><META Property="og:image" Content="https://CDN.example.com/Pic.PNG">''
     (emptyResponse\<lparr>URL := ''https://example.com''\<rparr>)))
     ''<title>My Page</title><META Property="og:image" Content="https://CDN.example.com/Pic.PNG">'' \<and>
   \<not> isASCII (''<META PROPERTY="og:site_name" CONTENT="Caf'' @ [CHR 0xC3, CHR 0xA9] @ '' Noir">'') \<and>
   noUpper (map lowerByte
     (''<META PROPERTY="og:site_name" CONTENT="Caf'' @ [CHR 0xC3, CHR 0xA9] @ '' Noir">'')) \<and>
   SiteName (extractMetadata (map lowerByte)
     (''<META PROPERTY="og:site_name" CONTENT="Caf'' @ [CHR 0xC3, CHR 0xA9] @ '' Noir">'')
     (emptyResponse\<lparr>URL := ''https://example.com''\<rparr>)) =
     ''caf'' @ [CHR 0xC3, CHR 0xA9] @ '' noir'' \<and>
   noUpper (SiteName (extractMetadata (map lowerByte)
     (''<META PROPERTY="og:site_name" CONTENT="Caf'' @ [CHR 0xC3, CHR 0xA9] @ '' Noir">'')
     (emptyResponse\<lparr>URL := ''https://example.com''\<rparr>))) \<and>
   Title (extractMetadata (map lowerByte)
     ''<title>My Page</title><meta property="og:title" content="Big News">''
     (emptyResponse\<lparr>URL := ''https://example.com''\<rparr>)) = ''big news'' \<and>
   noUpper (Title (extractMetadata (map lowerByte)
     ''<title>My Page</title><meta property="og:title" content="Big News">''
     (emptyResponse\<lparr>URL := ''https://example.com''\<rparr>))) \<and>
   sublist (Title (extractMetadata (map lowerByte)
     ''<title>My Page</title><meta property="og:title" content="Big News">''
     (emptyResponse\<lparr>URL := ''https://example.com''\<rparr>)))
     (ToLower (map lowerByte) ''<title>My Page</title><meta property="og:title" content="Big News">'') \<and>
   Description (extractMetadata (map lowerByte)
     ''<meta property="og:description" content="Hello World">''
     (emptyResponse\<lparr>URL := ''https://example.com''\<rparr>)) = ''hello world'' \<and>
   Description (extractMetadata (map lowerByte)
     ''<META NAME="Description" CONTENT="Plain Words">''
     (emptyResponse\<lparr>URL := ''https://example.com''\<rparr>)) = ''plain words''\<close>
proof -
  let ?U = "map lowerByte"
  let ?r = "emptyResponse\<lparr>URL := ''https://example.com''\<rparr>"
  let ?W1 = \<open>''<title>My Page</title><META Property="og:image" Content="https://CDN.example.com/Pic.PNG">''\<close>
  let ?W2 = \<open>''<META PROPERTY="og:site_name" CONTENT="Caf'' @ [CHR 0xC3, CHR 0xA9] @ '' Noir">''\<close>
  let ?W3 = \<open>''<title>My Page</title><meta property="og:title" content="Big News">''\<close>
  let ?W4 = \<open>''<meta property="og:description" content="Hello World">''\<close>
  let ?W5 = \<open>''<META NAME="Description" CONTENT="Plain Words">''\<close>
  let ?close = \<open>''">''\<close>
  note rest4 = meta_values_are_lowered[THEN conjunct2, THEN conjunct2, THEN conjunct2,
      THEN conjunct2]
  note shape = rest4[THEN conjunct1, THEN mp]
  note titleShape = rest4[THEN conjunct2, THEN conjunct1, THEN mp]
  note rest9 = rest4[THEN conjunct2, THEN conjunct2, THEN conjunct2, THEN conjunct2,
      THEN conjunct2]
  note titlePiece = rest9[THEN conjunct1]
  note ascii = rest9[THEN conjunct2, THEN conjunct1, THEN mp]
  note rest11 = rest9[THEN conjunct2, THEN conjunct2]
  note upper = rest11[THEN conjunct1, THEN mp]
  note tag = rest11[THEN conjunct2, THEN conjunct1, THEN mp]
  note desc = rest11[THEN conjunct2, THEN conjunct2, THEN conjunct1, THEN mp]
  note titleAlone = rest11[THEN conjunct2, THEN conjunct2, THEN conjunct2, THEN mp]
  have t: "TrimSpace (map lowerByte ''https://CDN.example.com/Pic.PNG'') =
      ''https://cdn.example.com/pic.png''"
    "TrimSpace ''My Page'' = ''My Page''"
    "TrimSpace (map lowerByte (''Caf'' @ [CHR 0xC3, CHR 0xA9] @ '' Noir'')) =
      ''caf'' @ [CHR 0xC3, CHR 0xA9] @ '' noir''"
    "TrimSpace (map lowerByte ''Big News'') = ''big news''"
    "TrimSpace (map lowerByte ''Hello World'') = ''hello world''"
    "TrimSpace (map lowerByte ''Plain Words'') = ''plain words''"
    by code_simp+
  have m: "map lowerByte ''https://CDN.example.com/Pic.PNG'' = ''https://cdn.example.com/pic.png''"
    by code_simp
  have a1: "isASCII ?W1"
    by code_simp
  note l1 = ascii[OF a1, of ?U]
  have h1: \<open>?W1 = ''<title>My Page</title>'' @ ''<META Property="og:image" Content="'' @
      ''https://CDN.example.com/Pic.PNG'' @ ?close @ [] \<and>
    ToLower ?U ?W1 = map lowerByte ?W1 \<and>
    map lowerByte ''<META Property="og:image" Content="'' =
      ''<meta property='' @ dquote # ''og:image'' @ dquote # '' content='' @ [dquote] \<and>
    map lowerByte ?close = dquote # ''>'' \<and>
    dquote \<in> set quotes \<and> dquote \<in> set quotes \<and> dquote \<in> set quotes \<and> dquote \<in> set quotes \<and>
    keyText ''og:image'' \<and> attrText ''https://CDN.example.com/Pic.PNG'' \<and>
    ''https://CDN.example.com/Pic.PNG'' \<noteq> [] \<and>
    \<not> suffix ''content='' (map lowerByte ''https://CDN.example.com/Pic.PNG'') \<and>
    tagsClosed (map lowerByte ''<title>My Page</title>'') \<and>
    \<not> marked ''property='' ''og:image'' (map lowerByte ''<title>My Page</title>'') \<and>
    \<not> marked ''name='' ''og:image'' (ToLower ?U ?W1)\<close>
    by (intro conjI l1; code_simp)
  note f1 = tag[OF h1]
  have i1: "Image (extractMetadata ?U ?W1 ?r) = ''https://cdn.example.com/pic.png''"
    using f1[THEN conjunct2, THEN conjunct2, THEN conjunct2, THEN conjunct1, THEN mp, OF refl,
        of "''https://example.com''"]
    unfolding t .
  have c1: "extractMetaContent (ToLower ?U ?W1) ''og:image'' = ''https://cdn.example.com/pic.png''"
    using f1[THEN conjunct1] unfolding m .
  then have c1': "extractMetaContent (ToLower ?U ?W1) ''og:image'' \<noteq> []"
    by simp
  have s1: "metaTagFor (ToLower ?U ?W1) ''og:image'' ''https://cdn.example.com/pic.png''"
    using shape[OF c1'] unfolding c1 .
  have u1: "noUpper (Image (extractMetadata ?U ?W1 ?r))"
    by (rule upper[OF disjI1[OF a1], THEN conjunct2, THEN conjunct2, THEN conjunct1])
  have o1: "\<not> sublist ''og:title'' (ToLower ?U ?W1)"
    by code_simp
  have g1: \<open>\<not> sublist ''<title'' [] \<and> CHR ''<'' \<notin> set ''My Page'' \<and> ''My Page'' \<noteq> [] \<and>
    \<not> sublist ''og:title'' (ToLower ?U ?W1) \<and>
    ?W1 = [] @ ''<title>'' @ ''My Page'' @ ''</title>'' @
      ''<META Property="og:image" Content="https://CDN.example.com/Pic.PNG">''\<close>
    by (intro conjI o1; code_simp)
  have t1: "Title (extractMetadata ?U ?W1 ?r) = ''My Page''"
    using titleAlone[OF g1, of "''https://example.com''"] unfolding t .
  have e1: "extractTag ?W1 titlePattern = ''My Page''"
    by code_simp
  then have e1': "extractTag ?W1 titlePattern \<noteq> []"
    by simp
  have ts1: "titleElementOf ?W1 ''My Page''"
    using titleShape[OF e1'] unfolding e1 .
  have og1: "extractMetaContent (ToLower ?U ?W1) ''og:title'' = []"
    by code_simp
  have p1: "sublist (Title (extractMetadata ?U ?W1 ?r)) ?W1"
    using titlePiece[of ?U ?W1 "''https://example.com''"] unfolding og1 by simp
  have a2: "\<not> isASCII ?W2"
    by code_simp
  have n2: "noUpper (?U ?W2)"
    by code_simp
  note T2 = meta_values_are_lowered[where U = ?U and html = ?W2 and u = "''https://example.com''"]
  note T2rest = T2[THEN conjunct2, THEN conjunct2, THEN conjunct2, THEN conjunct2,
      THEN conjunct2, THEN conjunct2, THEN conjunct2, THEN conjunct2, THEN conjunct2,
      THEN conjunct2, THEN conjunct2]
  have u2: "noUpper (SiteName (extractMetadata ?U ?W2 ?r))"
    by (rule T2rest[THEN conjunct1, THEN mp, OF disjI2[OF n2], THEN conjunct2, THEN conjunct2,
          THEN conjunct2, THEN conjunct1])
  have h2: \<open>?W2 = [] @ ''<META PROPERTY="og:site_name" CONTENT="'' @
      (''Caf'' @ [CHR 0xC3, CHR 0xA9] @ '' Noir'') @ ?close @ [] \<and>
    ToLower ?U ?W2 = map lowerByte ?W2 \<and>
    map lowerByte ''<META PROPERTY="og:site_name" CONTENT="'' =
      ''<meta property='' @ dquote # ''og:site_name'' @ dquote # '' content='' @ [dquote] \<and>
    map lowerByte ?close = dquote # ''>'' \<and>
    dquote \<in> set quotes \<and> dquote \<in> set quotes \<and> dquote \<in> set quotes \<and> dquote \<in> set quotes \<and>
    keyText ''og:site_name'' \<and> attrText (''Caf'' @ [CHR 0xC3, CHR 0xA9] @ '' Noir'') \<and>
    ''Caf'' @ [CHR 0xC3, CHR 0xA9] @ '' Noir'' \<noteq> [] \<and>
    \<not> suffix ''content='' (map lowerByte (''Caf'' @ [CHR 0xC3, CHR 0xA9] @ '' Noir'')) \<and>
    tagsClosed (map lowerByte []) \<and>
    \<not> marked ''property='' ''og:site_name'' (map lowerByte []) \<and>
    \<not> marked ''name='' ''og:site_name'' (ToLower ?U ?W2)\<close>
    by (intro conjI; code_simp)
  have s2: "SiteName (extractMetadata ?U ?W2 ?r) = ''caf'' @ [CHR 0xC3, CHR 0xA9] @ '' noir''"
    using tag[OF h2, THEN conjunct2, THEN conjunct2, THEN conjunct2, THEN conjunct2, THEN mp,
        OF refl, of "''https://example.com''"]
    unfolding t .
  have a3: "isASCII ?W3"
    by code_simp
  note l3 = ascii[OF a3, of ?U]
  have h3: \<open>?W3 = ''<title>My Page</title>'' @ ''<meta property="og:title" content="'' @
      ''Big News'' @ ?close @ [] \<and>
    ToLower ?U ?W3 = map lowerByte ?W3 \<and>
    map lowerByte ''<meta property="og:title" content="'' =
      ''<meta property='' @ dquote # ''og:title'' @ dquote # '' content='' @ [dquote] \<and>
    map lowerByte ?close = dquote # ''>'' \<and>
    dquote \<in> set quotes \<and> dquote \<in> set quotes \<and> dquote \<in> set quotes \<and> dquote \<in> set quotes \<and>
    keyText ''og:title'' \<and> attrText ''Big News'' \<and> ''Big News'' \<noteq> [] \<and>
    \<not> suffix ''content='' (map lowerByte ''Big News'') \<and>
    tagsClosed (map lowerByte ''<title>My Page</title>'') \<and>
    \<not> marked ''property='' ''og:title'' (map lowerByte ''<title>My Page</title>'') \<and>
    \<not> marked ''name='' ''og:title'' (ToLower ?U ?W3)\<close>
    by (intro conjI l3; code_simp)
  note f3 = tag[OF h3]
  have t3: "Title (extractMetadata ?U ?W3 ?r) = ''big news''"
    using f3[THEN conjunct2, THEN conjunct1, THEN mp, OF refl, of "''https://example.com''"]
    unfolding t .
  have c3: "extractMetaContent (ToLower ?U ?W3) ''og:title'' \<noteq> []"
    unfolding f3[THEN conjunct1] by simp
  have u3: "noUpper (Title (extractMetadata ?U ?W3 ?r))"
    by (rule upper[OF disjI1[OF a3], THEN conjunct2, THEN conjunct2, THEN conjunct2,
          THEN conjunct2, THEN mp, OF c3])
  have p3: "sublist (Title (extractMetadata ?U ?W3 ?r)) (ToLower ?U ?W3)"
    using titlePiece[of ?U ?W3 "''https://example.com''"] c3 by simp
  have a4: "isASCII ?W4"
    by code_simp
  note l4 = ascii[OF a4, of ?U]
  have h4: \<open>?W4 = [] @ ''<meta property="og:description" content="'' @
      ''Hello World'' @ ?close @ [] \<and>
    ToLower ?U ?W4 = map lowerByte ?W4 \<and>
    map lowerByte ''<meta property="og:description" content="'' =
      ''<meta property='' @ dquote # ''og:description'' @ dquote # '' content='' @ [dquote] \<and>
    map lowerByte ?close = dquote # ''>'' \<and>
    dquote \<in> set quotes \<and> dquote \<in> set quotes \<and> dquote \<in> set quotes \<and> dquote \<in> set quotes \<and>
    keyText ''og:description'' \<and> attrText ''Hello World'' \<and> ''Hello World'' \<noteq> [] \<and>
    \<not> suffix ''content='' (map lowerByte ''Hello World'') \<and>
    tagsClosed (map lowerByte []) \<and>
    \<not> marked ''property='' ''og:description'' (map lowerByte []) \<and>
    \<not> marked ''name='' ''og:description'' (ToLower ?U ?W4)\<close>
    by (intro conjI l4; code_simp)
  have d4: "Description (extractMetadata ?U ?W4 ?r) = ''hello world''"
    using tag[OF h4, THEN conjunct2, THEN conjunct2, THEN conjunct1, THEN mp, OF refl,
        of "''https://example.com''"]
    unfolding t .
  have a5: "isASCII ?W5"
    by code_simp
  note l5 = ascii[OF a5, of ?U]
  have h5: \<open>?W5 = [] @ ''<META NAME="Description" CONTENT="'' @ ''Plain Words'' @ ?close @ [] \<and>
    ToLower ?U ?W5 = map lowerByte ?W5 \<and>
    map lowerByte ''<META NAME="Description" CONTENT="'' =
      ''<meta name='' @ dquote # ''description'' @ dquote # '' content='' @ [dquote] \<and>
    map lowerByte ?close = dquote # ''>'' \<and>
    dquote \<in> set quotes \<and> dquote \<in> set quotes \<and> dquote \<in> set quotes \<and> dquote \<in> set quotes \<and>
    attrText ''Plain Words'' \<and> ''Plain Words'' \<noteq> [] \<and>
    \<not> suffix ''content='' (map lowerByte ''Plain Words'') \<and>
    tagsClosed (map lowerByte []) \<and> \<not> marked ''name='' ''description'' (map lowerByte []) \<and>
    \<not> sublist ''og:description'' (ToLower ?U ?W5)\<close>
    by (intro conjI l5; code_simp)
  have d5: "Description (extractMetadata ?U ?W5 ?r) = ''plain words''"
    using desc[OF h5, of "''https://example.com''"] unfolding t .
  show ?thesis
    by (intro conjI a1 i1 u1 s1 t1 ts1 p1 a2 n2 s2 u2 t3 u3 p3 d4 d5)
qed

end
